(* ===== verification/Prelude.thy ===== *)
theory Prelude
  imports Main "HOL-Library.Word" "HOL-Library.Code_Target_Numeral"
begin

text \<open>
  Shared vocabulary of the development: the C integer types the header uses
  (\<open>int\<close> and \<open>long\<close> of an LP64 target, \<open>unsigned int\<close> as \<open>32 word\<close>), the
  character classes of the C locale (\<open>isdigit\<close>, \<open>isspace\<close>) and decimal
  rendering and reading of numbers, which \<open>sscanf\<close>, \<open>strftime\<close> and the
  \<open>ostringstream\<close> of the exception class all rely on.
\<close>

named_theorems cint_simps "evaluation rules for the C integer conversions"
named_theorems decimal_simps "evaluation rules for decimal rendering and reading"

type_synonym uint32 = "32 word"

subsection \<open>C integers\<close>

definition INT_MIN :: int where "INT_MIN = - (2 ^ 31)"
definition INT_MAX :: int where "INT_MAX = 2 ^ 31 - 1"
definition LONG_MIN :: int where "LONG_MIN = - (2 ^ 63)"
definition LONG_MAX :: int where "LONG_MAX = 2 ^ 63 - 1"

declare INT_MIN_def [cint_simps] INT_MAX_def [cint_simps]
  LONG_MIN_def [cint_simps] LONG_MAX_def [cint_simps]

text \<open>A value fits a C \<open>int\<close>.\<close>

definition in_int :: "int \<Rightarrow> bool" where
  "in_int x \<longleftrightarrow> INT_MIN \<le> x \<and> x \<le> INT_MAX"

text \<open>
  Conversion of an integer value to \<open>int\<close> as the compiler performs it
  (two's complement, modulo \<open>2\<^sup>3\<^sup>2\<close>); also the result of signed
  \<open>int\<close> arithmetic that overflows, which C leaves undefined and the target
  wraps.
\<close>

definition wrap_int :: "int \<Rightarrow> int" where
  "wrap_int x = (x + 2 ^ 31) mod 2 ^ 32 - 2 ^ 31"

text \<open>\<open>strtol\<close> saturates at the bounds of \<open>long\<close>.\<close>

definition sat_long :: "int \<Rightarrow> int" where
  "sat_long x = max LONG_MIN (min LONG_MAX x)"

lemma wrap_int_id [simp]: "in_int x \<Longrightarrow> wrap_int x = x"
  by (simp add: in_int_def wrap_int_def INT_MIN_def INT_MAX_def)

lemma in_int_wrap_int [simp]: "in_int (wrap_int x)"
  by (simp add: in_int_def wrap_int_def INT_MIN_def INT_MAX_def)

lemma wrap_int_sint: "wrap_int x = sint (word_of_int x :: 32 word)"
  by (simp add: wrap_int_def int_word_sint)

lemma in_int_sint [simp]: "in_int (sint (w :: 32 word))"
  using sint_ge [of w] sint_lt [of w] by (simp add: in_int_def INT_MIN_def INT_MAX_def)

lemma sat_long_id [simp]: "LONG_MIN \<le> x \<Longrightarrow> x \<le> LONG_MAX \<Longrightarrow> sat_long x = x"
  by (simp add: sat_long_def)

lemma in_int_iff [cint_simps]: "in_int x \<longleftrightarrow> - (2 ^ 31) \<le> x \<and> x \<le> 2 ^ 31 - 1"
  by (simp add: in_int_def INT_MIN_def INT_MAX_def)

lemma div_decomp: "0 \<le> r \<Longrightarrow> r < k \<Longrightarrow> (k * q + r) div k = (q :: int)"
  by (simp add: add.commute)

lemma mod_decomp: "0 \<le> r \<Longrightarrow> r < k \<Longrightarrow> (k * q + r) mod k = (r :: int)"
  by (simp add: add.commute)

subsection \<open>Characters of the C locale\<close>

definition is_digit :: "char \<Rightarrow> bool" where
  "is_digit c \<longleftrightarrow> (48 :: nat) \<le> of_char c \<and> (of_char c :: nat) \<le> 57"

text \<open>\<open>isspace\<close>: space, tab, newline, vertical tab, form feed, carriage return.\<close>

definition is_space :: "char \<Rightarrow> bool" where
  "is_space c \<longleftrightarrow> (of_char c :: nat) = 32 \<or> ((9 :: nat) \<le> of_char c \<and> (of_char c :: nat) \<le> 13)"

definition digit_val :: "char \<Rightarrow> nat" where
  "digit_val c = (of_char c :: nat) - 48"

definition digit_chr :: "nat \<Rightarrow> char" where
  "digit_chr d = char_of (48 + d)"

declare is_digit_def [decimal_simps] is_space_def [decimal_simps]
  digit_val_def [decimal_simps] digit_chr_def [decimal_simps]

lemma of_char_digit_chr [simp]: "d < 10 \<Longrightarrow> of_char (digit_chr d) = 48 + d"
  by (simp add: digit_chr_def of_char_of)

lemma is_digit_digit_chr [simp]: "d < 10 \<Longrightarrow> is_digit (digit_chr d)"
  by (simp add: is_digit_def)

lemma digit_val_digit_chr [simp]: "d < 10 \<Longrightarrow> digit_val (digit_chr d) = d"
  by (simp add: digit_val_def)

lemma digit_not_space [simp]: "is_digit c \<Longrightarrow> \<not> is_space c"
  by (auto simp: is_digit_def is_space_def)

lemma digit_val_lt [simp]: "is_digit c \<Longrightarrow> digit_val c < 10"
  unfolding is_digit_def digit_val_def by arith

lemma digit_chr_inj: "d < 10 \<Longrightarrow> e < 10 \<Longrightarrow> digit_chr d = digit_chr e \<longleftrightarrow> d = e"
  by (metis digit_val_digit_chr)

subsection \<open>Decimal rendering and reading\<close>

text \<open>The decimal digits of a natural number, most significant first.\<close>

fun dec_nat :: "nat \<Rightarrow> string" where
  "dec_nat n = (if n < 10 then [digit_chr n] else dec_nat (n div 10) @ [digit_chr (n mod 10)])"

declare dec_nat.simps [simp del]

text \<open>An integer as \<open>operator<<\<close> and \<open>printf\<close> print it: a minus sign, then the digits.\<close>

definition dec_int :: "int \<Rightarrow> string" where
  "dec_int i = (if i < 0 then CHR ''-'' # dec_nat (nat (- i)) else dec_nat (nat i))"

text \<open>Left padding with zeros to a minimum width.\<close>

definition pad0 :: "nat \<Rightarrow> string \<Rightarrow> string" where
  "pad0 w s = replicate (w - length s) CHR ''0'' @ s"

text \<open>The value of a string of digits (the accumulation loop of \<open>strtol\<close>).\<close>

definition read_nat :: "string \<Rightarrow> nat" where
  "read_nat ds = foldl (\<lambda>acc c. 10 * acc + digit_val c) 0 ds"

text \<open>The value of an optionally negative decimal numeral.\<close>

definition read_int :: "string \<Rightarrow> int" where
  "read_int s = (if s \<noteq> [] \<and> hd s = CHR ''-'' then - int (read_nat (tl s)) else int (read_nat s))"

declare dec_int_def [decimal_simps] pad0_def [decimal_simps] read_nat_def [decimal_simps]
  read_int_def [decimal_simps]

lemma dec_nat_small [simp]: "n < 10 \<Longrightarrow> dec_nat n = [digit_chr n]"
  by (simp add: dec_nat.simps)

lemma dec_nat_step: "\<not> n < 10 \<Longrightarrow> dec_nat n = dec_nat (n div 10) @ [digit_chr (n mod 10)]"
  by (simp add: dec_nat.simps [of n])

lemma dec_nat_digits: "c \<in> set (dec_nat n) \<Longrightarrow> is_digit c"
proof (induction n rule: dec_nat.induct)
  case (1 n)
  then show ?case
    by (cases "n < 10") (auto simp: dec_nat_step)
qed

lemma dec_nat_all_digits [simp]: "list_all is_digit (dec_nat n)"
  by (simp add: list_all_iff dec_nat_digits)

lemma dec_nat_not_Nil [simp]: "dec_nat n \<noteq> []"
  by (cases "n < 10") (simp_all add: dec_nat_step)

lemma read_nat_snoc: "read_nat (ds @ [c]) = 10 * read_nat ds + digit_val c"
  by (simp add: read_nat_def)

lemma read_nat_dec_nat [simp]: "read_nat (dec_nat n) = n"
proof (induction n rule: dec_nat.induct)
  case (1 n)
  then show ?case
    by (cases "n < 10") (simp_all add: dec_nat_step read_nat_snoc, simp add: read_nat_def)
qed

lemma length_dec_nat_le: "n < 10 ^ k \<Longrightarrow> 0 < k \<Longrightarrow> length (dec_nat n) \<le> k"
proof (induction n arbitrary: k rule: dec_nat.induct)
  case (1 n)
  show ?case
  proof (cases "n < 10")
    case False
    obtain k' where k: "k = Suc k'" "0 < k'"
    proof (cases k)
      case (Suc k')
      with "1.prems" False have "0 < k'"
        by (cases k') auto
      with Suc that show ?thesis by blast
    qed (use "1.prems" in simp)
    with "1.prems" have "n div 10 < 10 ^ k'"
      by (simp add: less_mult_imp_div_less mult.commute)
    with False "1.IH" k show ?thesis by (simp add: dec_nat_step)
  qed (use "1.prems" in simp)
qed

lemma length_dec_nat_ge: "10 ^ k \<le> n \<Longrightarrow> k < length (dec_nat n)"
proof (induction n arbitrary: k rule: dec_nat.induct)
  case (1 n)
  show ?case
  proof (cases "n < 10")
    case True
    have "10 ^ k < (10 :: nat) ^ 1"
      using "1.prems" True by simp
    then have "k = 0"
      by (simp only: power_strict_increasing_iff)
    then show ?thesis by simp
  next
    case False
    show ?thesis
    proof (cases k)
      case (Suc k')
      with "1.prems" have "10 ^ k' \<le> n div 10"
        using div_le_mono [of "10 * 10 ^ k'" n 10] by simp
      with False "1.IH" Suc show ?thesis by (simp add: dec_nat_step)
    qed (simp add: dec_nat_step False)
  qed
qed

lemma length_pad0: "length s \<le> w \<Longrightarrow> length (pad0 w s) = w"
  by (simp add: pad0_def)

lemma dec_nat_hd_digit: "is_digit (hd (dec_nat n))"
  using dec_nat_digits [of _ n] dec_nat_not_Nil [of n] by simp

lemma read_int_dec_int [simp]: "read_int (dec_int i) = i"
proof -
  have "hd (dec_nat n) \<noteq> CHR ''-''" for n
    using dec_nat_hd_digit [of n] by (auto simp: is_digit_def)
  then show ?thesis by (simp add: read_int_def dec_int_def)
qed

lemma dec_int_chars: "c \<in> set (dec_int i) \<Longrightarrow> is_digit c \<or> c = CHR ''-''"
  by (auto simp: dec_int_def dec_nat_digits split: if_splits)

lemma is_digit_zero [simp]: "is_digit CHR ''0''"
  by (simp add: is_digit_def)

lemma read_nat_zeros [simp]: "read_nat (replicate k CHR ''0'' @ ds) = read_nat ds"
  by (induction k) (simp_all add: read_nat_def digit_val_def)

lemma wrap_int_add: "wrap_int (wrap_int a + b) = wrap_int (a + b)"
proof -
  have "((a + 2 ^ 31) mod 2 ^ 32 + b) mod 2 ^ 32 = (a + 2 ^ 31 + b) mod (2 ^ 32 :: int)"
    by (rule mod_add_left_eq)
  then show ?thesis unfolding wrap_int_def by (simp add: ac_simps)
qed

lemma wrap_int_diff: "wrap_int (wrap_int a - b) = wrap_int (a - b)"
  using wrap_int_add [of a "- b"] by simp

lemma word_of_int_wrap_int [simp]: "(word_of_int (wrap_int x) :: 32 word) = word_of_int x"
  by (simp add: wrap_int_sint)

lemma sint_word_of_int_in_int: "in_int x \<Longrightarrow> sint (word_of_int x :: 32 word) = x"
  by (simp flip: wrap_int_sint)

text \<open>Two's complement read off the unsigned value.\<close>

lemma sint_uint_if:
  fixes x :: "'a::len word"
  shows "sint x = (if uint x < 2 ^ (LENGTH('a) - 1) then uint x else uint x - 2 ^ LENGTH('a))"
proof -
  define L where "L = LENGTH('a)"
  define h :: int where "h = 2 ^ (L - 1)"
  have u: "uint x = sint x mod 2 ^ L" by (simp add: uint_sint take_bit_eq_mod L_def)
  have b: "- h \<le> sint x" "sint x < h" unfolding h_def L_def by (rule sint_ge, rule sint_lt)
  have l: "L = Suc (L - 1)" by (simp add: L_def)
  have p: "(2 :: int) ^ L = 2 * h"
  proof -
    have "(2 :: int) ^ L = 2 ^ Suc (L - 1)" using l by (rule arg_cong)
    then show ?thesis by (simp add: h_def)
  qed
  show ?thesis
  proof (cases "0 \<le> sint x")
    case True
    have "sint x mod 2 ^ L = sint x" using True b p by (intro mod_pos_pos_trivial) simp_all
    then show ?thesis using u b True by (simp add: h_def L_def)
  next
    case False
    have "(sint x + 2 ^ L) mod 2 ^ L = sint x + 2 ^ L" using False b p by (intro mod_pos_pos_trivial) simp_all
    then have "uint x = sint x + 2 ^ L" using u by simp
    then show ?thesis using b p False by (simp add: h_def L_def)
  qed
qed

end
