(* ===== verification/Exception.thy ===== *)
theory Exception
  imports Prelude
begin

text \<open>
  \<open>mysqlpp::exception\<close> (src/mysqlpp.hpp, lines 25-45): a
  \<open>std::runtime_error\<close> carrying the text it was built with, and the
  diagnostic \<open>what()\<close> returns, which the constructor prepares as
  \<open>file:line text\<close> with an \<open>ostringstream\<close>. The outcome of an operation is
  either its value or an error: an exception thrown by the code of the header,
  or one of the error kinds of the specification (section 7) for the
  operations whose bodies are not part of the sources.
\<close>

record exception =
  exc_runtime :: string
  exc_err :: string

definition exception_new :: "string \<Rightarrow> int \<Rightarrow> string \<Rightarrow> exception" where
  "exception_new file line what =
     \<lparr>exc_runtime = what, exc_err = file @ CHR '':'' # dec_int line @ CHR '' '' # what\<rparr>"

definition exception_what :: "exception \<Rightarrow> string" where
  "exception_what e = exc_err e"

datatype error_kind =
    ParseError | ConnectError | PrepareError | BindError | ExecuteError
  | FetchError | NullValueError | NotFoundError | UseAfterCloseError

datatype error = Raised exception | Failed error_kind

text \<open>The \<open>__FILE__\<close> of every throw in the header.\<close>

definition mysqlpp_hpp :: string where
  "mysqlpp_hpp = ''mysqlpp.hpp''"

text \<open>
  Reading a diagnostic back: after the file name and the colon, the line number
  runs up to the first blank, and the text follows it.
\<close>

definition parse_what :: "string \<Rightarrow> string \<Rightarrow> (int \<times> string) option" where
  "parse_what file err =
     (if take (Suc (length file)) err = file @ '':'' then
        (let rest = drop (Suc (length file)) err;
             num = takeWhile (\<lambda>c. c \<noteq> CHR '' '') rest;
             tail = dropWhile (\<lambda>c. c \<noteq> CHR '' '') rest
         in if tail = [] then None else Some (read_int num, tl tail))
      else None)"

lemma dec_int_no_blank: "CHR '' '' \<notin> set (dec_int i)"
  using dec_int_chars [of "CHR '' ''" i] by (auto simp: is_digit_def)

section \<open>Properties of \<open>exception\<close>\<close>

text \<open>
  C17. The text \<open>what()\<close> returns identifies the throw: the file, the line
  and the message can all be read back from it, while the
  \<open>std::runtime_error\<close> base keeps the bare message.
\<close>

theorem exception_what_roundtrip:
  "parse_what f (exception_what (exception_new f l w)) = Some (l, w) \<and> exc_runtime (exception_new f l w) = w"
proof -
  have "\<forall>x\<in>set (dec_int l). x \<noteq> CHR '' ''" using dec_int_no_blank [of l] by blast
  then have "takeWhile (\<lambda>c. c \<noteq> CHR '' '') (dec_int l @ CHR '' '' # w) = dec_int l"
    "dropWhile (\<lambda>c. c \<noteq> CHR '' '') (dec_int l @ CHR '' '' # w) = CHR '' '' # w"
    by (simp_all add: takeWhile_append2 dropWhile_append2)
  then show ?thesis by (simp add: parse_what_def exception_what_def exception_new_def read_int_dec_int)
qed

end
