(* ===== verification/Column.thy ===== *)
theory Column
  imports Prelude
begin

text \<open>
  The column descriptor \<open>st_mysql_column\<close> (src/mysqlpp.hpp, lines 119-134)
  and the wire type tags of MySQL's binary protocol (\<open>enum_field_types\<close> of
  \<open>mysql.h\<close>) with the semantic kinds the specification (section 6) assigns
  them. A \<open>char\<close> flag is an \<open>8 word\<close>, true when non-zero; \<open>unsigned long\<close>
  is a \<open>64 word\<close>; the \<open>std::vector<char>\<close> buffer is a list of bytes.
\<close>

datatype enum_field_types =
    MYSQL_TYPE_DECIMAL | MYSQL_TYPE_TINY | MYSQL_TYPE_SHORT | MYSQL_TYPE_LONG
  | MYSQL_TYPE_FLOAT | MYSQL_TYPE_DOUBLE | MYSQL_TYPE_NULL | MYSQL_TYPE_TIMESTAMP
  | MYSQL_TYPE_LONGLONG | MYSQL_TYPE_INT24 | MYSQL_TYPE_DATE | MYSQL_TYPE_TIME
  | MYSQL_TYPE_DATETIME | MYSQL_TYPE_YEAR | MYSQL_TYPE_NEWDATE | MYSQL_TYPE_VARCHAR
  | MYSQL_TYPE_BIT | MYSQL_TYPE_NEWDECIMAL | MYSQL_TYPE_ENUM | MYSQL_TYPE_SET
  | MYSQL_TYPE_TINY_BLOB | MYSQL_TYPE_MEDIUM_BLOB | MYSQL_TYPE_LONG_BLOB | MYSQL_TYPE_BLOB
  | MYSQL_TYPE_VAR_STRING | MYSQL_TYPE_STRING | MYSQL_TYPE_GEOMETRY

text \<open>
  The semantic kind of a wire type: a fixed-width integer or float of so many
  bytes, the fixed-size date/time structure \<open>MYSQL_TIME\<close>, variable-length
  text, or a variable-length blob.
\<close>

datatype wire_kind = Wire_int nat | Wire_float nat | Wire_time | Wire_text | Wire_blob

fun wire_kind_of :: "enum_field_types \<Rightarrow> wire_kind" where
  "wire_kind_of MYSQL_TYPE_TINY = Wire_int 1"
| "wire_kind_of MYSQL_TYPE_SHORT = Wire_int 2"
| "wire_kind_of MYSQL_TYPE_YEAR = Wire_int 2"
| "wire_kind_of MYSQL_TYPE_LONG = Wire_int 4"
| "wire_kind_of MYSQL_TYPE_INT24 = Wire_int 4"
| "wire_kind_of MYSQL_TYPE_LONGLONG = Wire_int 8"
| "wire_kind_of MYSQL_TYPE_FLOAT = Wire_float 4"
| "wire_kind_of MYSQL_TYPE_DOUBLE = Wire_float 8"
| "wire_kind_of MYSQL_TYPE_TIMESTAMP = Wire_time"
| "wire_kind_of MYSQL_TYPE_DATE = Wire_time"
| "wire_kind_of MYSQL_TYPE_TIME = Wire_time"
| "wire_kind_of MYSQL_TYPE_DATETIME = Wire_time"
| "wire_kind_of MYSQL_TYPE_NEWDATE = Wire_time"
| "wire_kind_of MYSQL_TYPE_TINY_BLOB = Wire_blob"
| "wire_kind_of MYSQL_TYPE_MEDIUM_BLOB = Wire_blob"
| "wire_kind_of MYSQL_TYPE_LONG_BLOB = Wire_blob"
| "wire_kind_of MYSQL_TYPE_BLOB = Wire_blob"
| "wire_kind_of MYSQL_TYPE_GEOMETRY = Wire_blob"
| "wire_kind_of _ = Wire_text"

text \<open>\<open>sizeof(MYSQL_TIME)\<close> on an LP64 target: six \<open>unsigned int\<close>, an \<open>unsigned long\<close>, a flag and an enum.\<close>

definition mysql_time_size :: nat where
  "mysql_time_size = 40"

text \<open>The buffer a column gets at metadata discovery: its native size, or none for a variable-length type.\<close>

fun fixed_size :: "wire_kind \<Rightarrow> nat option" where
  "fixed_size (Wire_int w) = Some w"
| "fixed_size (Wire_float w) = Some w"
| "fixed_size Wire_time = Some mysql_time_size"
| "fixed_size Wire_text = None"
| "fixed_size Wire_blob = None"

definition initial_buffer_size :: "enum_field_types \<Rightarrow> nat" where
  "initial_buffer_size t = (case fixed_size (wire_kind_of t) of Some n \<Rightarrow> n | None \<Rightarrow> 0)"

record st_mysql_column =
  col_type :: enum_field_types
  col_name :: string
  col_buffer :: "8 word list"
  col_length :: "64 word"
  col_is_unsigned :: "8 word"
  col_is_null :: "8 word"
  col_error :: "8 word"

text \<open>
  The default constructor (lines 121-123): an empty buffer, length and flags
  zero, the name the empty string. It leaves \<open>type\<close> uninitialised, which is
  the parameter \<open>junk_type\<close>.
\<close>

definition st_mysql_column_new :: "enum_field_types \<Rightarrow> st_mysql_column" where
  "st_mysql_column_new junk_type =
     \<lparr>col_type = junk_type, col_name = [], col_buffer = [], col_length = 0, col_is_unsigned = 0,
      col_is_null = 0, col_error = 0\<rparr>"

text \<open>The invariant of the specification (section 3): a non-null column's buffer holds its reported length.\<close>

definition column_ok :: "st_mysql_column \<Rightarrow> bool" where
  "column_ok c \<longleftrightarrow> (col_is_null c = 0 \<longrightarrow> unat (col_length c) \<le> length (col_buffer c))"

lemma column_new_ok: "column_ok (st_mysql_column_new t)"
  by (simp add: column_ok_def st_mysql_column_new_def)

lemma wire_variable_iff:
  "fixed_size (wire_kind_of t) = None \<longleftrightarrow> wire_kind_of t = Wire_text \<or> wire_kind_of t = Wire_blob"
  by (cases "wire_kind_of t") simp_all

end
