(* ===== verification/Scanf.thy ===== *)
theory Scanf
  imports Prelude
begin

text \<open>
  The \<open>sscanf\<close> call of the \<open>datetime(const std::string&)\<close> constructor
  (src/mysqlpp.hpp, line 65) with the format \<open>"%d-%d-%d %d:%d:%d"\<close>.
  The format is read into directives as the C library reads it: \<open>%d\<close> is a
  conversion, a white-space character matches any amount of white space, any
  other character must match itself. A \<open>%d\<close> conversion skips white space,
  takes an optional sign and at least one digit; the value is computed by
  \<open>strtol\<close> (saturating at the bounds of \<open>long\<close>) and stored into an
  \<open>int\<close> (modulo \<open>2\<^sup>3\<^sup>2\<close>). The call returns the number of values
  assigned, or \<open>EOF\<close> (\<open>-1\<close>) when the input ends before the first
  conversion. The string is read up to its first NUL, as \<open>c_str()\<close> passes it.
\<close>

datatype directive = Conv_d | Lit char | White

datatype scan_failure = Input_failure | Matching_failure

fun parse_format :: "string \<Rightarrow> directive list" where
  "parse_format [] = []"
| "parse_format (c # cs) =
     (if c = CHR ''%'' \<and> cs \<noteq> [] \<and> hd cs = CHR ''d'' then Conv_d # parse_format (tl cs)
      else if is_space c then White # parse_format cs
      else Lit c # parse_format cs)"

definition datetime_format :: string where
  "datetime_format = ''%d-%d-%d %d:%d:%d''"

text \<open>One \<open>%d\<close> conversion: the value and the rest of the input, or why it failed.\<close>

definition scan_int :: "string \<Rightarrow> scan_failure + (int \<times> string)" where
  "scan_int s =
     (case dropWhile is_space s of
        [] \<Rightarrow> Inl Input_failure
      | c # r \<Rightarrow>
          (let neg = (c = CHR ''-'');
               r' = (if c = CHR ''-'' \<or> c = CHR ''+'' then r else c # r);
               ds = takeWhile is_digit r'
           in if ds = [] then Inl Matching_failure
              else Inr (wrap_int (sat_long (if neg then - int (read_nat ds) else int (read_nat ds))),
                        dropWhile is_digit r')))"

text \<open>The directives in order; the values assigned and the failure that stopped the scan.\<close>

fun scan_go :: "directive list \<Rightarrow> string \<Rightarrow> int list \<times> scan_failure option" where
  "scan_go [] s = ([], None)"
| "scan_go (Conv_d # fs) s =
     (case scan_int s of
        Inl e \<Rightarrow> ([], Some e)
      | Inr (v, s') \<Rightarrow> (case scan_go fs s' of (vs, r) \<Rightarrow> (v # vs, r)))"
| "scan_go (Lit c # fs) s =
     (case s of
        [] \<Rightarrow> ([], Some Input_failure)
      | d # s' \<Rightarrow> if d = c then scan_go fs s' else ([], Some Matching_failure))"
| "scan_go (White # fs) s = scan_go fs (dropWhile is_space s)"

text \<open>\<open>sscanf(str.c_str(), fmt, ...)\<close>: the return value and the values assigned.\<close>

definition sscanf :: "string \<Rightarrow> string \<Rightarrow> int \<times> int list" where
  "sscanf str fmt =
     (case scan_go (parse_format fmt) (takeWhile (\<lambda>c. c \<noteq> CHR 0x00) str) of
        (vs, r) \<Rightarrow> (if vs = [] \<and> r = Some Input_failure then -1 else int (length vs), vs))"

lemma parse_datetime_format:
  "parse_format datetime_format =
     [Conv_d, Lit CHR ''-'', Conv_d, Lit CHR ''-'', Conv_d, White, Conv_d, Lit CHR '':'', Conv_d,
      Lit CHR '':'', Conv_d]"
  by (simp add: datetime_format_def is_space_def)

text \<open>\<open>%d\<close> reads a run of digits that ends the input or a non-digit.\<close>

lemma scan_int_digits:
  assumes "ds \<noteq> []" "list_all is_digit ds" "rest = [] \<or> \<not> is_digit (hd rest)" "in_int (int (read_nat ds))"
  shows "scan_int (ds @ rest) = Inr (int (read_nat ds), rest)"
proof -
  obtain c r where ds: "ds = c # r" using assms(1) by (cases ds) auto
  have c: "is_digit c" "list_all is_digit r" using assms(2) ds by simp_all
  then have nsp: "\<not> is_space c" and sign: "c \<noteq> CHR ''-''" "c \<noteq> CHR ''+''"
    by (auto simp: is_digit_def)
  have tw: "takeWhile is_digit (ds @ rest) = ds" and dw: "dropWhile is_digit (ds @ rest) = rest"
    using assms(2,3) by (auto simp: takeWhile_append2 dropWhile_append2 list_all_iff
        takeWhile_eq_Nil_iff dropWhile_eq_self_iff)
  have "sat_long (int (read_nat ds)) = int (read_nat ds)"
    using assms(4) by (simp add: in_int_def INT_MAX_def LONG_MIN_def LONG_MAX_def)
  then show ?thesis
    using nsp sign tw dw assms(4) by (simp add: scan_int_def ds)
qed

lemma scan_go_length: "length (fst (scan_go fs s)) \<le> count_list fs Conv_d"
  by (induction fs s rule: scan_go.induct) (auto split: sum.splits prod.splits list.splits)

lemma scan_int_blank:
  assumes "list_all is_space s" shows "scan_int s = Inl Input_failure"
proof -
  have "dropWhile is_space s = []" using assms by (simp add: list_all_iff)
  then show ?thesis by (simp add: scan_int_def del: dropWhile_eq_Nil_conv)
qed

lemma scan_int_long:
  assumes "ds \<noteq> []" "list_all is_digit ds" "LONG_MAX < int (read_nat ds)"
  shows "scan_int ds = Inr (-1, [])"
proof -
  obtain c r where ds: "ds = c # r" using assms(1) by (cases ds) auto
  have c: "\<not> is_space c" "c \<noteq> CHR ''-''" "c \<noteq> CHR ''+''" using assms(2) ds by (auto simp: is_digit_def is_space_def)
  have tw: "takeWhile is_digit ds = ds" "dropWhile is_digit ds = []"
    using assms(2) by (simp_all add: list_all_iff)
  have "wrap_int (sat_long (int (read_nat ds))) = -1"
    using assms(3) by (simp add: sat_long_def wrap_int_def LONG_MIN_def LONG_MAX_def)
  then show ?thesis using c tw by (simp add: scan_int_def ds)
qed

lemma scan_int_input_failure: "scan_int s = Inl Input_failure \<longleftrightarrow> list_all is_space s"
proof -
  have "scan_int s = Inl Input_failure \<longleftrightarrow> dropWhile is_space s = []"
    by (cases "dropWhile is_space s") (simp_all add: scan_int_def Let_def del: dropWhile_eq_Nil_conv)
  then show ?thesis by (simp add: list_all_iff)
qed

section \<open>Properties of \<open>sscanf\<close>\<close>

text \<open>
  C14. The return value of the constructor's \<open>sscanf\<close> call: \<open>EOF\<close>
  (\<open>-1\<close>) exactly when the input, up to its first NUL, is white space
  only, so that the first \<open>%d\<close> meets the end of the input; otherwise the
  number of values assigned, a matching failure before the first value
  (as on \<open>"abc"\<close>) giving 0. At most six values are assigned.
\<close>

theorem sscanf_values_bound:
  "length (snd (sscanf str datetime_format)) \<le> 6 \<and>
   fst (sscanf str datetime_format) =
     (if list_all is_space (takeWhile (\<lambda>c. c \<noteq> CHR 0x00) str) then -1
      else int (length (snd (sscanf str datetime_format))))"
proof -
  define s where "s = takeWhile (\<lambda>c. c \<noteq> CHR 0x00) str"
  define fs where "fs = tl (parse_format datetime_format)"
  have p: "parse_format datetime_format = Conv_d # fs" by (simp add: fs_def parse_datetime_format)
  have len: "length (fst (scan_go (parse_format datetime_format) s)) \<le> 6"
    using scan_go_length [of "parse_format datetime_format" s] by (simp add: parse_datetime_format)
  have eof: "(fst (scan_go (Conv_d # fs) s) = [] \<and> snd (scan_go (Conv_d # fs) s) = Some Input_failure) \<longleftrightarrow>
             list_all is_space s"
    by (auto simp: scan_int_input_failure [symmetric] split: sum.splits prod.splits)
  show ?thesis using len eof
    by (auto simp: sscanf_def s_def [symmetric] p split: prod.splits)
qed

text \<open>
  C15. On an input of white space only, the constructor's \<open>sscanf\<close> call
  returns \<open>EOF\<close> and assigns nothing.
\<close>

theorem sscanf_blank_eof:
  assumes "list_all is_space str"
  shows "sscanf str datetime_format = (-1, [])"
proof -
  have "takeWhile (\<lambda>c. c \<noteq> CHR 0x00) str = str"
    using assms by (auto simp: list_all_iff takeWhile_eq_all_conv is_space_def)
  then show ?thesis using scan_int_blank [OF assms]
    by (simp add: sscanf_def parse_datetime_format del: takeWhile_eq_all_conv)
qed

theorem sscanf_blank_eof_witness: "sscanf '' \<newline>  '' datetime_format = (-1, [])"
  using sscanf_blank_eof [of "'' \<newline>  ''"] by (simp add: is_space_def)

text \<open>
  C16. A number too large for \<open>long\<close> is read as \<open>LONG_MAX\<close> and stored
  into the \<open>int\<close> as \<open>-1\<close>, silently: the call still counts it as a
  successful conversion.
\<close>

theorem sscanf_saturates:
  assumes "ds \<noteq> []" "list_all is_digit ds" "LONG_MAX < int (read_nat ds)"
  shows "sscanf ds datetime_format = (1, [-1])"
proof -
  have "takeWhile (\<lambda>c. c \<noteq> CHR 0x00) ds = ds"
    using assms(2) by (auto simp: list_all_iff takeWhile_eq_all_conv is_digit_def)
  then show ?thesis using scan_int_long [OF assms]
    by (simp add: sscanf_def parse_datetime_format del: takeWhile_eq_all_conv)
qed

theorem sscanf_saturates_witness: "sscanf ''9999999999999999999'' datetime_format = (1, [-1])"
proof -
  have "LONG_MAX < int (read_nat ''9999999999999999999'')" by code_simp
  then show ?thesis using sscanf_saturates [of "''9999999999999999999''"] by (simp add: is_digit_def)
qed

end
