(* ===== verification/Calendar.thy ===== *)
theory Calendar
  imports Prelude
begin

text \<open>
  The C library's broken-down time \<open>struct tm\<close> and the two conversions the
  \<open>datetime\<close> constructors call: \<open>mktime\<close> (src/mysqlpp.hpp, line 75),
  which normalises out-of-range fields and converts local time to seconds since
  the epoch, and \<open>localtime\<close> (line 52), which converts back. Both are modelled
  after glibc on a 64-bit target in a time zone with a fixed offset \<open>tz\<close> (in
  seconds east of UTC) and no daylight saving time: \<open>mktime\<close> is the linear
  count of seconds in \<open>ydhms_diff\<close>, with the month folded into the year by
  floor division, and the normalised fields are those of the broken-down result
  of that count, as glibc re-derives them with \<open>localtime\<close>. The year loop
  and the month loop of glibc's \<open>__offtime\<close> are \<open>year_of\<close> and
  \<open>mon_down\<close>.
\<close>

record tm =
  tm_sec :: int
  tm_min :: int
  tm_hour :: int
  tm_mday :: int
  tm_mon :: int
  tm_year :: int
  tm_wday :: int
  tm_yday :: int
  tm_isdst :: int

subsection \<open>The proleptic Gregorian calendar\<close>

definition is_leap :: "int \<Rightarrow> bool" where
  "is_leap y \<longleftrightarrow> y mod 4 = 0 \<and> (y mod 100 \<noteq> 0 \<or> y mod 400 = 0)"

text \<open>Leap years among \<open>0 .. y - 1\<close>, counted by ceiling division, and the days of those years.\<close>

definition leaps :: "int \<Rightarrow> int" where
  "leaps y = (y + 3) div 4 - (y + 99) div 100 + (y + 399) div 400"

definition days_upto :: "int \<Rightarrow> int" where
  "days_upto y = 365 * y + leaps y"

text \<open>glibc's \<open>__mon_yday\<close>: days before each month, for common and leap years.\<close>

definition mon_yday :: "bool \<Rightarrow> int list" where
  "mon_yday leap =
     (if leap then [0, 31, 60, 91, 121, 152, 182, 213, 244, 274, 305, 335, 366]
      else [0, 31, 59, 90, 120, 151, 181, 212, 243, 273, 304, 334, 365])"

definition month_length :: "bool \<Rightarrow> nat \<Rightarrow> int" where
  "month_length leap m = mon_yday leap ! Suc m - mon_yday leap ! m"

definition epoch_days :: int where
  "epoch_days = days_upto 1970"

text \<open>
  The year holding day \<open>N\<close> (counted from 1 January of year 0): an estimate
  from the mean length of a Gregorian year, corrected downwards and then upwards
  one year at a time.
\<close>

function year_down :: "int \<Rightarrow> int \<Rightarrow> int" where
  "year_down n y = (if n < days_upto y then year_down n (y - 1) else y)"
  by pat_completeness auto

function year_up :: "int \<Rightarrow> int \<Rightarrow> int" where
  "year_up n y = (if days_upto (y + 1) \<le> n then year_up n (y + 1) else y)"
  by pat_completeness auto

lemma leap_step:
  assumes k: "0 < k" and j: "j = k - 1"
  shows "(y + k) div k - (y + j) div k = (if y mod k = 0 then 1 else (0::int))"
proof -
  define q r where "q = y div k" and "r = y mod k"
  have y: "y = k * q + r" and r: "0 \<le> r" "r < k"
    using k by (simp_all add: q_def r_def)
  have "y + k = k * (q + 1) + r"
    by (simp add: y algebra_simps)
  then have a: "(y + k) div k = q + 1"
    using r by (simp only: div_decomp)
  have b: "(y + (k - 1)) div k = q + (if r = 0 then 0 else 1)"
  proof (cases "r = 0")
    case True
    with k have "y + (k - 1) = k * q + (k - 1)" by (simp add: y)
    with k True show ?thesis by (simp only: div_decomp) simp
  next
    case False
    with r have "y + (k - 1) = k * (q + 1) + (r - 1)" "0 \<le> r - 1" "r - 1 < k"
      by (simp_all add: y algebra_simps)
    with False show ?thesis by (simp only: div_decomp) simp
  qed
  show ?thesis using a b by (simp add: r_def j)
qed

lemma leap_combine:
  fixes a a' b b' c c' :: int
  assumes "a - a' = (if p4 then 1 else 0)" "b - b' = (if p100 then 1 else 0)"
    "c - c' = (if p400 then 1 else 0)" "p100 \<Longrightarrow> p4" "p400 \<Longrightarrow> p100"
  shows "a - b + c = a' - b' + c' + (if p4 \<and> (\<not> p100 \<or> p400) then 1 else 0)"
  using assms by (cases p4; cases p100; cases p400) simp_all

lemma leaps_succ: "leaps (y + 1) = leaps y + (if is_leap y then 1 else 0)"
proof -
  have "y + 1 + 3 = y + 4" "y + 1 + 99 = y + 100" "y + 1 + 399 = y + 400"
    by simp_all
  then have up: "leaps (y + 1) = (y + 4) div 4 - (y + 100) div 100 + (y + 400) div 400"
    unfolding leaps_def by (simp only:)
  have m4: "y mod 100 = 0 \<Longrightarrow> y mod 4 = 0" and m100: "y mod 400 = 0 \<Longrightarrow> y mod 100 = 0"
    by presburger+
  have s4: "(y + 4) div 4 - (y + 3) div 4 = (if y mod 4 = 0 then 1 else 0)"
    by (rule leap_step) simp_all
  have s100: "(y + 100) div 100 - (y + 99) div 100 = (if y mod 100 = 0 then 1 else 0)"
    by (rule leap_step) simp_all
  have s400: "(y + 400) div 400 - (y + 399) div 400 = (if y mod 400 = 0 then 1 else 0)"
    by (rule leap_step) simp_all
  have "(y + 4) div 4 - (y + 100) div 100 + (y + 400) div 400 =
      (y + 3) div 4 - (y + 99) div 100 + (y + 399) div 400 + (if is_leap y then 1 else 0)"
    unfolding is_leap_def by (rule leap_combine [OF s4 s100 s400 m4 m100])
  then show ?thesis by (subst up) (simp only: leaps_def)
qed

lemma days_upto_succ: "days_upto (y + 1) = days_upto y + (if is_leap y then 366 else 365)"
  by (simp add: days_upto_def leaps_succ)

lemma days_upto_step_ge: "days_upto y + 365 \<le> days_upto (y + 1)"
  by (simp add: days_upto_succ)

lemma days_upto_mono: "y < y' \<Longrightarrow> days_upto y < days_upto y'"
proof (induction "nat (y' - y)" arbitrary: y')
  case 0
  then show ?case by simp
next
  case (Suc k)
  show ?case
  proof (cases "y < y' - 1")
    case True
    with Suc have "days_upto y < days_upto (y' - 1)" by simp
    with days_upto_step_ge [of "y' - 1"] show ?thesis by simp
  next
    case False
    with Suc.prems have "y' = y + 1" by simp
    with days_upto_step_ge [of y] show ?thesis by simp
  qed
qed

lemma days_upto_mono_iff [simp]: "days_upto y < days_upto y' \<longleftrightarrow> y < y'"
  by (metis days_upto_mono not_less_iff_gr_or_eq order.asym)

lemma days_upto_le_iff [simp]: "days_upto y \<le> days_upto y' \<longleftrightarrow> y \<le> y'"
  by (meson days_upto_mono_iff not_less)

termination year_down
  by (relation "measure (\<lambda>(n, y). nat (days_upto y - n))") (auto simp: days_upto_mono)

termination year_up
proof (relation "measure (\<lambda>(n, y). nat (n - days_upto y))")
  fix n y :: int
  assume "days_upto (y + 1) \<le> n"
  moreover have "days_upto y < days_upto (y + 1)" by simp
  ultimately have "days_upto y < n" by linarith
  then show "((n, y + 1), n, y) \<in> measure (\<lambda>(n, y). nat (n - days_upto y))"
    by simp
qed simp

declare year_down.simps [simp del] year_up.simps [simp del]

definition year_of :: "int \<Rightarrow> int" where
  "year_of n = year_up n (year_down n ((400 * n) div 146097))"

text \<open>glibc: \<open>for (y = 11; days < ip[y]; --y) continue;\<close>\<close>

fun mon_down :: "bool \<Rightarrow> int \<Rightarrow> nat \<Rightarrow> nat" where
  "mon_down leap r 0 = 0"
| "mon_down leap r (Suc m) = (if r < mon_yday leap ! Suc m then mon_down leap r m else Suc m)"

subsection \<open>Conversions\<close>

text \<open>
  Seconds since the epoch of the broken-down time read as UTC, after
  \<open>ydhms_diff\<close>: the month is folded into the year by floor division, every
  other field is added linearly.
\<close>

definition tm_seconds :: "tm \<Rightarrow> int" where
  "tm_seconds t =
     (let y = tm_year t + 1900 + tm_mon t div 12;
          m = nat (tm_mon t mod 12);
          days = days_upto y - epoch_days + mon_yday (is_leap y) ! m + (tm_mday t - 1)
      in days * 86400 + tm_hour t * 3600 + tm_min t * 60 + tm_sec t)"

text \<open>\<open>__offtime\<close>: seconds since the epoch (already shifted to local time) broken down.\<close>

definition breakdown :: "int \<Rightarrow> tm" where
  "breakdown secs =
     (let days = secs div 86400;
          rem = secs mod 86400;
          n = days + epoch_days;
          y = year_of n;
          yd = n - days_upto y;
          leap = is_leap y;
          m = mon_down leap yd 11
      in \<lparr>tm_sec = rem mod 60, tm_min = rem mod 3600 div 60, tm_hour = rem div 3600,
          tm_mday = yd - mon_yday leap ! m + 1, tm_mon = int m, tm_year = y - 1900,
          tm_wday = (4 + days) mod 7, tm_yday = yd, tm_isdst = 0\<rparr>)"

text \<open>\<open>localtime(&t)\<close> in the zone \<open>tz\<close>.\<close>

definition localtime :: "int \<Rightarrow> int \<Rightarrow> tm" where
  "localtime tz t = breakdown (t + tz)"

text \<open>
  \<open>mktime(&time)\<close> in the zone \<open>tz\<close>: the return value and the structure
  as the call leaves it. It fails, returning \<open>-1\<close> and leaving the structure
  alone, when the result does not fit \<open>time_t\<close> or its year does not fit an
  \<open>int\<close>.
\<close>

definition mktime :: "int \<Rightarrow> tm \<Rightarrow> int \<times> tm" where
  "mktime tz t =
     (let secs = tm_seconds t; r = secs - tz; t' = breakdown secs
      in if r < LONG_MIN \<or> LONG_MAX < r \<or> \<not> in_int (tm_year t') then (-1, t) else (r, t'))"

text \<open>A normalised broken-down time: every field in its range.\<close>

definition tm_normal :: "tm \<Rightarrow> bool" where
  "tm_normal t \<longleftrightarrow>
     0 \<le> tm_sec t \<and> tm_sec t < 60 \<and> 0 \<le> tm_min t \<and> tm_min t < 60 \<and>
     0 \<le> tm_hour t \<and> tm_hour t < 24 \<and> 0 \<le> tm_mon t \<and> tm_mon t < 12 \<and>
     1 \<le> tm_mday t \<and> tm_mday t \<le> month_length (is_leap (tm_year t + 1900)) (nat (tm_mon t))"

subsection \<open>The year and month searches\<close>

lemma year_down_le: "days_upto (year_down n y) \<le> n"
proof (induction n y rule: year_down.induct)
  case (1 n y)
  then show ?case
    by (cases "n < days_upto y") (simp_all add: year_down.simps [of n y])
qed

lemma year_up_bounds:
  "days_upto y \<le> n \<Longrightarrow> days_upto (year_up n y) \<le> n \<and> n < days_upto (year_up n y + 1)"
proof (induction n y rule: year_up.induct)
  case (1 n y)
  then show ?case
    by (cases "days_upto (y + 1) \<le> n") (simp_all add: year_up.simps [of n y])
qed

lemma year_of_bounds: "days_upto (year_of n) \<le> n \<and> n < days_upto (year_of n + 1)"
  unfolding year_of_def by (rule year_up_bounds [OF year_down_le])

lemma year_of_eq: "days_upto y \<le> n \<Longrightarrow> n < days_upto (y + 1) \<Longrightarrow> year_of n = y"
proof -
  assume a: "days_upto y \<le> n" "n < days_upto (y + 1)"
  have b: "days_upto (year_of n) \<le> n" "n < days_upto (year_of n + 1)"
    using year_of_bounds [of n] by simp_all
  from a(1) b(2) have "y < year_of n + 1" by (metis days_upto_mono_iff order.strict_trans1)
  moreover from b(1) a(2) have "year_of n < y + 1" by (metis days_upto_mono_iff order.strict_trans1)
  ultimately show ?thesis by simp
qed

lemma mon_yday_length [simp]: "length (mon_yday leap) = 13"
  by (simp add: mon_yday_def)

lemma mon_yday_sorted: "sorted_wrt (<) (mon_yday leap)"
  by (simp add: mon_yday_def)

lemma mon_yday_less: "i < j \<Longrightarrow> j \<le> 12 \<Longrightarrow> mon_yday leap ! i < mon_yday leap ! j"
  using mon_yday_sorted [of leap] by (simp add: sorted_wrt_iff_nth_less)

lemma mon_yday_le: "i \<le> j \<Longrightarrow> j \<le> 12 \<Longrightarrow> mon_yday leap ! i \<le> mon_yday leap ! j"
  using mon_yday_less [of i j leap] by (cases "i = j") simp_all

lemma mon_yday_0 [simp]: "mon_yday leap ! 0 = 0"
  by (simp add: mon_yday_def)

lemma mon_yday_nonneg: "m \<le> 12 \<Longrightarrow> 0 \<le> mon_yday leap ! m"
  using mon_yday_le [of 0 m leap] by simp

lemma mon_yday_12: "mon_yday leap ! 12 = (if leap then 366 else 365)"
  by (simp add: mon_yday_def)

lemma month_length_le_31: "m < 12 \<Longrightarrow> month_length leap m \<le> 31"
  by (auto simp: month_length_def mon_yday_def less_Suc_eq numeral_eq_Suc)

lemma days_upto_1000: "days_upto 1000 = 365243"
  by (simp add: days_upto_def leaps_def)

lemma days_upto_10000: "days_upto 10000 = 3652425"
  by (simp add: days_upto_def leaps_def)

lemma epoch_days_val: "epoch_days = 719528"
  by (simp add: epoch_days_def days_upto_def leaps_def)

lemma mon_down_le: "mon_down leap r k \<le> k"
  by (induction k) auto

lemma mon_down_spec:
  "0 \<le> r \<Longrightarrow> k \<le> 11 \<Longrightarrow>
     mon_yday leap ! mon_down leap r k \<le> r \<and>
     (r < mon_yday leap ! Suc k \<longrightarrow> r < mon_yday leap ! Suc (mon_down leap r k))"
  by (induction k) auto

lemma mon_down_eq:
  assumes "mon_yday leap ! m \<le> r" "r < mon_yday leap ! Suc m" "m \<le> k" "k \<le> 11"
  shows "mon_down leap r k = m"
  using assms(3,4)
proof (induction k)
  case 0
  then show ?case by simp
next
  case (Suc k)
  show ?case
  proof (cases "r < mon_yday leap ! Suc k")
    case True
    have "m \<noteq> Suc k" using True assms(1) by auto
    with Suc True show ?thesis by simp
  next
    case False
    have "m = Suc k"
    proof (rule ccontr)
      assume "m \<noteq> Suc k"
      with Suc.prems have "Suc m \<le> Suc k" by simp
      with Suc.prems have "mon_yday leap ! Suc m \<le> mon_yday leap ! Suc k"
        by (intro mon_yday_le) simp_all
      with False assms(2) show False by simp
    qed
    with False show ?thesis by simp
  qed
qed

subsection \<open>Normalisation: the two conversions are inverse\<close>

text \<open>The fields \<open>set_time\<close> reads, in the order of the text format.\<close>

definition tm_fields :: "tm \<Rightarrow> int \<times> int \<times> int \<times> int \<times> int \<times> int" where
  "tm_fields t = (tm_year t, tm_mon t, tm_mday t, tm_hour t, tm_min t, tm_sec t)"

lemma tm_fields_cong:
  assumes "tm_fields t = tm_fields t'"
  shows "tm_seconds t = tm_seconds t'" "tm_normal t = tm_normal t'"
  using assms by (simp_all add: tm_fields_def tm_seconds_def tm_normal_def)

lemma hms_split:
  fixes h mi s :: int
  assumes "0 \<le> h" "h < 24" "0 \<le> mi" "mi < 60" "0 \<le> s" "s < 60"
  defines "hms \<equiv> h * 3600 + mi * 60 + s"
  shows "0 \<le> hms \<and> hms < 86400 \<and> hms div 3600 = h \<and> hms mod 3600 div 60 = mi \<and> hms mod 60 = s"
proof -
  have ms: "0 \<le> 60 * mi + s" "60 * mi + s < 3600" using assms(3-6) by linarith+
  have e1: "hms = 3600 * h + (60 * mi + s)" by (simp add: hms_def algebra_simps)
  have e2: "hms = 60 * (60 * h + mi) + s" by (simp add: hms_def algebra_simps)
  have "hms div 3600 = h" unfolding e1 using ms by (rule div_decomp)
  moreover have "hms mod 3600 = 60 * mi + s" unfolding e1 using ms by (rule mod_decomp)
  moreover have "(60 * mi + s) div 60 = mi" using assms(5,6) by (rule div_decomp)
  moreover have "hms mod 60 = s" unfolding e2 using assms(5,6) by (rule mod_decomp)
  moreover have "0 \<le> hms" "hms < 86400" using assms(1-6) ms unfolding hms_def by linarith+
  ultimately show ?thesis by simp
qed

lemma year_length: "days_upto (y + 1) - days_upto y = mon_yday (is_leap y) ! 12"
  by (simp add: days_upto_succ mon_yday_12)

text \<open>The count of a normal broken-down time: whole days, then the time of day.\<close>

lemma tm_seconds_split:
  assumes "tm_normal t"
  defines "y \<equiv> tm_year t + 1900"
  defines "yd \<equiv> mon_yday (is_leap y) ! nat (tm_mon t) + (tm_mday t - 1)"
  defines "hms \<equiv> tm_hour t * 3600 + tm_min t * 60 + tm_sec t"
  shows "tm_seconds t = 86400 * (days_upto y - epoch_days + yd) + hms \<and>
    0 \<le> yd \<and> mon_yday (is_leap y) ! nat (tm_mon t) \<le> yd \<and>
    yd < mon_yday (is_leap y) ! Suc (nat (tm_mon t)) \<and> days_upto y + yd < days_upto (y + 1) \<and>
    0 \<le> hms \<and> hms < 86400 \<and> hms div 3600 = tm_hour t \<and> hms mod 3600 div 60 = tm_min t \<and>
    hms mod 60 = tm_sec t"
proof -
  define m where "m = nat (tm_mon t)"
  have mon: "0 \<le> tm_mon t" "tm_mon t < 12"
    using assms by (simp_all add: tm_normal_def)
  then have m12: "m < 12" and mon: "tm_mon t div 12 = 0" "tm_mon t mod 12 = tm_mon t"
    by (simp_all add: m_def nat_less_iff)
  have secs: "tm_seconds t = 86400 * (days_upto y - epoch_days + yd) + hms"
    by (simp add: tm_seconds_def Let_def mon yd_def hms_def y_def algebra_simps)
  have h: "0 \<le> hms \<and> hms < 86400 \<and> hms div 3600 = tm_hour t \<and> hms mod 3600 div 60 = tm_min t
      \<and> hms mod 60 = tm_sec t"
    unfolding hms_def by (rule hms_split) (use assms in \<open>simp_all add: tm_normal_def\<close>)
  have md: "1 \<le> tm_mday t" "tm_mday t \<le> mon_yday (is_leap y) ! Suc m - mon_yday (is_leap y) ! m"
    using assms by (simp_all add: tm_normal_def month_length_def y_def m_def)
  have "mon_yday (is_leap y) ! Suc m \<le> mon_yday (is_leap y) ! 12"
    using m12 by (intro mon_yday_le) simp_all
  moreover have "0 \<le> mon_yday (is_leap y) ! m"
    using m12 by (simp add: mon_yday_nonneg)
  ultimately show ?thesis
    using md secs h year_length [of y] by (simp add: yd_def m_def)
qed

lemma tm_seconds_within_year:
  "tm_normal t \<Longrightarrow>
     86400 * (days_upto (tm_year t + 1900) - epoch_days) \<le> tm_seconds t \<and>
     tm_seconds t < 86400 * (days_upto (tm_year t + 1900 + 1) - epoch_days)"
  using tm_seconds_split [of t] by (simp add: algebra_simps)

theorem breakdown_tm_seconds:
  assumes "tm_normal t"
  shows "tm_fields (breakdown (tm_seconds t)) = tm_fields t"
proof -
  define y where "y = tm_year t + 1900"
  define m where "m = nat (tm_mon t)"
  define leap where "leap = is_leap y"
  define yd where "yd = mon_yday leap ! m + (tm_mday t - 1)"
  define hms where "hms = tm_hour t * 3600 + tm_min t * 60 + tm_sec t"
  have sp: "tm_seconds t = 86400 * (days_upto y - epoch_days + yd) + hms \<and>
    0 \<le> yd \<and> mon_yday leap ! m \<le> yd \<and> yd < mon_yday leap ! Suc m \<and> days_upto y + yd < days_upto (y + 1) \<and>
    0 \<le> hms \<and> hms < 86400 \<and> hms div 3600 = tm_hour t \<and> hms mod 3600 div 60 = tm_min t \<and>
    hms mod 60 = tm_sec t"
    using tm_seconds_split [OF assms] by (simp add: y_def m_def leap_def yd_def hms_def)
  then have d: "tm_seconds t div 86400 = days_upto y - epoch_days + yd" "tm_seconds t mod 86400 = hms"
    by (simp_all only: div_decomp mod_decomp)
  have "0 \<le> tm_mon t" "tm_mon t < 12"
    using assms by (simp_all add: tm_normal_def)
  then have m12: "m \<le> 11" "int m = tm_mon t"
    by (simp_all add: m_def)
  have Y: "year_of (days_upto y + yd) = y"
    using sp by (intro year_of_eq) simp_all
  have M: "mon_down leap yd 11 = m"
    using sp m12 by (intro mon_down_eq) simp_all
  have yr: "tm_year t = y - 1900"
    by (simp add: y_def)
  have D: "yd - mon_yday leap ! m + 1 = tm_mday t"
    by (simp add: yd_def)
  have H: "hms div 3600 = tm_hour t" "hms mod 3600 div 60 = tm_min t" "hms mod 60 = tm_sec t"
    using sp by simp_all
  show ?thesis
    using m12 H by (simp add: breakdown_def Let_def d Y M D tm_fields_def leap_def [symmetric] yr)
qed

text \<open>What the searches of \<open>breakdown\<close> find, named once for the two directions below.\<close>

lemma breakdown_parts:
  fixes secs :: int
  defines "n \<equiv> secs div 86400 + epoch_days"
  defines "y \<equiv> year_of n"
  defines "yd \<equiv> n - days_upto y"
  defines "m \<equiv> mon_down (is_leap y) yd 11"
  shows "0 \<le> yd \<and> yd < mon_yday (is_leap y) ! 12 \<and> m \<le> 11 \<and>
    mon_yday (is_leap y) ! m \<le> yd \<and> yd < mon_yday (is_leap y) ! Suc m"
proof -
  have b: "days_upto y \<le> n" "n < days_upto (y + 1)"
    using year_of_bounds [of n] by (simp_all add: y_def)
  then have yd: "0 \<le> yd" "yd < mon_yday (is_leap y) ! 12"
    using year_length [of y] by (simp_all add: yd_def)
  then have "mon_yday (is_leap y) ! m \<le> yd \<and> yd < mon_yday (is_leap y) ! Suc m"
    using mon_down_spec [of yd 11 "is_leap y"] by (simp add: m_def)
  moreover have "m \<le> 11"
    using mon_down_le [of "is_leap y" yd 11] by (simp add: m_def)
  ultimately show ?thesis using yd by simp
qed

lemma day_split: "0 \<le> (r :: int) mod 86400 \<and> r mod 86400 < 86400 \<and>
    r mod 86400 div 3600 < 24 \<and> 0 \<le> r mod 86400 div 3600 \<and>
    r mod 86400 mod 3600 div 60 < 60 \<and> 0 \<le> r mod 86400 mod 3600 div 60"
proof -
  have a: "0 \<le> r mod 86400" "r mod 86400 \<le> 86399"
    using pos_mod_bound [of 86400 r] by simp_all
  have "r mod 86400 div 3600 \<le> 86399 div 3600"
    using a by (intro zdiv_mono1) simp_all
  moreover have "r mod 86400 mod 3600 div 60 \<le> 3599 div 60"
    using pos_mod_bound [of 3600 "r mod 86400"] by (intro zdiv_mono1) simp_all
  ultimately show ?thesis
    using a by (simp add: pos_imp_zdiv_nonneg_iff)
qed

theorem breakdown_normal: "tm_normal (breakdown secs)"
  using breakdown_parts [of secs] day_split [of secs]
  by (simp add: breakdown_def Let_def tm_normal_def month_length_def nat_less_iff)

theorem tm_seconds_breakdown: "tm_seconds (breakdown secs) = secs"
proof -
  define n where "n = secs div 86400 + epoch_days"
  define y where "y = year_of n"
  define yd where "yd = n - days_upto y"
  define m where "m = mon_down (is_leap y) yd 11"
  define rem where "rem = secs mod 86400"
  have p: "m \<le> 11"
    using breakdown_parts [of secs] by (simp add: n_def y_def yd_def m_def)
  then have mon: "int m div 12 = 0" "int m mod 12 = int m"
    by simp_all
  have bd: "breakdown secs = \<lparr>tm_sec = rem mod 60, tm_min = rem mod 3600 div 60, tm_hour = rem div 3600,
      tm_mday = yd - mon_yday (is_leap y) ! m + 1, tm_mon = int m, tm_year = y - 1900,
      tm_wday = (4 + secs div 86400) mod 7, tm_yday = yd, tm_isdst = 0\<rparr>"
    by (simp add: breakdown_def Let_def n_def y_def yd_def m_def rem_def)
  have hms: "rem div 3600 * 3600 + rem mod 3600 div 60 * 60 + rem mod 60 = rem"
  proof -
    have "rem mod 3600 div 60 * 60 + rem mod 3600 mod 60 = rem mod 3600"
      by (rule div_mult_mod_eq)
    moreover have "rem mod 3600 mod 60 = rem mod 60"
      by (simp add: mod_mod_cancel)
    moreover have "rem div 3600 * 3600 + rem mod 3600 = rem"
      by (rule div_mult_mod_eq)
    ultimately show ?thesis by linarith
  qed
  have "(days_upto y - epoch_days + yd) * 86400 + rem = secs"
    using div_mult_mod_eq [of secs 86400] by (simp add: yd_def n_def rem_def)
  then show ?thesis
    using hms by (simp add: bd tm_seconds_def Let_def mon algebra_simps)
qed

text \<open>On a normal structure in range, \<open>mktime\<close> returns its count and leaves its fields.\<close>

lemma mktime_normal:
  assumes "tm_normal t" "in_int (tm_year t)" "LONG_MIN \<le> tm_seconds t - tz" "tm_seconds t - tz \<le> LONG_MAX"
  shows "mktime tz t = (tm_seconds t - tz, breakdown (tm_seconds t))"
proof -
  have "tm_year (breakdown (tm_seconds t)) = tm_year t"
    using breakdown_tm_seconds [OF assms(1)] by (simp add: tm_fields_def)
  with assms show ?thesis by (simp add: mktime_def Let_def)
qed

text \<open>Counts within about 69000 years of the epoch break down to years that fit an \<open>int\<close>.\<close>

lemma breakdown_year_bounds:
  assumes "\<bar>secs\<bar> \<le> 2 ^ 41"
  shows "- 100000 \<le> tm_year (breakdown secs) + 1900 \<and> tm_year (breakdown secs) + 1900 \<le> 100000"
proof -
  define y where "y = tm_year (breakdown secs) + 1900"
  have w: "86400 * (days_upto y - epoch_days) \<le> secs" "secs < 86400 * (days_upto (y + 1) - epoch_days)"
    using tm_seconds_within_year [OF breakdown_normal [of secs]] by (simp_all add: tm_seconds_breakdown y_def)
  have hi: "days_upto 100001 = 36524616" and lo: "days_upto (- 100000) = - 36524250"
    by (simp_all add: days_upto_def leaps_def)
  have "y \<le> 100000"
  proof (rule ccontr)
    assume "\<not> y \<le> 100000"
    then have "days_upto 100001 \<le> days_upto y" by simp
    with w(1) assms show False unfolding hi epoch_days_val by simp
  qed
  moreover have "- 100000 \<le> y"
  proof (rule ccontr)
    assume "\<not> - 100000 \<le> y"
    then have "days_upto (y + 1) \<le> days_upto (- 100000)" by simp
    with w(2) assms show False unfolding lo epoch_days_val by simp
  qed
  ultimately show ?thesis by (simp add: y_def)
qed

lemma month_length_ge_28: "m < 12 \<Longrightarrow> 28 \<le> month_length leap m"
  by (auto simp: month_length_def mon_yday_def less_Suc_eq numeral_eq_Suc)

text \<open>When \<open>mktime\<close> does not report \<open>-1\<close>, it leaves the breakdown of its count, whose year fits an \<open>int\<close>.\<close>

lemma mktime_success:
  assumes "fst (mktime tz t) \<noteq> -1"
  shows "mktime tz t = (tm_seconds t - tz, breakdown (tm_seconds t)) \<and> in_int (tm_year (breakdown (tm_seconds t)))"
  using assms by (simp add: mktime_def Let_def split: if_splits)

lemma normal_in_int:
  assumes "tm_normal t"
  shows "in_int (tm_mon t) \<and> in_int (tm_mday t) \<and> in_int (tm_hour t) \<and> in_int (tm_min t) \<and> in_int (tm_sec t)"
proof -
  have "tm_mday t \<le> 31"
    using assms month_length_le_31 [of "nat (tm_mon t)" "is_leap (tm_year t + 1900)"]
    by (simp add: tm_normal_def nat_less_iff)
  then show ?thesis using assms by (simp add: tm_normal_def in_int_iff)
qed

text \<open>Only a wall time in 1969 or 1970 can denote the second before the epoch in a zone within a day of UTC.\<close>

lemma tm_seconds_not_epoch_minus_one:
  assumes "tm_normal t" "tm_year t + 1900 \<noteq> 1969" "tm_year t + 1900 \<noteq> 1970" "\<bar>tz\<bar> < 86400"
  shows "tm_seconds t \<noteq> tz - 1"
proof -
  define y where "y = tm_year t + 1900"
  have w: "86400 * (days_upto y - epoch_days) \<le> tm_seconds t" "tm_seconds t < 86400 * (days_upto (y + 1) - epoch_days)"
    using tm_seconds_within_year [OF assms(1)] by (simp_all add: y_def)
  have d: "days_upto 1969 = 719163" "days_upto 1971 = 719893"
    by (simp_all add: days_upto_def leaps_def)
  consider "1971 \<le> y" | "y + 1 \<le> 1969" using assms(2,3) by (fastforce simp: y_def)
  then show ?thesis
  proof cases
    case 1
    then have "days_upto 1971 \<le> days_upto y" by simp
    with w(1) assms(4) show ?thesis unfolding d epoch_days_val by simp
  next
    case 2
    then have "days_upto (y + 1) \<le> days_upto 1969" by (simp only: days_upto_le_iff)
    with w(2) assms(4) show ?thesis unfolding d epoch_days_val by simp
  qed
qed

section \<open>Properties of the calendar conversions\<close>

text \<open>
  C13. \<open>localtime\<close> always produces a normalised broken-down time: every field
  is in its range and the day exists in its month.
\<close>

theorem localtime_normal: "tm_normal (localtime tz t)"
  by (simp add: localtime_def breakdown_normal)

text \<open>
  C11. \<open>mktime\<close> normalises: whenever it does not report \<open>-1\<close>, the
  structure it leaves is normalised and denotes the instant it returns.
\<close>

theorem mktime_normalises:
  assumes "fst (mktime tz t) \<noteq> -1"
  shows "tm_normal (snd (mktime tz t)) \<and> tm_seconds (snd (mktime tz t)) = fst (mktime tz t) + tz"
proof (cases "tm_seconds t - tz < LONG_MIN \<or> LONG_MAX < tm_seconds t - tz \<or> \<not> in_int (tm_year (breakdown (tm_seconds t)))")
  case True
  with assms show ?thesis by (simp add: mktime_def Let_def)
next
  case False
  then show ?thesis
    by (simp add: mktime_def Let_def breakdown_normal tm_seconds_breakdown)
qed

theorem mktime_normalises_witness:
  "fst (mktime 0 (breakdown 0\<lparr>tm_mon := 13\<rparr>)) \<noteq> -1 \<and>
   tm_normal (snd (mktime 0 (breakdown 0\<lparr>tm_mon := 13\<rparr>))) \<and>
   tm_seconds (snd (mktime 0 (breakdown 0\<lparr>tm_mon := 13\<rparr>))) = fst (mktime 0 (breakdown 0\<lparr>tm_mon := 13\<rparr>)) + 0"
proof -
  have h: "fst (mktime 0 (breakdown 0\<lparr>tm_mon := 13\<rparr>)) \<noteq> -1"
    by code_simp
  show ?thesis using h mktime_normalises [OF h] by simp
qed

text \<open>
  C12. \<open>mktime\<close> leaves a normalised structure alone: on a broken-down time
  whose fields are in range (and whose count fits \<open>time_t\<close>) it returns that
  count and keeps every field.
\<close>

theorem mktime_keeps_normal:
  assumes "tm_normal t" "in_int (tm_year t)" "LONG_MIN \<le> tm_seconds t - tz" "tm_seconds t - tz \<le> LONG_MAX"
  shows "fst (mktime tz t) = tm_seconds t - tz \<and> tm_fields (snd (mktime tz t)) = tm_fields t"
  using mktime_normal [OF assms] breakdown_tm_seconds [OF assms(1)] by simp

theorem mktime_keeps_normal_witness:
  "tm_normal (breakdown 86399) \<and> in_int (tm_year (breakdown 86399)) \<and>
   LONG_MIN \<le> tm_seconds (breakdown 86399) - 3600 \<and> tm_seconds (breakdown 86399) - 3600 \<le> LONG_MAX \<and>
   fst (mktime 3600 (breakdown 86399)) = 82799 \<and>
   tm_fields (snd (mktime 3600 (breakdown 86399))) = tm_fields (breakdown 86399)"
proof -
  have n: "tm_normal (breakdown 86399)" by (rule breakdown_normal)
  have s: "tm_seconds (breakdown 86399) = 86399" by (rule tm_seconds_breakdown)
  have y: "in_int (tm_year (breakdown 86399))" by code_simp
  have b: "LONG_MIN \<le> tm_seconds (breakdown 86399) - 3600" "tm_seconds (breakdown 86399) - 3600 \<le> LONG_MAX"
    by (simp_all add: s LONG_MIN_def LONG_MAX_def)
  show ?thesis using mktime_keeps_normal [OF n y b] n y b s by simp
qed

text \<open>
  C3. \<open>mktime\<close> inverts \<open>localtime\<close>: for any instant within about
  35000 years of the epoch and any zone offset below a day, converting the local
  broken-down time back gives the instant and the same structure.
\<close>

theorem mktime_localtime:
  assumes "\<bar>t\<bar> \<le> 2 ^ 40" "\<bar>tz\<bar> < 86400"
  shows "mktime tz (localtime tz t) = (t, localtime tz t)"
proof -
  have s: "tm_seconds (localtime tz t) = t + tz"
    by (simp add: localtime_def tm_seconds_breakdown)
  have "\<bar>t + tz\<bar> \<le> 2 ^ 41" using assms by simp
  then have "in_int (tm_year (breakdown (t + tz)))"
    using breakdown_year_bounds [of "t + tz"] by (simp add: in_int_iff)
  with assms show ?thesis
    by (simp add: mktime_def Let_def localtime_def tm_seconds_breakdown LONG_MIN_def LONG_MAX_def abs_le_iff)
qed

theorem mktime_localtime_witness:
  "\<bar>1420070400 :: int\<bar> \<le> 2 ^ 40 \<and> \<bar>3600 :: int\<bar> < 86400 \<and>
   mktime 3600 (localtime 3600 1420070400) = (1420070400, localtime 3600 1420070400)"
  using mktime_localtime [of 1420070400 3600] by simp

end
