(* ===== verification/Datetime.thy ===== *)
theory Datetime
  imports Exception Scanf Calendar
begin

text \<open>
  \<open>mysqlpp::datetime\<close> (src/mysqlpp.hpp, lines 47-117): the six calendar
  fields of MySQL's \<open>st_mysql_time\<close> (all \<open>unsigned int\<close>), filled from a
  C \<open>struct tm\<close> by \<open>set_time\<close>, converted back by \<open>c_tm\<close>, rendered by
  \<open>str\<close> with \<open>strftime\<close>, and built either from the current time or from a
  text by \<open>sscanf\<close> followed by \<open>mktime\<close>. The other members of
  \<open>st_mysql_time\<close> (\<open>second_part\<close>, \<open>neg\<close>, \<open>time_type\<close>) are never
  written by this code and are not modelled. A local \<open>std::tm\<close> that the
  code declares without initialising is the parameter \<open>junk\<close>: its fields
  are whatever the stack held.
\<close>

record datetime =
  year :: uint32
  month :: uint32
  day :: uint32
  hour :: uint32
  minute :: uint32
  second :: uint32

subsection \<open>Conversions between \<open>datetime\<close> and \<open>struct tm\<close>\<close>

text \<open>\<open>set_time\<close> (lines 83-91): every field cast to \<open>unsigned int\<close>, year and month shifted.\<close>

definition set_time :: "tm \<Rightarrow> datetime" where
  "set_time t =
     \<lparr>year = word_of_int (tm_year t) + 1900, month = word_of_int (tm_mon t) + 1,
      day = word_of_int (tm_mday t), hour = word_of_int (tm_hour t),
      minute = word_of_int (tm_min t), second = word_of_int (tm_sec t)\<rparr>"

text \<open>\<open>c_tm\<close> (lines 93-106): every field cast to \<open>int\<close>; \<open>tm_wday\<close> and \<open>tm_yday\<close> keep the junk of the uninitialised local.\<close>

definition c_tm :: "tm \<Rightarrow> datetime \<Rightarrow> tm" where
  "c_tm junk dt =
     junk\<lparr>tm_year := wrap_int (sint (year dt) - 1900), tm_mon := wrap_int (sint (month dt) - 1),
          tm_mday := sint (day dt), tm_hour := sint (hour dt), tm_min := sint (minute dt),
          tm_sec := sint (second dt), tm_isdst := -1\<rparr>"

text \<open>
  A number as glibc's \<open>strftime\<close> prints a numeric field: the sign, then zeros
  up to the field's width (which counts the sign), then the digits.
\<close>

definition strftime_num :: "nat \<Rightarrow> int \<Rightarrow> string" where
  "strftime_num w v =
     (let ds = dec_nat (nat \<bar>v\<bar>); sg = (if v < 0 then ''-'' else '''')
      in sg @ replicate (w - length ds - length sg) CHR ''0'' @ ds)"

text \<open>The text of the format \<open>"%Y-%m-%d %H:%M:%S"\<close> for the six numbers it prints.\<close>

definition strftime_fields :: "int \<Rightarrow> int \<Rightarrow> int \<Rightarrow> int \<Rightarrow> int \<Rightarrow> int \<Rightarrow> string" where
  "strftime_fields y mo d h mi s =
     strftime_num 4 y @ ''-'' @ strftime_num 2 mo @ ''-'' @ strftime_num 2 d @ '' '' @
     strftime_num 2 h @ '':'' @ strftime_num 2 mi @ '':'' @ strftime_num 2 s"

text \<open>
  \<open>strftime(buf, 32, "%Y-%m-%d %H:%M:%S", &time)\<close>: the text, or \<open>None\<close>
  when it does not fit the 32 bytes with its terminator, in which case
  \<open>strftime\<close> returns 0 and leaves the buffer's contents unspecified.
\<close>

definition strftime_datetime :: "tm \<Rightarrow> string option" where
  "strftime_datetime t =
     (let s = strftime_fields (tm_year t + 1900) (wrap_int (tm_mon t + 1)) (tm_mday t) (tm_hour t)
                (tm_min t) (tm_sec t)
      in if length s < 32 then Some s else None)"

text \<open>\<open>str\<close> (lines 108-116).\<close>

definition datetime_str :: "tm \<Rightarrow> datetime \<Rightarrow> string option" where
  "datetime_str junk dt = strftime_datetime (c_tm junk dt)"

subsection \<open>Constructors\<close>

text \<open>\<open>datetime()\<close> (lines 49-55): \<open>localtime(time(0))\<close>, with the current time \<open>now\<close>.\<close>

definition datetime_now :: "int \<Rightarrow> int \<Rightarrow> datetime" where
  "datetime_now tz now = set_time (localtime tz now)"

text \<open>
  The values \<open>sscanf\<close> assigned, stored in order into \<open>tm_year\<close>,
  \<open>tm_mon\<close>, \<open>tm_mday\<close>, \<open>tm_hour\<close>, \<open>tm_min\<close>, \<open>tm_sec\<close>; the fields it
  did not reach keep what the structure held.
\<close>

definition scan_store :: "tm \<Rightarrow> int list \<Rightarrow> tm" where
  "scan_store t vs =
     (let v = (\<lambda>i d. if i < length vs then vs ! i else d)
      in t\<lparr>tm_year := v 0 (tm_year t), tm_mon := v 1 (tm_mon t), tm_mday := v 2 (tm_mday t),
           tm_hour := v 3 (tm_hour t), tm_min := v 4 (tm_min t), tm_sec := v 5 (tm_sec t)\<rparr>)"

definition cast_failed :: "int \<Rightarrow> error" where
  "cast_failed line = Raised (exception_new mysqlpp_hpp line ''datetime cast failed'')"

text \<open>Lines 71-73: the scanned fields shifted to \<open>struct tm\<close>'s origins, daylight saving time left to \<open>mktime\<close>.\<close>

definition prep_tm :: "tm \<Rightarrow> int list \<Rightarrow> tm" where
  "prep_tm junk vs =
     (let t0 = scan_store junk vs
      in t0\<lparr>tm_year := wrap_int (tm_year t0 - 1900), tm_mon := wrap_int (tm_mon t0 - 1), tm_isdst := -1\<rparr>)"

text \<open>\<open>datetime(const std::string&)\<close> (lines 57-81), in the zone \<open>tz\<close>.\<close>

definition datetime_of_string :: "int \<Rightarrow> tm \<Rightarrow> string \<Rightarrow> error + datetime" where
  "datetime_of_string tz junk str =
     (if 19 < length str then Inl (cast_failed 61)
      else case sscanf str datetime_format of
        (count, vs) \<Rightarrow>
          if count \<noteq> 3 \<and> count \<noteq> 6 then Inl (cast_failed 68)
          else
            (case mktime tz (prep_tm junk vs) of
               (r, t2) \<Rightarrow> if r = -1 then Inl (cast_failed 77) else Inr (set_time t2)))"

subsection \<open>Calendar fields named by their values\<close>

text \<open>
  The datetime and the broken-down time that a year, month (from 1), day, hour,
  minute and second denote, and when they denote a real calendar instant.
\<close>

definition mk_datetime :: "int \<Rightarrow> int \<Rightarrow> int \<Rightarrow> int \<Rightarrow> int \<Rightarrow> int \<Rightarrow> datetime" where
  "mk_datetime y mo d h mi s =
     \<lparr>year = word_of_int y, month = word_of_int mo, day = word_of_int d, hour = word_of_int h,
      minute = word_of_int mi, second = word_of_int s\<rparr>"

definition civil_tm :: "int \<Rightarrow> int \<Rightarrow> int \<Rightarrow> int \<Rightarrow> int \<Rightarrow> int \<Rightarrow> tm" where
  "civil_tm y mo d h mi s =
     \<lparr>tm_sec = s, tm_min = mi, tm_hour = h, tm_mday = d, tm_mon = mo - 1, tm_year = y - 1900,
      tm_wday = 0, tm_yday = 0, tm_isdst = -1\<rparr>"

definition civil_valid :: "int \<Rightarrow> int \<Rightarrow> int \<Rightarrow> int \<Rightarrow> int \<Rightarrow> int \<Rightarrow> bool" where
  "civil_valid y mo d h mi s \<longleftrightarrow>
     1 \<le> mo \<and> mo \<le> 12 \<and> 1 \<le> d \<and> d \<le> month_length (is_leap y) (nat (mo - 1)) \<and>
     0 \<le> h \<and> h < 24 \<and> 0 \<le> mi \<and> mi < 60 \<and> 0 \<le> s \<and> s < 60"

subsection \<open>Rendering and scanning numbers\<close>

lemma strftime_num_nonneg:
  "0 \<le> v \<Longrightarrow> strftime_num w v = replicate (w - length (dec_nat (nat v))) CHR ''0'' @ dec_nat (nat v)"
  by (simp add: strftime_num_def Let_def)

lemma strftime_num_digits: "0 \<le> v \<Longrightarrow> list_all is_digit (strftime_num w v)"
  by (auto simp: strftime_num_nonneg list_all_iff dec_nat_digits)

lemma strftime_num_not_Nil [simp]: "strftime_num w v \<noteq> []"
  by (simp add: strftime_num_def Let_def)

lemma length_strftime_num: "0 \<le> v \<Longrightarrow> v < 10 ^ w \<Longrightarrow> 0 < w \<Longrightarrow> length (strftime_num w v) = w"
proof -
  assume a: "0 \<le> v" "v < 10 ^ w" "0 < w"
  then have "nat v < 10 ^ w" by (simp add: nat_less_iff)
  then have "length (dec_nat (nat v)) \<le> w" using a(3) by (rule length_dec_nat_le)
  then show ?thesis using a(1) by (simp add: strftime_num_nonneg)
qed

lemma read_nat_strftime_num: "0 \<le> v \<Longrightarrow> int (read_nat (strftime_num w v)) = v"
  by (simp add: strftime_num_nonneg)

lemma scan_int_strftime_num:
  "0 \<le> v \<Longrightarrow> in_int v \<Longrightarrow> rest = [] \<or> \<not> is_digit (hd rest) \<Longrightarrow>
    scan_int (strftime_num w v @ rest) = Inr (v, rest)"
  using scan_int_digits [of "strftime_num w v" rest]
  by (simp add: strftime_num_digits read_nat_strftime_num)

lemma scan_int_strftime_num_end:
  "0 \<le> v \<Longrightarrow> in_int v \<Longrightarrow> scan_int (strftime_num w v) = Inr (v, [])"
  using scan_int_strftime_num [of v "[]" w] by simp

lemma hd_strftime_num: "0 \<le> v \<Longrightarrow> is_digit (hd (strftime_num w v))"
  using strftime_num_digits [of v w] strftime_num_not_Nil [of w v]
  by (simp add: list_all_iff)

lemma dropWhile_space_strftime_num:
  "0 \<le> v \<Longrightarrow> dropWhile is_space (strftime_num w v @ r) = strftime_num w v @ r"
  using hd_strftime_num [of v w] strftime_num_not_Nil [of w v]
  by (cases "strftime_num w v") simp_all

lemma no_nul_strftime_num: "0 \<le> v \<Longrightarrow> c \<in> set (strftime_num w v) \<Longrightarrow> c \<noteq> CHR 0x00"
  using strftime_num_digits [of v w] by (auto simp: list_all_iff is_digit_def)

lemma sscanf_strftime_fields:
  assumes "0 \<le> y" "in_int y" "0 \<le> mo" "in_int mo" "0 \<le> d" "in_int d"
    "0 \<le> h" "in_int h" "0 \<le> mi" "in_int mi" "0 \<le> s" "in_int s"
  shows "sscanf (strftime_fields y mo d h mi s) datetime_format = (6, [y, mo, d, h, mi, s])"
proof -
  have nn: "takeWhile (\<lambda>c. c \<noteq> CHR 0x00) (strftime_fields y mo d h mi s) = strftime_fields y mo d h mi s"
    using assms by (auto simp: takeWhile_eq_all_conv strftime_fields_def dest: no_nul_strftime_num)
  have "scan_go (parse_format datetime_format) (strftime_fields y mo d h mi s) = ([y, mo, d, h, mi, s], None)"
    using assms
    by (simp add: parse_datetime_format strftime_fields_def scan_int_strftime_num
        scan_int_strftime_num_end dropWhile_space_strftime_num is_digit_def is_space_def)
  then show ?thesis by (simp add: sscanf_def nn)
qed

subsection \<open>\<open>set_time\<close> and \<open>c_tm\<close> are inverse\<close>

lemma set_time_fields: "tm_fields t = tm_fields t' \<Longrightarrow> set_time t = set_time t'"
  by (simp add: tm_fields_def set_time_def)

lemma c_tm_set_time:
  assumes "in_int (tm_year t)" "in_int (tm_mon t)" "in_int (tm_mday t)" "in_int (tm_hour t)"
    "in_int (tm_min t)" "in_int (tm_sec t)"
  shows "tm_fields (c_tm junk (set_time t)) = tm_fields t"
proof -
  have y: "sint (word_of_int (tm_year t) + 1900 :: 32 word) = wrap_int (tm_year t + 1900)"
    by (simp add: wrap_int_sint)
  have m: "sint (word_of_int (tm_mon t) + 1 :: 32 word) = wrap_int (tm_mon t + 1)"
    by (simp add: wrap_int_sint)
  show ?thesis
    using assms by (simp add: tm_fields_def c_tm_def set_time_def y m wrap_int_diff sint_word_of_int_in_int)
qed

subsection \<open>The text constructor on the canonical format\<close>

lemma civil_tm_normal:
  "civil_valid y mo d h mi s \<Longrightarrow> tm_normal (civil_tm y mo d h mi s)"
  by (simp add: civil_valid_def civil_tm_def tm_normal_def)

lemma civil_valid_ranges:
  assumes "civil_valid y mo d h mi s"
  shows "1 \<le> mo \<and> mo \<le> 12 \<and> 1 \<le> d \<and> d \<le> 31 \<and> 0 \<le> h \<and> h < 24 \<and> 0 \<le> mi \<and> mi < 60 \<and> 0 \<le> s \<and> s < 60"
proof -
  have "d \<le> 31"
    using assms month_length_le_31 [of "nat (mo - 1)" "is_leap y"]
    by (simp add: civil_valid_def nat_less_iff)
  then show ?thesis using assms by (simp add: civil_valid_def)
qed

text \<open>Four-digit years keep the count far inside \<open>time_t\<close>.\<close>

lemma civil_seconds_bounds:
  assumes "civil_valid y mo d h mi s" "1000 \<le> y" "y \<le> 9999"
  shows "- (2 ^ 40) \<le> tm_seconds (civil_tm y mo d h mi s) \<and> tm_seconds (civil_tm y mo d h mi s) \<le> 2 ^ 40"
proof -
  have w: "86400 * (days_upto y - epoch_days) \<le> tm_seconds (civil_tm y mo d h mi s)"
      "tm_seconds (civil_tm y mo d h mi s) < 86400 * (days_upto (y + 1) - epoch_days)"
    using tm_seconds_within_year [OF civil_tm_normal [OF assms(1)]] by (simp_all add: civil_tm_def)
  have "days_upto 1000 \<le> days_upto y" "days_upto (y + 1) \<le> days_upto 10000"
    using assms(2,3) by simp_all
  then show ?thesis
    using w unfolding days_upto_1000 days_upto_10000 epoch_days_val by simp
qed

text \<open>
  The constructor on the text of valid fields with a four-digit year: it scans
  the six numbers, \<open>mktime\<close> keeps them, and the call fails only when their
  instant is the second before the epoch, whose count \<open>mktime\<close> returns as
  \<open>-1\<close>.
\<close>

lemma prep_tm_fields:
  "length vs = 6 \<Longrightarrow> in_int (vs ! 0 - 1900) \<Longrightarrow> in_int (vs ! 1 - 1) \<Longrightarrow>
    tm_fields (prep_tm junk vs) = (vs ! 0 - 1900, vs ! 1 - 1, vs ! 2, vs ! 3, vs ! 4, vs ! 5)"
  by (simp add: prep_tm_def scan_store_def tm_fields_def)

text \<open>
  The constructor when the scanned fields denote the same instant as valid
  calendar fields with a four-digit year (they need not be in range themselves:
  \<open>mktime\<close> carries overflowing fields): the result has the valid fields, and
  the call fails only for the second before the epoch, whose count \<open>mktime\<close>
  returns as \<open>-1\<close>.
\<close>

lemma datetime_of_string_instant:
  assumes "length str \<le> 19" "sscanf str datetime_format = (c, vs)" "c = 3 \<or> c = 6"
    "tm_seconds (prep_tm junk vs) = tm_seconds (civil_tm y mo d h mi s)"
    "civil_valid y mo d h mi s" "1000 \<le> y" "y \<le> 9999" "\<bar>tz\<bar> < 86400"
  shows "datetime_of_string tz junk str =
    (if tm_seconds (civil_tm y mo d h mi s) = tz - 1 then Inl (cast_failed 77)
     else Inr (mk_datetime y mo d h mi s))"
proof -
  define S where "S = tm_seconds (civil_tm y mo d h mi s)"
  have fb: "tm_fields (breakdown S) = tm_fields (civil_tm y mo d h mi s)"
    unfolding S_def by (rule breakdown_tm_seconds [OF civil_tm_normal [OF assms(5)]])
  then have yr: "in_int (tm_year (breakdown S))"
    using assms(6,7) by (simp add: tm_fields_def civil_tm_def in_int_iff)
  have b: "- (2 ^ 40) \<le> S" "S \<le> 2 ^ 40"
    using civil_seconds_bounds [OF assms(5-7)] by (simp_all add: S_def)
  have mk: "mktime tz (prep_tm junk vs) = (S - tz, breakdown S)"
    using yr b assms(8) by (simp add: mktime_def Let_def assms(4) S_def [symmetric] LONG_MIN_def LONG_MAX_def abs_less_iff)
  have st: "set_time (breakdown S) = mk_datetime y mo d h mi s"
    using set_time_fields [OF fb] by (simp add: set_time_def mk_datetime_def civil_tm_def)
  show ?thesis
    using assms(1-3) by (cases "c = 3") (simp_all add: datetime_of_string_def mk st S_def [symmetric])
qed

lemma datetime_of_string_civil:
  assumes "length str \<le> 19" "sscanf str datetime_format = (c, vs)" "c = 3 \<or> c = 6"
    "tm_fields (prep_tm junk vs) = tm_fields (civil_tm y mo d h mi s)"
    "civil_valid y mo d h mi s" "1000 \<le> y" "y \<le> 9999" "\<bar>tz\<bar> < 86400"
  shows "datetime_of_string tz junk str =
    (if tm_seconds (civil_tm y mo d h mi s) = tz - 1 then Inl (cast_failed 77)
     else Inr (mk_datetime y mo d h mi s))"
  using tm_fields_cong(1) [OF assms(4)] by (intro datetime_of_string_instant [OF assms(1-3) _ assms(5-8)])

lemma length_strftime_fields:
  "civil_valid y mo d h mi s \<Longrightarrow> 1000 \<le> y \<Longrightarrow> y \<le> 9999 \<Longrightarrow> length (strftime_fields y mo d h mi s) = 19"
  using civil_valid_ranges [of y mo d h mi s] by (simp add: strftime_fields_def length_strftime_num)

text \<open>The constructor on the full text of valid fields with a four-digit year.\<close>

lemma datetime_of_string_fields:
  assumes "civil_valid y mo d h mi s" "1000 \<le> y" "y \<le> 9999" "\<bar>tz\<bar> < 86400"
  shows "datetime_of_string tz junk (strftime_fields y mo d h mi s) =
    (if tm_seconds (civil_tm y mo d h mi s) = tz - 1 then Inl (cast_failed 77)
     else Inr (mk_datetime y mo d h mi s))"
proof -
  note r = civil_valid_ranges [OF assms(1)]
  have sc: "sscanf (strftime_fields y mo d h mi s) datetime_format = (6, [y, mo, d, h, mi, s])"
    using r assms(2,3) by (intro sscanf_strftime_fields) (simp_all add: in_int_iff)
  have "tm_fields (prep_tm junk [y, mo, d, h, mi, s]) = tm_fields (civil_tm y mo d h mi s)"
    using r assms(2,3) by (simp add: prep_tm_fields in_int_iff, simp add: tm_fields_def civil_tm_def)
  then show ?thesis
    using assms length_strftime_fields [OF assms(1-3)]
    by (intro datetime_of_string_civil [OF _ sc]) simp_all
qed

lemma datetime_str_mk_datetime:
  assumes "civil_valid y mo d h mi s" "1000 \<le> y" "y \<le> 9999"
  shows "datetime_str junk (mk_datetime y mo d h mi s) = Some (strftime_fields y mo d h mi s)"
proof -
  note r = civil_valid_ranges [OF assms(1)]
  have len: "length (strftime_fields y mo d h mi s) = 19"
    using r assms(2,3) by (simp add: strftime_fields_def length_strftime_num)
  have "tm_fields (c_tm junk (mk_datetime y mo d h mi s)) = (y - 1900, mo - 1, d, h, mi, s)"
    using r assms(2,3)
    by (simp add: tm_fields_def c_tm_def mk_datetime_def sint_word_of_int_in_int in_int_iff)
  then show ?thesis
    using len r by (simp add: datetime_str_def strftime_datetime_def tm_fields_def in_int_iff)
qed

text \<open>The date-only text, read by the first three conversions.\<close>

definition date_text :: "int \<Rightarrow> int \<Rightarrow> int \<Rightarrow> string" where
  "date_text y mo d = strftime_num 4 y @ ''-'' @ strftime_num 2 mo @ ''-'' @ strftime_num 2 d"

lemma sscanf_date_text:
  assumes "0 \<le> y" "in_int y" "0 \<le> mo" "in_int mo" "0 \<le> d" "in_int d"
  shows "sscanf (date_text y mo d) datetime_format = (3, [y, mo, d])"
proof -
  have nn: "takeWhile (\<lambda>c. c \<noteq> CHR 0x00) (date_text y mo d) = date_text y mo d"
    using assms by (auto simp: takeWhile_eq_all_conv date_text_def dest: no_nul_strftime_num)
  have e: "scan_int [] = Inl Input_failure" by (simp add: scan_int_def)
  have "scan_go (parse_format datetime_format) (date_text y mo d) = ([y, mo, d], Some Input_failure)"
    using assms
    by (simp add: parse_datetime_format date_text_def scan_int_strftime_num
        scan_int_strftime_num_end is_digit_def is_space_def e)
  then show ?thesis by (simp add: sscanf_def nn)
qed

lemma prep_tm_fields3:
  "in_int (y - 1900) \<Longrightarrow> in_int (mo - 1) \<Longrightarrow>
    tm_fields (prep_tm junk [y, mo, d]) = (y - 1900, mo - 1, d, tm_hour junk, tm_min junk, tm_sec junk)"
  by (simp add: prep_tm_def scan_store_def tm_fields_def)

text \<open>A field of a normal structure takes at most eleven characters, the year with its sign.\<close>

lemma length_strftime_num_le:
  assumes "\<bar>v\<bar> < 10 ^ k" "0 < k"
  shows "length (strftime_num w v) \<le> max w (Suc k)"
proof -
  have "nat \<bar>v\<bar> < 10 ^ k" using assms(1) by (simp add: nat_less_iff)
  then have "length (dec_nat (nat \<bar>v\<bar>)) \<le> k" using assms(2) by (rule length_dec_nat_le)
  then show ?thesis by (cases "v < 0") (simp_all add: strftime_num_def Let_def)
qed

lemma strftime_datetime_normal:
  assumes "tm_normal t" "in_int (tm_year t)"
  shows "\<exists>txt. strftime_datetime t = Some txt \<and> length txt \<le> 26"
proof -
  have y: "\<bar>tm_year t + 1900\<bar> < 10 ^ 10" using assms(2) by (simp add: in_int_iff abs_less_iff)
  have r: "0 \<le> tm_mon t" "tm_mon t < 12" "1 \<le> tm_mday t" "tm_mday t \<le> 31" "0 \<le> tm_hour t" "tm_hour t < 24"
    "0 \<le> tm_min t" "tm_min t < 60" "0 \<le> tm_sec t" "tm_sec t < 60"
    using assms(1) month_length_le_31 [of "nat (tm_mon t)" "is_leap (tm_year t + 1900)"]
    by (simp_all add: tm_normal_def nat_less_iff)
  have "length (strftime_num 4 (tm_year t + 1900)) \<le> 11"
    using length_strftime_num_le [of "tm_year t + 1900" 10 4] y by simp
  then have "length (strftime_fields (tm_year t + 1900) (wrap_int (tm_mon t + 1)) (tm_mday t) (tm_hour t)
      (tm_min t) (tm_sec t)) \<le> 26"
    using r by (simp add: strftime_fields_def length_strftime_num in_int_iff)
  then show ?thesis by (simp add: strftime_datetime_def)
qed

text \<open>A date followed by text that no conversion can start on is read as the date alone.\<close>

lemma takeWhile_strftime_num:
  "0 \<le> v \<Longrightarrow> takeWhile (\<lambda>c. c \<noteq> CHR 0x00) (strftime_num w v @ r) =
    strftime_num w v @ takeWhile (\<lambda>c. c \<noteq> CHR 0x00) r"
  by (rule takeWhile_append2) (auto dest: no_nul_strftime_num)

lemma sscanf_date_suffix:
  assumes "0 \<le> y" "in_int y" "0 \<le> mo" "in_int mo" "0 \<le> d" "in_int d"
    "rest \<noteq> []" "\<not> is_digit (hd rest)" "\<not> is_space (hd rest)" "hd rest \<notin> {CHR ''-'', CHR ''+'', CHR 0x00}"
  shows "sscanf (date_text y mo d @ rest) datetime_format = (3, [y, mo, d])"
proof -
  obtain c r where cr: "rest = c # r" using assms(7) by (cases rest) auto
  have nn: "takeWhile (\<lambda>c. c \<noteq> CHR 0x00) (date_text y mo d @ rest) = date_text y mo d @ takeWhile (\<lambda>c. c \<noteq> CHR 0x00) rest"
    using assms(1-6) by (simp add: date_text_def takeWhile_strftime_num)
  have m: "scan_int (c # takeWhile (\<lambda>c. c \<noteq> CHR 0x00) r) = Inl Matching_failure"
    using assms(8-10) by (simp add: scan_int_def cr)
  have "scan_go (parse_format datetime_format) (date_text y mo d @ c # takeWhile (\<lambda>c. c \<noteq> CHR 0x00) r) =
      ([y, mo, d], Some Matching_failure)"
    using assms(1-6,8,9) m
    by (simp add: parse_datetime_format date_text_def scan_int_strftime_num cr is_digit_def del: takeWhile.simps)
  moreover have "takeWhile (\<lambda>c. c \<noteq> CHR 0x00) (date_text y mo d @ rest) =
      date_text y mo d @ c # takeWhile (\<lambda>c. c \<noteq> CHR 0x00) r"
    using nn assms(10) cr by simp
  ultimately show ?thesis unfolding sscanf_def by simp
qed

lemma sscanf_date_hour_minute:
  assumes "0 \<le> y" "in_int y" "0 \<le> mo" "in_int mo" "0 \<le> d" "in_int d" "0 \<le> h" "in_int h" "0 \<le> mi" "in_int mi"
  shows "sscanf (date_text y mo d @ '' '' @ strftime_num 2 h @ '':'' @ strftime_num 2 mi) datetime_format = (5, [y, mo, d, h, mi])"
proof -
  have nn: "takeWhile (\<lambda>c. c \<noteq> CHR 0x00) (date_text y mo d @ '' '' @ strftime_num 2 h @ '':'' @ strftime_num 2 mi) =
      date_text y mo d @ '' '' @ strftime_num 2 h @ '':'' @ strftime_num 2 mi"
    using assms by (auto simp: takeWhile_eq_all_conv date_text_def dest: no_nul_strftime_num)
  have "scan_go (parse_format datetime_format) (date_text y mo d @ '' '' @ strftime_num 2 h @ '':'' @ strftime_num 2 mi) =
      ([y, mo, d, h, mi], Some Input_failure)"
    using assms
    by (simp add: parse_datetime_format date_text_def scan_int_strftime_num scan_int_strftime_num_end
        dropWhile_space_strftime_num is_digit_def is_space_def)
  then show ?thesis unfolding sscanf_def nn by simp
qed

lemma length_date_text:
  "1000 \<le> y \<Longrightarrow> y \<le> 9999 \<Longrightarrow> 0 \<le> mo \<Longrightarrow> mo < 100 \<Longrightarrow> 0 \<le> d \<Longrightarrow> d < 100 \<Longrightarrow>
    length (date_text y mo d) = 10"
  by (simp add: date_text_def length_strftime_num)

text \<open>Moving a day past the end of its month into the next month keeps the instant.\<close>

lemma civil_seconds_next_month:
  assumes "1 \<le> mo" "mo < 12"
  shows "tm_seconds (civil_tm y mo d h mi s) =
    tm_seconds (civil_tm y (mo + 1) (d - month_length (is_leap y) (nat (mo - 1))) h mi s)"
proof -
  have a: "(mo - 1) div 12 = 0" "mo div 12 = 0" "(mo - 1) mod 12 = mo - 1" "mo mod 12 = mo"
    using assms by simp_all
  have "nat mo = Suc (nat (mo - 1))" using assms by simp
  then show ?thesis by (simp add: tm_seconds_def civil_tm_def a month_length_def)
qed

text \<open>A normal broken-down time is the civil time of its own fields.\<close>

lemma normal_civil:
  assumes "tm_normal t"
  shows "civil_valid (tm_year t + 1900) (tm_mon t + 1) (tm_mday t) (tm_hour t) (tm_min t) (tm_sec t) \<and>
    tm_fields (civil_tm (tm_year t + 1900) (tm_mon t + 1) (tm_mday t) (tm_hour t) (tm_min t) (tm_sec t)) = tm_fields t"
  using assms by (simp add: tm_normal_def civil_valid_def civil_tm_def tm_fields_def)

lemma set_time_mk_datetime:
  "set_time t = mk_datetime (tm_year t + 1900) (tm_mon t + 1) (tm_mday t) (tm_hour t) (tm_min t) (tm_sec t)"
  by (simp add: set_time_def mk_datetime_def)

text \<open>\<open>set_time\<close> of a normal structure whose year fits an \<open>int\<close>: \<open>c_tm\<close> gives its fields back and \<open>str()\<close> prints it.\<close>

lemma set_time_normal:
  assumes "tm_normal t" "in_int (tm_year t)"
  shows "tm_fields (c_tm junk (set_time t)) = tm_fields t \<and> tm_normal (c_tm junk (set_time t)) \<and>
    (\<exists>txt. datetime_str junk (set_time t) = Some txt \<and> length txt \<le> 26)"
proof -
  have f: "tm_fields (c_tm junk (set_time t)) = tm_fields t"
    using normal_in_int [OF assms(1)] assms(2) by (simp add: c_tm_set_time)
  have n: "tm_normal (c_tm junk (set_time t))" using tm_fields_cong(2) [OF f] assms(1) by simp
  have "in_int (tm_year (c_tm junk (set_time t)))" using f assms(2) by (simp add: tm_fields_def)
  then show ?thesis using strftime_datetime_normal [OF n] f n by (simp add: datetime_str_def)
qed

lemma set_time_str_roundtrip:
  assumes n: "tm_normal t" and y: "1000 \<le> tm_year t + 1900" "tm_year t + 1900 \<le> 9999"
    and tz: "\<bar>tz\<bar> < 86400" and ne: "tm_seconds t \<noteq> tz - 1"
  shows "\<exists>txt. datetime_str junk (set_time t) = Some txt \<and> datetime_of_string tz junk' txt = Inr (set_time t)"
proof -
  note c = normal_civil [OF n]
  define yy where "yy = tm_year t + 1900"
  have dn: "set_time t = mk_datetime yy (tm_mon t + 1) (tm_mday t) (tm_hour t) (tm_min t) (tm_sec t)"
    by (simp add: set_time_mk_datetime yy_def)
  have v: "civil_valid yy (tm_mon t + 1) (tm_mday t) (tm_hour t) (tm_min t) (tm_sec t)" using c by (simp add: yy_def)
  have yr: "1000 \<le> yy" "yy \<le> 9999" using y by (simp_all add: yy_def)
  have "tm_seconds (civil_tm yy (tm_mon t + 1) (tm_mday t) (tm_hour t) (tm_min t) (tm_sec t)) = tm_seconds t"
    using tm_fields_cong(1) [OF conjunct2 [OF c]] by (simp add: yy_def)
  with ne have ne': "tm_seconds (civil_tm yy (tm_mon t + 1) (tm_mday t) (tm_hour t) (tm_min t) (tm_sec t)) \<noteq> tz - 1"
    by simp
  show ?thesis
    using datetime_str_mk_datetime [OF v yr, of junk] datetime_of_string_fields [OF v yr tz, of junk'] ne' dn
    by simp
qed

lemma datetime_of_string_Inr:
  assumes "datetime_of_string tz junk str = Inr dt"
  obtains vs where "length str \<le> 19" "fst (sscanf str datetime_format) \<in> {3, 6}"
    "snd (sscanf str datetime_format) = vs" "fst (mktime tz (prep_tm junk vs)) \<noteq> -1"
    "dt = set_time (breakdown (tm_seconds (prep_tm junk vs)))"
    "in_int (tm_year (breakdown (tm_seconds (prep_tm junk vs))))"
proof -
  obtain c vs where sc: "sscanf str datetime_format = (c, vs)" by (cases "sscanf str datetime_format")
  have a: "length str \<le> 19" "c \<in> {3, 6}" "fst (mktime tz (prep_tm junk vs)) \<noteq> -1"
    and dt: "dt = set_time (snd (mktime tz (prep_tm junk vs)))"
    using assms by (auto simp: datetime_of_string_def sc split: if_splits prod.splits)
  note m = mktime_success [OF a(3)]
  show ?thesis using that [of vs] a dt m sc by simp
qed

lemma length_strftime_num_long:
  assumes "10 ^ 4 \<le> v" "v < 10 ^ 10"
  shows "4 < length (strftime_num 4 v) \<and> length (strftime_num 4 v) \<le> 11"
proof -
  have "10 ^ 4 \<le> nat v" using assms(1) by (simp add: le_nat_iff)
  then have "4 < length (dec_nat (nat v))" by (rule length_dec_nat_ge)
  moreover have "length (strftime_num 4 v) \<le> 11" using length_strftime_num_le [of v 10 4] assms by simp
  ultimately show ?thesis using assms(1) by (simp add: strftime_num_def Let_def)
qed

lemma datetime_of_string_feb30:
  "datetime_of_string 0 (breakdown 0) ''2015-02-30 10:00:00'' = Inr (mk_datetime 2015 3 2 10 0 0)"
proof -
  have f: "tm_fields (breakdown 1425290400) = (115, 2, 2, 10, 0, 0)" by code_simp
  have s: "sscanf ''2015-02-30 10:00:00'' datetime_format = (6, [2015, 2, 30, 10, 0, 0])" by code_simp
  have m: "mktime 0 (prep_tm (breakdown 0) [2015, 2, 30, 10, 0, 0]) = (1425290400, breakdown 1425290400)"
    by code_simp
  show ?thesis using f by (simp add: datetime_of_string_def s m set_time_mk_datetime tm_fields_def)
qed

section \<open>Properties of \<open>datetime\<close>\<close>

text \<open>
  C1. Round trip of the text format. For valid calendar fields with a four-digit
  year, the constructor applied to their text \<open>YYYY-MM-DD HH:MM:SS\<close> builds the
  datetime of exactly those fields (no normalisation moves them), and \<open>str()\<close>
  of that datetime gives the same text back; the single exception is the wall
  time of the second before the epoch in the zone, which \<open>mktime\<close> reports as
  \<open>-1\<close>.
\<close>

theorem datetime_of_string_roundtrip:
  assumes "civil_valid y mo d h mi s" "1000 \<le> y" "y \<le> 9999" "\<bar>tz\<bar> < 86400"
    "tm_seconds (civil_tm y mo d h mi s) \<noteq> tz - 1"
  shows "datetime_of_string tz junk (strftime_fields y mo d h mi s) = Inr (mk_datetime y mo d h mi s) \<and>
    datetime_str junk' (mk_datetime y mo d h mi s) = Some (strftime_fields y mo d h mi s)"
  using datetime_of_string_fields [OF assms(1-4)] datetime_str_mk_datetime [OF assms(1-3)] assms(5)
  by simp

theorem datetime_of_string_roundtrip_witness:
  "civil_valid 2016 2 29 12 30 45 \<and> 1000 \<le> (2016 :: int) \<and> (2016 :: int) \<le> 9999 \<and> \<bar>0 :: int\<bar> < 86400 \<and>
   tm_seconds (civil_tm 2016 2 29 12 30 45) \<noteq> 0 - 1 \<and>
   strftime_fields 2016 2 29 12 30 45 = ''2016-02-29 12:30:45'' \<and>
   datetime_of_string 0 (breakdown 0) ''2016-02-29 12:30:45'' = Inr (mk_datetime 2016 2 29 12 30 45) \<and>
   datetime_str (breakdown 0) (mk_datetime 2016 2 29 12 30 45) = Some ''2016-02-29 12:30:45''"
proof -
  have v: "civil_valid 2016 2 29 12 30 45"
    by (simp add: civil_valid_def month_length_def mon_yday_def is_leap_def)
  have t: "tm_seconds (civil_tm 2016 2 29 12 30 45) \<noteq> 0 - 1"
    by (simp add: tm_seconds_def civil_tm_def epoch_days_val days_upto_def leaps_def mon_yday_def is_leap_def)
  have f: "strftime_fields 2016 2 29 12 30 45 = ''2016-02-29 12:30:45''"
    by code_simp
  show ?thesis
    using datetime_of_string_roundtrip [OF v _ _ _ t, of "breakdown 0" "breakdown 0"] v t f by simp
qed

text \<open>
  C2. Whatever text the constructor accepts, the datetime it builds is
  normalised as \<open>c_tm()\<close> reads it back (every field in range, the day in
  its month), and \<open>str()\<close> prints it within the 32-byte buffer.
\<close>

theorem datetime_of_string_result_valid:
  assumes "datetime_of_string tz junk str = Inr dt"
  shows "tm_normal (c_tm junk' dt) \<and> (\<exists>txt. datetime_str junk' dt = Some txt \<and> length txt \<le> 26)"
proof -
  obtain c vs where sc: "sscanf str datetime_format = (c, vs)" by (cases "sscanf str datetime_format")
  have ok: "fst (mktime tz (prep_tm junk vs)) \<noteq> -1" and dt: "dt = set_time (snd (mktime tz (prep_tm junk vs)))"
    using assms by (auto simp: datetime_of_string_def sc split: if_splits prod.splits)
  note m = mktime_success [OF ok]
  have "dt = set_time (breakdown (tm_seconds (prep_tm junk vs)))" using dt m by simp
  then show ?thesis using set_time_normal [OF breakdown_normal, of _ junk'] m by simp
qed

theorem datetime_of_string_result_valid_witness:
  "datetime_of_string 0 (breakdown 0) ''2015-02-30 10:00:00'' = Inr (mk_datetime 2015 3 2 10 0 0) \<and>
   tm_normal (c_tm (breakdown 0) (mk_datetime 2015 3 2 10 0 0)) \<and>
   (\<exists>txt. datetime_str (breakdown 0) (mk_datetime 2015 3 2 10 0 0) = Some txt \<and> length txt \<le> 26)"
proof -
  note e = datetime_of_string_feb30
  show ?thesis using datetime_of_string_result_valid [OF e, of "breakdown 0"] e by simp
qed

text \<open>
  C4. The constructor does not reject a day past the end of its month: it
  lets \<open>mktime\<close> carry the excess into the next month, so that for
  instance \<open>2015-02-30 10:00:00\<close> becomes 2 March 2015, 10:00:00.
\<close>

theorem datetime_of_string_day_overflow:
  assumes "1000 \<le> y" "y \<le> 9999" "y \<noteq> 1969" "y \<noteq> 1970" "1 \<le> mo" "mo < 12"
    "month_length (is_leap y) (nat (mo - 1)) < d" "d \<le> 31"
    "0 \<le> h" "h < 24" "0 \<le> mi" "mi < 60" "0 \<le> s" "s < 60" "\<bar>tz\<bar> < 86400"
  shows "datetime_of_string tz junk (strftime_fields y mo d h mi s) =
    Inr (mk_datetime y (mo + 1) (d - month_length (is_leap y) (nat (mo - 1))) h mi s)"
proof -
  define d' where "d' = d - month_length (is_leap y) (nat (mo - 1))"
  have ml: "28 \<le> month_length (is_leap y) (nat mo)" "month_length (is_leap y) (nat (mo - 1)) \<le> 31"
    "28 \<le> month_length (is_leap y) (nat (mo - 1))"
    using assms(5,6) month_length_ge_28 [of "nat mo"] month_length_le_31 [of "nat (mo - 1)"]
      month_length_ge_28 [of "nat (mo - 1)"]
    by (simp_all add: nat_less_iff)
  have v: "civil_valid y (mo + 1) d' h mi s"
    using assms(5-14) ml by (simp add: civil_valid_def d'_def)
  have sc: "sscanf (strftime_fields y mo d h mi s) datetime_format = (6, [y, mo, d, h, mi, s])"
    using assms(1-14) ml by (intro sscanf_strftime_fields) (simp_all add: in_int_iff)
  have len: "length (strftime_fields y mo d h mi s) \<le> 19"
    using assms(1-14) ml by (simp add: strftime_fields_def length_strftime_num)
  have "tm_fields (prep_tm junk [y, mo, d, h, mi, s]) = (y - 1900, mo - 1, d, h, mi, s)"
    using assms(1,2,5,6) prep_tm_fields [of "[y, mo, d, h, mi, s]" junk] by (simp add: in_int_iff)
  then have pf: "tm_fields (prep_tm junk [y, mo, d, h, mi, s]) = tm_fields (civil_tm y mo d h mi s)"
    by (simp add: tm_fields_def civil_tm_def)
  have sec: "tm_seconds (prep_tm junk [y, mo, d, h, mi, s]) = tm_seconds (civil_tm y (mo + 1) d' h mi s)"
    using civil_seconds_next_month [OF assms(5,6)] tm_fields_cong(1) [OF pf] by (simp add: d'_def)
  have "tm_seconds (civil_tm y (mo + 1) d' h mi s) \<noteq> tz - 1"
    using tm_seconds_not_epoch_minus_one [OF civil_tm_normal [OF v]] assms(3,4,15) by (simp add: civil_tm_def)
  then show ?thesis
    using datetime_of_string_instant [OF len sc _ sec v assms(1,2,15)] by (simp add: d'_def)
qed

theorem datetime_of_string_day_overflow_witness:
  "datetime_of_string 0 (breakdown 0) ''2015-02-30 10:00:00'' = Inr (mk_datetime 2015 3 2 10 0 0)"
proof -
  have t: "strftime_fields 2015 2 30 10 0 0 = ''2015-02-30 10:00:00''" by code_simp
  have m: "month_length (is_leap 2015) (nat (2 - 1)) = 28"
    by (simp add: month_length_def mon_yday_def is_leap_def)
  show ?thesis
    using datetime_of_string_day_overflow [of 2015 2 30 10 0 0 0 "breakdown 0"] t m by simp
qed

text \<open>
  C5. A text with only a date (three conversions, which the constructor
  accepts) takes its hour, minute and second from the uninitialised
  \<open>std::tm\<close> on the stack, here the parameter \<open>junk\<close>.
\<close>

theorem datetime_of_string_date_only:
  assumes "civil_valid y mo d (tm_hour junk) (tm_min junk) (tm_sec junk)" "1000 \<le> y" "y \<le> 9999"
    "y \<noteq> 1969" "y \<noteq> 1970" "\<bar>tz\<bar> < 86400"
  shows "datetime_of_string tz junk (date_text y mo d) =
    Inr (mk_datetime y mo d (tm_hour junk) (tm_min junk) (tm_sec junk))"
proof -
  note r = civil_valid_ranges [OF assms(1)]
  have sc: "sscanf (date_text y mo d) datetime_format = (3, [y, mo, d])"
    using assms(2,3) r by (intro sscanf_date_text) (simp_all add: in_int_iff)
  have len: "length (date_text y mo d) \<le> 19" using assms(2,3) r by (simp add: length_date_text)
  have "tm_fields (prep_tm junk [y, mo, d]) = (y - 1900, mo - 1, d, tm_hour junk, tm_min junk, tm_sec junk)"
    using assms(2,3) r by (intro prep_tm_fields3) (simp_all add: in_int_iff)
  then have "tm_fields (prep_tm junk [y, mo, d]) = tm_fields (civil_tm y mo d (tm_hour junk) (tm_min junk) (tm_sec junk))"
    by (simp add: tm_fields_def civil_tm_def)
  then have sec: "tm_seconds (prep_tm junk [y, mo, d]) = tm_seconds (civil_tm y mo d (tm_hour junk) (tm_min junk) (tm_sec junk))"
    by (rule tm_fields_cong(1))
  have "tm_seconds (civil_tm y mo d (tm_hour junk) (tm_min junk) (tm_sec junk)) \<noteq> tz - 1"
    using tm_seconds_not_epoch_minus_one [OF civil_tm_normal [OF assms(1)]] assms(4-6) by (simp add: civil_tm_def)
  then show ?thesis
    using datetime_of_string_instant [OF len sc _ sec assms(1-3,6)] by simp
qed

theorem datetime_of_string_date_only_witness:
  "datetime_of_string 0 (breakdown 48600) ''2015-01-01'' = Inr (mk_datetime 2015 1 1 13 30 0)"
proof -
  have t: "date_text 2015 1 1 = ''2015-01-01''" by code_simp
  have j: "tm_hour (breakdown 48600) = 13" "tm_min (breakdown 48600) = 30" "tm_sec (breakdown 48600) = 0"
    by code_simp+
  have v: "civil_valid 2015 1 1 13 30 0" by (simp add: civil_valid_def month_length_def mon_yday_def)
  show ?thesis
    using datetime_of_string_date_only [of 2015 1 1 "breakdown 48600" 0] t j v by simp
qed

text \<open>
  C6. In every zone within a day of UTC, the text that \<open>str()\<close> prints
  for the datetime taken at the second before the epoch is rejected by the
  constructor at line 77, because \<open>mktime\<close> returns \<open>-1\<close> for it.
\<close>

theorem datetime_of_string_rejects_epoch_minus_one:
  assumes "\<bar>tz\<bar> < 86400"
  shows "\<exists>txt. datetime_str junk (datetime_now tz (-1)) = Some txt \<and> datetime_of_string tz junk' txt = Inl (cast_failed 77)"
proof -
  define t where "t = localtime tz (-1)"
  have n: "tm_normal t" by (simp add: t_def localtime_def breakdown_normal)
  have sec: "tm_seconds t = tz - 1" by (simp add: t_def localtime_def tm_seconds_breakdown)
  have y: "tm_year t + 1900 = 1969 \<or> tm_year t + 1900 = 1970"
    using tm_seconds_not_epoch_minus_one [OF n _ _ assms] sec by blast
  note nc = normal_civil [OF n]
  have csec: "tm_seconds (civil_tm (tm_year t + 1900) (tm_mon t + 1) (tm_mday t) (tm_hour t) (tm_min t) (tm_sec t)) = tz - 1"
    using tm_fields_cong(1) [OF conjunct2 [OF nc]] sec by simp
  have yb: "1000 \<le> tm_year t + 1900" "tm_year t + 1900 \<le> 9999" using y by auto
  have "datetime_now tz (-1) = mk_datetime (tm_year t + 1900) (tm_mon t + 1) (tm_mday t) (tm_hour t) (tm_min t) (tm_sec t)"
    by (simp add: datetime_now_def t_def set_time_mk_datetime)
  then show ?thesis
    using datetime_str_mk_datetime [OF conjunct1 [OF nc] yb, of junk]
      datetime_of_string_fields [OF conjunct1 [OF nc] yb assms, of junk'] csec by simp
qed

theorem datetime_of_string_rejects_epoch_minus_one_witness:
  "\<bar>0 :: int\<bar> < 86400 \<and> datetime_str (breakdown 0) (datetime_now 0 (-1)) = Some ''1969-12-31 23:59:59'' \<and>
   datetime_of_string 0 (breakdown 0) ''1969-12-31 23:59:59'' = Inl (cast_failed 77)"
proof -
  have s: "datetime_str (breakdown 0) (datetime_now 0 (-1)) = Some ''1969-12-31 23:59:59''" by code_simp
  show ?thesis using datetime_of_string_rejects_epoch_minus_one [of 0 "breakdown 0" "breakdown 0"] s by simp
qed

text \<open>
  C7. Text after the date that no conversion can start on (a letter, a colon,
  anything but a digit, a sign or white space) is ignored: the constructor
  builds the same result as for the date alone.
\<close>

theorem datetime_of_string_ignores_suffix:
  assumes "rest \<noteq> []" "\<not> is_digit (hd rest)" "\<not> is_space (hd rest)" "hd rest \<notin> {CHR ''-'', CHR ''+'', CHR 0x00}"
    "length rest \<le> 9" "1000 \<le> y" "y \<le> 9999" "1 \<le> mo" "mo \<le> 12" "1 \<le> d" "d \<le> 31"
  shows "datetime_of_string tz junk (date_text y mo d @ rest) = datetime_of_string tz junk (date_text y mo d)"
proof -
  have a: "sscanf (date_text y mo d @ rest) datetime_format = (3, [y, mo, d])"
    using assms by (intro sscanf_date_suffix) (simp_all add: in_int_iff)
  have b: "sscanf (date_text y mo d) datetime_format = (3, [y, mo, d])"
    using assms by (intro sscanf_date_text) (simp_all add: in_int_iff)
  have l: "length (date_text y mo d) = 10" using assms(6-11) by (simp add: length_date_text)
  show ?thesis using assms(5) by (simp add: datetime_of_string_def a b l)
qed

theorem datetime_of_string_ignores_suffix_witness:
  "datetime_of_string 0 (breakdown 0) ''2015-01-01T10:20:30'' = datetime_of_string 0 (breakdown 0) ''2015-01-01''"
proof -
  have t: "date_text 2015 1 1 = ''2015-01-01''" by code_simp
  show ?thesis
    using datetime_of_string_ignores_suffix [of "''T10:20:30''" 2015 1 1 0 "breakdown 0"] t
    by (simp add: is_digit_def is_space_def)
qed

text \<open>
  C8. A text of a date and an hour and minute without seconds makes five
  conversions, and the constructor rejects it at line 68.
\<close>

theorem datetime_of_string_rejects_missing_seconds:
  assumes "1000 \<le> y" "y \<le> 9999" "0 \<le> mo" "mo < 100" "0 \<le> d" "d < 100" "0 \<le> h" "h < 100" "0 \<le> mi" "mi < 100"
  shows "datetime_of_string tz junk (date_text y mo d @ '' '' @ strftime_num 2 h @ '':'' @ strftime_num 2 mi) =
    Inl (cast_failed 68)"
proof -
  have a: "sscanf (date_text y mo d @ '' '' @ strftime_num 2 h @ '':'' @ strftime_num 2 mi) datetime_format = (5, [y, mo, d, h, mi])"
    using assms by (intro sscanf_date_hour_minute) (simp_all add: in_int_iff)
  have l: "length (date_text y mo d @ '' '' @ strftime_num 2 h @ '':'' @ strftime_num 2 mi) = 16"
    using assms by (simp add: length_date_text length_strftime_num)
  show ?thesis unfolding datetime_of_string_def a l by simp
qed

theorem datetime_of_string_rejects_missing_seconds_witness:
  "datetime_of_string 0 (breakdown 0) ''2015-01-01 10:20'' = Inl (cast_failed 68)"
proof -
  have t: "date_text 2015 1 1 @ '' '' @ strftime_num 2 10 @ '':'' @ strftime_num 2 20 = ''2015-01-01 10:20''"
    by code_simp
  show ?thesis
    using datetime_of_string_rejects_missing_seconds [of 2015 1 1 10 20 0 "breakdown 0"] t by simp
qed

text \<open>
  C9. \<open>set_time\<close> inverts \<open>c_tm()\<close> on every datetime, whatever its
  fields: the 32-bit conversions and the offsets 1900 and 1 cancel modulo
  \<open>2\<^sup>3\<^sup>2\<close>.
\<close>

theorem set_time_c_tm: "set_time (c_tm junk dt) = dt"
  by (simp add: set_time_def c_tm_def)

text \<open>
  C10. The default constructor takes the local time of the clock: for an
  instant within about 35000 years of the epoch and a zone within a day,
  \<open>c_tm()\<close> of the datetime it builds has exactly the fields of
  \<open>localtime\<close>, and \<open>str()\<close> prints it.
\<close>

theorem datetime_now_fields:
  assumes "\<bar>now\<bar> \<le> 2 ^ 40" "\<bar>tz\<bar> < 86400"
  shows "tm_fields (c_tm junk (datetime_now tz now)) = tm_fields (localtime tz now) \<and>
    (\<exists>txt. datetime_str junk (datetime_now tz now) = Some txt)"
proof -
  have "\<bar>now + tz\<bar> \<le> 2 ^ 41" using assms by simp
  then have yi: "in_int (tm_year (localtime tz now))"
    using breakdown_year_bounds [of "now + tz"] by (simp add: in_int_iff localtime_def)
  have n: "tm_normal (localtime tz now)" by (simp add: localtime_def breakdown_normal)
  show ?thesis
    using set_time_normal [OF n yi, of junk] by (auto simp: datetime_now_def)
qed

theorem datetime_now_fields_witness:
  "tm_fields (c_tm (breakdown 0) (datetime_now 3600 1420070400)) = (115, 0, 1, 1, 0, 0) \<and>
   (\<exists>txt. datetime_str (breakdown 0) (datetime_now 3600 1420070400) = Some txt)"
proof -
  have l: "tm_fields (localtime 3600 1420070400) = (115, 0, 1, 1, 0, 0)" by code_simp
  show ?thesis using datetime_now_fields [of 1420070400 3600 "breakdown 0"] l by simp
qed


text \<open>
  C19. The default constructor's datetime survives its own text: for a
  clock value whose local year has four digits (and which is not the second
  before the epoch), \<open>datetime().str()\<close> is printed, and the text
  constructor in the same zone builds the same datetime back from it.
\<close>

theorem datetime_now_str_roundtrip:
  assumes y: "1000 \<le> tm_year (localtime tz now) + 1900" "tm_year (localtime tz now) + 1900 \<le> 9999"
    and tz: "\<bar>tz\<bar> < 86400" and ne: "now \<noteq> -1"
  shows "\<exists>txt. datetime_str junk (datetime_now tz now) = Some txt \<and>
           datetime_of_string tz junk' txt = Inr (datetime_now tz now)"
proof -
  have n: "tm_normal (localtime tz now)" by (simp add: localtime_def breakdown_normal)
  have "tm_seconds (localtime tz now) \<noteq> tz - 1" using ne by (simp add: localtime_def tm_seconds_breakdown)
  then show ?thesis using set_time_str_roundtrip [OF n y tz] by (simp add: datetime_now_def)
qed

theorem datetime_now_str_roundtrip_witness:
  "\<exists>txt. datetime_str (breakdown 0) (datetime_now 3600 1420070400) = Some txt \<and>
     datetime_of_string 3600 (breakdown 0) txt = Inr (datetime_now 3600 1420070400)"
proof -
  have l: "tm_year (localtime 3600 1420070400) = 115" by code_simp
  show ?thesis using datetime_now_str_roundtrip [of 3600 1420070400] l by simp
qed

text \<open>
  C23. Five-digit years do not survive the text format: \<open>str()\<close> of a
  valid datetime whose year is 10000 or more prints more than 19 characters,
  and the text constructor rejects that text at the length check of line 61.
\<close>

theorem datetime_str_long_year:
  assumes v: "civil_valid y mo d h mi s" and y: "10000 \<le> y" "y \<le> INT_MAX"
  shows "\<exists>txt. datetime_str junk (mk_datetime y mo d h mi s) = Some txt \<and> 19 < length txt \<and>
           datetime_of_string tz junk' txt = Inl (cast_failed 61)"
proof -
  note r = civil_valid_ranges [OF v]
  have yi: "in_int y" "in_int (y - 1900)" using y by (simp_all add: in_int_iff INT_MAX_def)
  have f: "tm_fields (c_tm junk (mk_datetime y mo d h mi s)) = (y - 1900, mo - 1, d, h, mi, s)"
    using r yi by (simp add: tm_fields_def c_tm_def mk_datetime_def sint_word_of_int_in_int in_int_iff)
  have ly: "4 < length (strftime_num 4 y) \<and> length (strftime_num 4 y) \<le> 11"
    using y by (intro length_strftime_num_long) (simp_all add: INT_MAX_def)
  have len: "19 < length (strftime_fields y mo d h mi s) \<and> length (strftime_fields y mo d h mi s) < 32"
    using r ly by (simp add: strftime_fields_def length_strftime_num)
  have "datetime_str junk (mk_datetime y mo d h mi s) = Some (strftime_fields y mo d h mi s)"
    using f len r by (simp add: datetime_str_def strftime_datetime_def tm_fields_def in_int_iff)
  then show ?thesis using len by (simp add: datetime_of_string_def)
qed

theorem datetime_str_long_year_witness:
  "\<exists>txt. datetime_str (breakdown 0) (mk_datetime 10000 1 1 0 0 0) = Some txt \<and> 19 < length txt \<and>
     datetime_of_string 0 (breakdown 0) txt = Inl (cast_failed 61)"
proof -
  have v: "civil_valid 10000 1 1 0 0 0" by (simp add: civil_valid_def month_length_def mon_yday_def is_leap_def)
  show ?thesis using datetime_str_long_year [OF v] by (simp add: INT_MAX_def)
qed

text \<open>
  C34. The text constructor normalises once and for all: whatever text it
  accepts (a day past the end of its month included), when the year has four
  digits \<open>str()\<close> prints the datetime and the constructor applied to that
  text gives the same datetime back.
\<close>

theorem datetime_of_string_normal_roundtrip:
  assumes ok: "datetime_of_string tz junk str = Inr dt" and tz: "\<bar>tz\<bar> < 86400"
    and y: "1000 \<le> sint (year dt)" "sint (year dt) \<le> 9999"
  shows "\<exists>txt. datetime_str junk' dt = Some txt \<and> datetime_of_string tz junk'' txt = Inr dt"
proof -
  obtain vs where r: "fst (mktime tz (prep_tm junk vs)) \<noteq> -1"
      "dt = set_time (breakdown (tm_seconds (prep_tm junk vs)))"
      "in_int (tm_year (breakdown (tm_seconds (prep_tm junk vs))))"
    by (rule datetime_of_string_Inr [OF ok])
  define t where "t = breakdown (tm_seconds (prep_tm junk vs))"
  have n: "tm_normal t" by (simp add: t_def breakdown_normal)
  have yi: "in_int (tm_year t)" using r(3) by (simp add: t_def)
  have "tm_fields (c_tm junk' dt) = tm_fields t" using set_time_normal [OF n yi, of junk'] r(2) by (simp add: t_def)
  then have "tm_year t = wrap_int (sint (year dt) - 1900)" by (simp add: tm_fields_def c_tm_def)
  then have yt: "tm_year t + 1900 = sint (year dt)" using y by (simp add: in_int_iff)
  have "fst (mktime tz (prep_tm junk vs)) = tm_seconds (prep_tm junk vs) - tz" using mktime_success [OF r(1)] by simp
  then have "tm_seconds t \<noteq> tz - 1" using r(1) by (simp add: t_def tm_seconds_breakdown)
  then show ?thesis using set_time_str_roundtrip [OF n _ _ tz, of junk' junk''] yt y r(2) by (simp add: t_def)
qed

theorem datetime_of_string_normal_roundtrip_witness:
  "\<exists>txt. datetime_str (breakdown 0) (mk_datetime 2015 3 2 10 0 0) = Some txt \<and>
     datetime_of_string 0 (breakdown 0) txt = Inr (mk_datetime 2015 3 2 10 0 0)"
proof -
  have y: "sint (year (mk_datetime 2015 3 2 10 0 0)) = 2015" by (simp add: mk_datetime_def)
  show ?thesis
    using datetime_of_string_normal_roundtrip [OF datetime_of_string_feb30, of "breakdown 0" "breakdown 0"] y
    by simp
qed

end
