(* ===== verification/Ieee754.thy ===== *)
theory Ieee754
  imports Complex_Main Prelude
begin

text \<open>
  The C types \<open>float\<close> and \<open>double\<close> of an x86-64 target: IEEE 754
  binary32 and binary64, held as their object representation (a \<open>32 word\<close>
  and a \<open>64 word\<close>), which is what a bind buffer and a result column hold.
  A format has \<open>mb\<close> fraction bits and \<open>eb\<close> exponent bits; a pattern
  splits into sign, biased exponent and fraction, and denotes the real
  \<open>fp_valof\<close> (after the valuation \<open>valof\<close> of the AFP formalisation of
  IEEE 754). The conversions of C (integer to floating point, \<open>float\<close> to
  \<open>double\<close> and back) round to nearest, ties to even, the default rounding
  mode: a finite value is decoded to a dyadic \<open>a * 2\<^sup>e\<close> and encoded
  again through the bit length of \<open>a\<close>. A NaN converts as the SSE
  instructions convert it: the payload is kept from its high end and the
  quiet bit is set. The lemmas show, for formats given by their parameters,
  that encoding is exact on representable values and otherwise errs by at
  most half a unit in the last place, that decoding and encoding are
  inverse on finite patterns, and that widening to a format with more
  fraction and exponent bits is exact and undone by narrowing.
\<close>

type_synonym c_float = "32 word"
type_synonym c_double = "64 word"

named_theorems fp_simps "evaluation rules for the floating-point formats"

definition fp_bias :: "nat \<Rightarrow> nat" where
  "fp_bias eb = 2 ^ (eb - 1) - 1"

record fp_fields =
  fp_sign :: bool
  fp_biased :: nat
  fp_fraction :: nat

definition fp_unpack :: "nat \<Rightarrow> nat \<Rightarrow> nat \<Rightarrow> fp_fields" where
  "fp_unpack mb eb x =
     \<lparr>fp_sign = odd (x div 2 ^ (mb + eb)), fp_biased = x div 2 ^ mb mod 2 ^ eb, fp_fraction = x mod 2 ^ mb\<rparr>"

definition fp_pack :: "nat \<Rightarrow> nat \<Rightarrow> fp_fields \<Rightarrow> nat" where
  "fp_pack mb eb f = (if fp_sign f then 2 ^ (mb + eb) else 0) + fp_biased f * 2 ^ mb + fp_fraction f"

definition fp_fields_ok :: "nat \<Rightarrow> nat \<Rightarrow> fp_fields \<Rightarrow> bool" where
  "fp_fields_ok mb eb f \<longleftrightarrow> fp_biased f < 2 ^ eb \<and> fp_fraction f < 2 ^ mb"

definition fp_is_nan :: "nat \<Rightarrow> nat \<Rightarrow> fp_fields \<Rightarrow> bool" where
  "fp_is_nan mb eb f \<longleftrightarrow> fp_biased f = 2 ^ eb - 1 \<and> fp_fraction f \<noteq> 0"

definition fp_is_finite :: "nat \<Rightarrow> nat \<Rightarrow> fp_fields \<Rightarrow> bool" where
  "fp_is_finite mb eb f \<longleftrightarrow> fp_biased f < 2 ^ eb - 1 \<and> fp_fraction f < 2 ^ mb"

definition fp_valof :: "nat \<Rightarrow> nat \<Rightarrow> fp_fields \<Rightarrow> real" where
  "fp_valof mb eb f =
     (if fp_biased f = 0
      then (- 1) ^ (if fp_sign f then 1 else 0) * (2 / 2 ^ fp_bias eb) * (real (fp_fraction f) / 2 ^ mb)
      else (- 1) ^ (if fp_sign f then 1 else 0) * (2 ^ fp_biased f / 2 ^ fp_bias eb) *
             (1 + real (fp_fraction f) / 2 ^ mb))"

text \<open>A finite pattern as a sign and a dyadic \<open>a * 2\<^sup>e\<close>.\<close>

definition fp_decode :: "nat \<Rightarrow> nat \<Rightarrow> fp_fields \<Rightarrow> bool \<times> nat \<times> int" where
  "fp_decode mb eb f =
     (if fp_biased f = 0 then (fp_sign f, fp_fraction f, 1 - int (fp_bias eb) - int mb)
      else (fp_sign f, fp_fraction f + 2 ^ mb, int (fp_biased f) - int (fp_bias eb) - int mb))"

fun bit_len :: "nat \<Rightarrow> nat" where
  "bit_len n = (if n = 0 then 0 else Suc (bit_len (n div 2)))"

declare bit_len.simps [simp del]

text \<open>\<open>a / 2\<^sup>d\<close> rounded to the nearest integer, ties to the even one.\<close>

definition round_ne :: "nat \<Rightarrow> nat \<Rightarrow> nat" where
  "round_ne a d =
     (let q = a div 2 ^ d; r = a mod 2 ^ d
      in if 2 ^ d < 2 * r \<or> (2 * r = 2 ^ d \<and> odd q) then q + 1 else q)"

text \<open>
  The exponent of the last place a value \<open>a * 2\<^sup>e\<close> keeps in the format:
  \<open>mb\<close> places below its leading bit, but never below that of the
  subnormals.
\<close>

definition fp_quantum :: "nat \<Rightarrow> nat \<Rightarrow> nat \<Rightarrow> int \<Rightarrow> int" where
  "fp_quantum mb eb a e = max (int (bit_len a) - 1 + e - int mb) (1 - int (fp_bias eb) - int mb)"

text \<open>The significand at that quantum, rounded; a carry out of the top renormalises.\<close>

definition fp_round :: "nat \<Rightarrow> nat \<Rightarrow> nat \<Rightarrow> int \<Rightarrow> nat \<times> int" where
  "fp_round mb eb a e =
     (let q = fp_quantum mb eb a e;
          s = (if q \<le> e then a * 2 ^ nat (e - q) else round_ne a (nat (q - e)))
      in if s = 2 ^ Suc mb then (2 ^ mb, q + 1) else (s, q))"

definition fp_encode :: "nat \<Rightarrow> nat \<Rightarrow> bool \<Rightarrow> nat \<Rightarrow> int \<Rightarrow> fp_fields" where
  "fp_encode mb eb neg a e =
     (if a = 0 then \<lparr>fp_sign = neg, fp_biased = 0, fp_fraction = 0\<rparr>
      else (case fp_round mb eb a e of
              (s, q) \<Rightarrow>
                if s < 2 ^ mb then \<lparr>fp_sign = neg, fp_biased = 0, fp_fraction = s\<rparr>
                else if 2 ^ eb - 1 \<le> q + int mb + int (fp_bias eb)
                then \<lparr>fp_sign = neg, fp_biased = 2 ^ eb - 1, fp_fraction = 0\<rparr>
                else \<lparr>fp_sign = neg, fp_biased = nat (q + int mb + int (fp_bias eb)), fp_fraction = s - 2 ^ mb\<rparr>))"

text \<open>
  Conversion between formats: infinities stay infinite, a NaN keeps the high
  end of its payload with the quiet bit set, a finite value is rounded.
\<close>

definition fp_convert :: "nat \<Rightarrow> nat \<Rightarrow> nat \<Rightarrow> nat \<Rightarrow> fp_fields \<Rightarrow> fp_fields" where
  "fp_convert mb eb mb' eb' f =
     (if fp_biased f = 2 ^ eb - 1 then
        (if fp_fraction f = 0 then \<lparr>fp_sign = fp_sign f, fp_biased = 2 ^ eb' - 1, fp_fraction = 0\<rparr>
         else \<lparr>fp_sign = fp_sign f, fp_biased = 2 ^ eb' - 1,
               fp_fraction = 2 ^ (mb' - 1) +
                 (if mb \<le> mb' then fp_fraction f * 2 ^ (mb' - mb) else fp_fraction f div 2 ^ (mb - mb'))
                 mod 2 ^ (mb' - 1)\<rparr>)
      else (case fp_decode mb eb f of (neg, a, e) \<Rightarrow> fp_encode mb' eb' neg a e))"

text \<open>The real number a sign and a dyadic \<open>a * 2\<^sup>e\<close> denote.\<close>

definition fp_dyadic :: "bool \<Rightarrow> nat \<Rightarrow> int \<Rightarrow> real" where
  "fp_dyadic neg a e = (if neg then - 1 else 1) * real a * 2 powr real_of_int e"

subsection \<open>The C conversions\<close>

definition float_fields :: "c_float \<Rightarrow> fp_fields" where
  "float_fields x = fp_unpack 23 8 (unat x)"

definition double_fields :: "c_double \<Rightarrow> fp_fields" where
  "double_fields x = fp_unpack 52 11 (unat x)"

definition float_value :: "c_float \<Rightarrow> real" where
  "float_value x = fp_valof 23 8 (float_fields x)"

definition double_value :: "c_double \<Rightarrow> real" where
  "double_value x = fp_valof 52 11 (double_fields x)"

definition float_of_int :: "int \<Rightarrow> c_float" where
  "float_of_int n = of_nat (fp_pack 23 8 (fp_encode 23 8 (n < 0) (nat \<bar>n\<bar>) 0))"

definition double_of_int :: "int \<Rightarrow> c_double" where
  "double_of_int n = of_nat (fp_pack 52 11 (fp_encode 52 11 (n < 0) (nat \<bar>n\<bar>) 0))"

definition double_of_float :: "c_float \<Rightarrow> c_double" where
  "double_of_float x = of_nat (fp_pack 52 11 (fp_convert 23 8 52 11 (float_fields x)))"

definition float_of_double :: "c_double \<Rightarrow> c_float" where
  "float_of_double x = of_nat (fp_pack 23 8 (fp_convert 52 11 23 8 (double_fields x)))"

declare fp_bias_def [fp_simps] fp_unpack_def [fp_simps] fp_pack_def [fp_simps] fp_decode_def [fp_simps]
  fp_encode_def [fp_simps] fp_round_def [fp_simps] fp_quantum_def [fp_simps] round_ne_def [fp_simps]
  fp_convert_def [fp_simps] bit_len.simps [fp_simps] fp_valof_def [fp_simps] fp_is_nan_def [fp_simps]
  fp_is_finite_def [fp_simps] float_fields_def [fp_simps] double_fields_def [fp_simps]
  float_value_def [fp_simps] double_value_def [fp_simps] float_of_int_def [fp_simps]
  double_of_int_def [fp_simps] double_of_float_def [fp_simps] float_of_double_def [fp_simps]

section \<open>Properties of the formats\<close>

subsection \<open>Bit length, rounding, packing\<close>

lemma bit_len_bounds: "0 < n \<Longrightarrow> 2 ^ (bit_len n - 1) \<le> n \<and> n < 2 ^ bit_len n"
proof (induction n rule: bit_len.induct)
  case (1 n)
  show ?case
  proof (cases "n div 2 = 0")
    case True
    then have "n = 1" using "1.prems" by auto
    then show ?thesis by (simp add: bit_len.simps)
  next
    case False
    then have ih: "2 ^ (bit_len (n div 2) - 1) \<le> n div 2 \<and> n div 2 < 2 ^ bit_len (n div 2)"
      using "1.IH" "1.prems" by simp
    have p: "0 < bit_len (n div 2)" using False by (simp add: bit_len.simps)
    have l: "bit_len n = Suc (bit_len (n div 2))" using "1.prems" by (simp add: bit_len.simps)
    have "2 ^ (bit_len (n div 2) - 1) * 2 \<le> n" using ih by linarith
    moreover have "n < 2 ^ bit_len (n div 2) * 2" using ih by linarith
    ultimately show ?thesis using l p by (simp add: power_Suc2 [symmetric] del: power_Suc)
  qed
qed

lemma bit_len_unique: "2 ^ (L - 1) \<le> n \<Longrightarrow> n < 2 ^ L \<Longrightarrow> bit_len n = L"
proof -
  assume a: "2 ^ (L - 1) \<le> n" "n < 2 ^ L"
  then have n: "0 < n" by (metis le_zero_eq not_gr_zero power_not_zero zero_neq_numeral)
  note b = bit_len_bounds [OF n]
  have "bit_len n \<le> L"
  proof (rule ccontr)
    assume "\<not> bit_len n \<le> L"
    then have "2 ^ L \<le> (2::nat) ^ (bit_len n - 1)" by (intro power_increasing) auto
    then show False using b a by linarith
  qed
  moreover have "L \<le> bit_len n"
  proof (rule ccontr)
    assume "\<not> L \<le> bit_len n"
    then have "(2::nat) ^ bit_len n \<le> 2 ^ (L - 1)" by (intro power_increasing) auto
    then show False using b a by linarith
  qed
  ultimately show ?thesis by simp
qed

lemma bit_len_less: "n < 2 ^ k \<Longrightarrow> bit_len n \<le> k"
proof (cases "n = 0")
  case True
  then show ?thesis by (simp add: bit_len.simps)
next
  case False
  assume a: "n < 2 ^ k"
  show ?thesis
  proof (rule ccontr)
    assume "\<not> bit_len n \<le> k"
    then have "(2::nat) ^ k \<le> 2 ^ (bit_len n - 1)" by (intro power_increasing) auto
    then show False using bit_len_bounds [of n] False a by linarith
  qed
qed

lemma bit_len_shift: "0 < a \<Longrightarrow> bit_len (a * 2 ^ k) = bit_len a + k"
proof -
  assume a: "0 < a"
  note b = bit_len_bounds [OF a]
  have p: "0 < bit_len a" using b by (cases "bit_len a") auto
  show ?thesis
  proof (rule bit_len_unique)
    show "2 ^ (bit_len a + k - 1) \<le> a * 2 ^ k"
    proof -
      have "bit_len a + k - 1 = (bit_len a - 1) + k" using p by simp
      then show ?thesis using b by (simp add: power_add)
    qed
    show "a * 2 ^ k < 2 ^ (bit_len a + k)"
      using b by (simp add: power_add)
  qed
qed

lemma round_ne_scale: "round_ne (a * 2 ^ k) (d + k) = round_ne a d"
proof -
  have dv: "a * 2 ^ k div 2 ^ (d + k) = a div 2 ^ d"
    by (simp add: power_add div_mult2_eq mult.commute [of "2 ^ d"])
  have md: "a * 2 ^ k mod 2 ^ (d + k) = a mod 2 ^ d * 2 ^ k"
    by (simp add: power_add mult.commute [of "2 ^ d"] mod_mult_mult2)
  have c1: "2 ^ (d + k) < 2 * (a mod 2 ^ d * 2 ^ k) \<longleftrightarrow> 2 ^ d < 2 * (a mod 2 ^ d)"
    by (simp add: power_add)
  have c2: "2 * (a mod 2 ^ d * 2 ^ k) = 2 ^ (d + k) \<longleftrightarrow> 2 * (a mod 2 ^ d) = 2 ^ d"
    by (simp add: power_add)
  show ?thesis by (simp only: round_ne_def Let_def dv md c1 c2)
qed

lemma round_ne_exact: "round_ne (m * 2 ^ d) d = m"
  using round_ne_scale [of m d 0] by (simp add: round_ne_def)

lemma fp_pack_unpack: "x < 2 ^ Suc (mb + eb) \<Longrightarrow> fp_pack mb eb (fp_unpack mb eb x) = x"
proof -
  assume x: "x < 2 ^ Suc (mb + eb)"
  have s: "x div 2 ^ (mb + eb) < 2" using x by (simp add: less_mult_imp_div_less power_Suc2 mult.commute)
  have e: "x div 2 ^ mb mod 2 ^ eb * 2 ^ mb + x mod 2 ^ mb = x mod 2 ^ (mb + eb)"
    using mod_mult2_eq [of x "2 ^ mb" "2 ^ eb"] by (simp add: power_add mult.commute)
  have d: "x = x div 2 ^ (mb + eb) * 2 ^ (mb + eb) + x mod 2 ^ (mb + eb)" by (rule div_mult_mod_eq [symmetric])
  show ?thesis using s e d
    by (cases "x div 2 ^ (mb + eb)") (auto simp: fp_pack_def fp_unpack_def)
qed

lemma fp_unpack_pack: "fp_fields_ok mb eb f \<Longrightarrow> fp_unpack mb eb (fp_pack mb eb f) = f"
proof -
  assume ok: "fp_fields_ok mb eb f"
  define s where "s = (if fp_sign f then 1 else 0 :: nat)"
  have l: "fp_biased f * 2 ^ mb + fp_fraction f < 2 ^ (mb + eb)"
  proof -
    have "fp_biased f * 2 ^ mb + fp_fraction f < fp_biased f * 2 ^ mb + 2 ^ mb" using ok by (simp add: fp_fields_ok_def)
    also have "\<dots> = (fp_biased f + 1) * 2 ^ mb" by simp
    also have "\<dots> \<le> 2 ^ eb * 2 ^ mb" using ok by (intro mult_right_mono) (auto simp: fp_fields_ok_def)
    finally show ?thesis by (simp add: power_add mult.commute)
  qed
  have p: "fp_pack mb eb f = s * 2 ^ (mb + eb) + (fp_biased f * 2 ^ mb + fp_fraction f)"
    by (simp add: fp_pack_def s_def)
  have d1: "fp_pack mb eb f div 2 ^ (mb + eb) = s" using l p by simp
  have m1: "fp_pack mb eb f mod 2 ^ (mb + eb) = fp_biased f * 2 ^ mb + fp_fraction f" using l p by simp
  have p2: "fp_pack mb eb f = fp_fraction f + (s * 2 ^ eb + fp_biased f) * 2 ^ mb"
    by (simp add: p power_add algebra_simps)
  have fr: "fp_fraction f < 2 ^ mb" "fp_biased f < 2 ^ eb" using ok by (simp_all add: fp_fields_ok_def)
  have m2: "fp_pack mb eb f mod 2 ^ mb = fp_fraction f" using fr by (simp add: p2)
  have d2: "fp_pack mb eb f div 2 ^ mb = s * 2 ^ eb + fp_biased f" using fr by (simp add: p2)
  have m3: "(s * 2 ^ eb + fp_biased f) mod 2 ^ eb = fp_biased f" using fr by simp
  show ?thesis using d1 m2 d2 m3 by (simp add: fp_unpack_def s_def)
qed

lemma fp_round_exact:
  assumes a: "0 < a" and q: "fp_quantum mb eb a e \<le> e"
  shows "fp_round mb eb a e = (a * 2 ^ nat (e - fp_quantum mb eb a e), fp_quantum mb eb a e)"
    and "a * 2 ^ nat (e - fp_quantum mb eb a e) < 2 ^ Suc mb"
    and "a * 2 ^ nat (e - fp_quantum mb eb a e) < 2 ^ mb \<Longrightarrow>
           fp_quantum mb eb a e = 1 - int (fp_bias eb) - int mb"
proof -
  define L where "L = bit_len a"
  define qq where "qq = fp_quantum mb eb a e"
  define n where "n = nat (e - qq)"
  note b = bit_len_bounds [OF a, folded L_def]
  have L0: "0 < L" using b by (cases L) auto
  have qge: "int L - 1 + e - int mb \<le> qq" by (simp add: qq_def fp_quantum_def L_def)
  have qle: "qq \<le> e" using q by (simp add: qq_def)
  have n_le: "L + n \<le> Suc mb" using qge qle by (simp add: n_def)
  have "a * 2 ^ n < 2 ^ L * 2 ^ n" using b by simp
  also have "\<dots> = 2 ^ (L + n)" by (simp add: power_add)
  also have "\<dots> \<le> 2 ^ Suc mb" using n_le by (intro power_increasing) auto
  finally have lt: "a * 2 ^ n < 2 ^ Suc mb" .
  then show "a * 2 ^ nat (e - fp_quantum mb eb a e) < 2 ^ Suc mb" by (simp add: n_def qq_def)
  then show "fp_round mb eb a e = (a * 2 ^ nat (e - fp_quantum mb eb a e), fp_quantum mb eb a e)"
    using q by (simp add: fp_round_def Let_def)
  show "fp_quantum mb eb a e = 1 - int (fp_bias eb) - int mb"
    if sm: "a * 2 ^ nat (e - fp_quantum mb eb a e) < 2 ^ mb"
  proof (rule ccontr)
    assume ne: "fp_quantum mb eb a e \<noteq> 1 - int (fp_bias eb) - int mb"
    then have "qq = int L - 1 + e - int mb" by (simp add: qq_def fp_quantum_def L_def max_def split: if_splits)
    moreover have Lm: "L \<le> Suc mb" using n_le by simp
    ultimately have "n = Suc mb - L" by (simp add: n_def)
    then have nn: "L - 1 + n = mb" using L0 Lm by simp
    have "(2::nat) ^ mb = 2 ^ (L - 1) * 2 ^ n" using nn by (simp add: power_add [symmetric])
    also have "\<dots> \<le> a * 2 ^ n" using b by simp
    finally show False using sm by (simp add: n_def qq_def)
  qed
qed

lemma fp_encode_exact:
  assumes a: "0 < a" and q: "fp_quantum mb eb a e \<le> e"
    and ov: "fp_quantum mb eb a e + int mb + int (fp_bias eb) < 2 ^ eb - 1"
  shows "fp_decode mb eb (fp_encode mb eb neg a e) =
           (neg, a * 2 ^ nat (e - fp_quantum mb eb a e), fp_quantum mb eb a e)"
    and "fp_is_finite mb eb (fp_encode mb eb neg a e)"
proof -
  define qq where "qq = fp_quantum mb eb a e"
  define s where "s = a * 2 ^ nat (e - qq)"
  note r = fp_round_exact [OF a q, folded qq_def, folded s_def]
  have q1: "1 - int (fp_bias eb) - int mb \<le> qq" by (simp add: qq_def fp_quantum_def)
  have ov': "qq + int mb + int (fp_bias eb) < 2 ^ eb - 1" using ov by (simp add: qq_def)
  have "fp_decode mb eb (fp_encode mb eb neg a e) = (neg, s, qq) \<and> fp_is_finite mb eb (fp_encode mb eb neg a e)"
  proof (cases "s < 2 ^ mb")
    case True
    have "qq = 1 - int (fp_bias eb) - int mb" using r(3) True by simp
    moreover have "Suc 0 < (2::nat) ^ eb"
    proof (rule ccontr)
      assume "\<not> Suc 0 < (2::nat) ^ eb"
      then have "eb = 0" using one_less_power [of "2::nat" eb] by (cases eb) auto
      then show False using ov' q1 by simp
    qed
    ultimately show ?thesis using True a r(1)
      by (simp add: fp_encode_def fp_decode_def fp_is_finite_def)
  next
    case False
    have pos: "0 < qq + int mb + int (fp_bias eb)" using q1 by linarith
    have e1: "\<not> (2::int) ^ eb - 1 \<le> qq + int mb + int (fp_bias eb)" using ov' by linarith
    have e2: "nat (qq + int mb + int (fp_bias eb)) < 2 ^ eb - 1" using ov' pos by (simp add: nat_less_iff of_nat_diff)
    have e3: "s - 2 ^ mb < 2 ^ mb" using r(2) False by simp
    have e4: "int (nat (qq + int mb + int (fp_bias eb))) - int (fp_bias eb) - int mb = qq" using pos by simp
    show ?thesis using False a r(1) pos e1 e2 e3 e4
      by (simp add: fp_encode_def fp_decode_def fp_is_finite_def)
  qed
  then show "fp_decode mb eb (fp_encode mb eb neg a e) =
           (neg, a * 2 ^ nat (e - fp_quantum mb eb a e), fp_quantum mb eb a e)"
    and "fp_is_finite mb eb (fp_encode mb eb neg a e)" by (simp_all add: s_def qq_def)
qed

lemma fp_quantum_scale: "0 < a \<Longrightarrow> fp_quantum mb eb (a * 2 ^ k) (e - int k) = fp_quantum mb eb a e"
  by (simp add: fp_quantum_def bit_len_shift)

lemma fp_round_scale: "0 < a \<Longrightarrow> fp_round mb eb (a * 2 ^ k) (e - int k) = fp_round mb eb a e"
proof -
  assume a: "0 < a"
  define q where "q = fp_quantum mb eb a e"
  have qs: "fp_quantum mb eb (a * 2 ^ k) (e - int k) = q" using fp_quantum_scale [OF a] by (simp add: q_def)
  have "(if q \<le> e - int k then a * 2 ^ k * 2 ^ nat (e - int k - q) else round_ne (a * 2 ^ k) (nat (q - (e - int k)))) =
        (if q \<le> e then a * 2 ^ nat (e - q) else round_ne a (nat (q - e)))"
  proof (cases "q \<le> e - int k")
    case True
    then have "nat (e - q) = k + nat (e - int k - q)" by simp
    then show ?thesis using True by (simp add: power_add)
  next
    case c: False
    show ?thesis
    proof (cases "q \<le> e")
      case True
      then have kk: "nat (e - q) + nat (q - (e - int k)) = k" using c by simp
      have "a * 2 ^ k = a * 2 ^ nat (e - q) * 2 ^ nat (q - (e - int k))"
        by (simp add: power_add [symmetric] kk mult.assoc)
      then have rn: "round_ne (a * 2 ^ k) (nat (q - (e - int k))) = a * 2 ^ nat (e - q)"
        by (simp only:) (rule round_ne_exact)
      show ?thesis using c True rn by simp
    next
      case False
      then have "nat (q - (e - int k)) = nat (q - e) + k" by simp
      then show ?thesis using c False by (simp add: round_ne_scale)
    qed
  qed
  then show ?thesis unfolding fp_round_def Let_def qs by (simp only: q_def [symmetric])
qed

lemma fp_encode_scale: "0 < a \<Longrightarrow> fp_encode mb eb neg (a * 2 ^ k) (e - int k) = fp_encode mb eb neg a e"
proof -
  assume a: "0 < a"
  then have "a * 2 ^ k \<noteq> 0" by simp
  then show ?thesis using a unfolding fp_encode_def by (simp only: fp_round_scale [OF a] if_False) simp
qed

lemma fp_encode_round:
  "0 < a \<Longrightarrow> fp_round mb eb a e = (s, q) \<Longrightarrow>
   fp_encode mb eb neg a e =
     (if s < 2 ^ mb then \<lparr>fp_sign = neg, fp_biased = 0, fp_fraction = s\<rparr>
      else if 2 ^ eb - 1 \<le> q + int mb + int (fp_bias eb)
      then \<lparr>fp_sign = neg, fp_biased = 2 ^ eb - 1, fp_fraction = 0\<rparr>
      else \<lparr>fp_sign = neg, fp_biased = nat (q + int mb + int (fp_bias eb)), fp_fraction = s - 2 ^ mb\<rparr>)"
  by (simp add: fp_encode_def)

lemma fp_encode_decode:
  assumes f: "fp_is_finite mb eb f"
  shows "(case fp_decode mb eb f of (neg, a, e) \<Rightarrow> fp_encode mb eb neg a e) = f"
proof (cases "fp_biased f = 0")
  case True
  show ?thesis
  proof (cases "fp_fraction f = 0")
    case True
    then show ?thesis using \<open>fp_biased f = 0\<close> by (simp add: fp_decode_def fp_encode_def)
  next
    case False
    define e where "e = 1 - int (fp_bias eb) - int mb"
    have fr: "fp_fraction f < 2 ^ mb" using f by (simp add: fp_is_finite_def)
    have "bit_len (fp_fraction f) \<le> mb" using bit_len_less [OF fr] .
    then have q: "fp_quantum mb eb (fp_fraction f) e = e" by (simp add: fp_quantum_def e_def)
    have r: "fp_round mb eb (fp_fraction f) e = (fp_fraction f, e)"
      using fr by (simp add: fp_round_def q)
    have d: "fp_decode mb eb f = (fp_sign f, fp_fraction f, e)" using True by (simp add: fp_decode_def e_def)
    show ?thesis using fp_encode_round [OF _ r, of "fp_sign f"] False fr True by (simp add: d)
  qed
next
  case False
  define a where "a = fp_fraction f + 2 ^ mb"
  define e where "e = int (fp_biased f) - int (fp_bias eb) - int mb"
  have fr: "fp_fraction f < 2 ^ mb" and bi: "fp_biased f < 2 ^ eb - 1" using f by (simp_all add: fp_is_finite_def)
  have L: "bit_len a = Suc mb" by (rule bit_len_unique) (use fr in \<open>simp_all add: a_def\<close>)
  have q: "fp_quantum mb eb a e = e" using False by (simp add: fp_quantum_def L e_def)
  have an: "a \<noteq> 2 * 2 ^ mb" using fr by (simp add: a_def)
  have r: "fp_round mb eb a e = (a, e)" using an by (simp add: fp_round_def q)
  have b: "nat (e + int mb + int (fp_bias eb)) = fp_biased f" by (simp add: e_def)
  have bi1: "fp_biased f + 1 < 2 ^ eb" using bi by arith
  have "int (fp_biased f + 1) < int (2 ^ eb)" using bi1 by (simp only: of_nat_less_iff)
  then have bi2: "int (fp_biased f) + 1 < 2 ^ eb" by simp
  have nb: "\<not> 2 ^ eb - 1 \<le> e + int mb + int (fp_bias eb)" using bi2 by (simp add: e_def)
  have a1: "\<not> a < 2 ^ mb" "0 < a" "a - 2 ^ mb = fp_fraction f" by (simp_all add: a_def)
  have d: "fp_decode mb eb f = (fp_sign f, a, e)" using False by (simp add: fp_decode_def a_def e_def)
  show ?thesis using fp_encode_round [OF a1(2) r, of "fp_sign f"] a1 nb b by (simp add: d)
qed

lemma fp_powr_bias: "(2::real) powr real_of_int (int b - int c - int m) = 2 ^ b / (2 ^ c * 2 ^ m)"
  by (simp add: powr_diff powr_realpow)

lemma fp_valof_decode:
  "fp_valof mb eb f = (case fp_decode mb eb f of (neg, a, e) \<Rightarrow> fp_dyadic neg a e)"
proof (cases "fp_biased f = 0")
  case True
  have "(2::real) powr real_of_int (1 - int (fp_bias eb) - int mb) = 2 / (2 ^ fp_bias eb * 2 ^ mb)"
    using fp_powr_bias [of 1 "fp_bias eb" mb] by simp
  then show ?thesis using True by (simp add: fp_valof_def fp_decode_def fp_dyadic_def)
next
  case False
  have "(2::real) powr real_of_int (int (fp_biased f) - int (fp_bias eb) - int mb) =
        2 ^ fp_biased f / (2 ^ fp_bias eb * 2 ^ mb)" by (rule fp_powr_bias)
  then show ?thesis using False by (simp add: fp_valof_def fp_decode_def fp_dyadic_def field_simps)
qed

lemma fp_dyadic_scale: "fp_dyadic neg (a * 2 ^ k) (e - int k) = fp_dyadic neg a e"
proof -
  have "(2::real) ^ k * 2 powr real_of_int (e - int k) = 2 powr real_of_int e"
    by (simp add: powr_diff powr_realpow [symmetric])
  then show ?thesis by (simp add: fp_dyadic_def mult.assoc [symmetric] mult.commute [of _ "2 ^ k"])
qed

lemma fp_encode_value:
  assumes "0 < a" "fp_quantum mb eb a e \<le> e"
    "fp_quantum mb eb a e + int mb + int (fp_bias eb) < 2 ^ eb - 1"
  shows "fp_valof mb eb (fp_encode mb eb neg a e) = fp_dyadic neg a e"
proof -
  define k where "k = nat (e - fp_quantum mb eb a e)"
  have "fp_quantum mb eb a e = e - int k" using assms(2) by (simp add: k_def)
  then show ?thesis using fp_encode_exact(1) [OF assms, of neg] fp_dyadic_scale [of neg a k e]
    by (simp add: fp_valof_decode k_def [symmetric])
qed

lemma fp_pack_less: "fp_fields_ok mb eb f \<Longrightarrow> fp_pack mb eb f < 2 ^ Suc (mb + eb)"
proof -
  assume ok: "fp_fields_ok mb eb f"
  have "fp_biased f * 2 ^ mb + fp_fraction f < (fp_biased f + 1) * 2 ^ mb" using ok by (simp add: fp_fields_ok_def)
  also have "\<dots> \<le> 2 ^ eb * 2 ^ mb" using ok by (intro mult_right_mono) (auto simp: fp_fields_ok_def)
  finally have "fp_biased f * 2 ^ mb + fp_fraction f < 2 ^ (mb + eb)" by (simp add: power_add mult.commute)
  then show ?thesis by (simp add: fp_pack_def)
qed

lemma fp_unpack_ok: "fp_fields_ok mb eb (fp_unpack mb eb x)"
  by (simp add: fp_fields_ok_def fp_unpack_def)

lemma fp_finite_ok: "fp_is_finite mb eb f \<Longrightarrow> fp_fields_ok mb eb f"
  unfolding fp_is_finite_def fp_fields_ok_def by (meson diff_le_self order_less_le_trans)

lemma round_ne_le: "a < 2 ^ (d + m) \<Longrightarrow> round_ne a d \<le> 2 ^ m"
proof -
  assume "a < 2 ^ (d + m)"
  then have "a div 2 ^ d < 2 ^ m" by (simp add: power_add less_mult_imp_div_less mult.commute)
  then show ?thesis by (simp add: round_ne_def Let_def)
qed

lemma fp_round_less: "0 < a \<Longrightarrow> fst (fp_round mb eb a e) < 2 ^ Suc mb"
proof -
  assume a: "0 < a"
  define q where "q = fp_quantum mb eb a e"
  show ?thesis
  proof (cases "q \<le> e")
    case True
    then show ?thesis using fp_round_exact [OF a, of mb eb e] by (simp add: q_def)
  next
    case False
    have ge: "int (bit_len a) - 1 + e - int mb \<le> q" by (simp add: q_def fp_quantum_def)
    have "a < 2 ^ bit_len a" using bit_len_bounds [OF a] by simp
    also have "\<dots> \<le> 2 ^ (nat (q - e) + Suc mb)" using ge False by (intro power_increasing) auto
    finally have "round_ne a (nat (q - e)) \<le> 2 ^ Suc mb" by (rule round_ne_le)
    then show ?thesis using False by (simp add: fp_round_def Let_def q_def [symmetric])
  qed
qed

lemma fp_encode_ok: "fp_fields_ok mb eb (fp_encode mb eb neg a e)"
proof (cases "a = 0")
  case True
  then show ?thesis by (simp add: fp_encode_def fp_fields_ok_def)
next
  case False
  obtain s q where r: "fp_round mb eb a e = (s, q)" by (cases "fp_round mb eb a e")
  have "s < 2 ^ mb + 2 ^ mb" using fp_round_less [of a mb eb e] False r by simp
  then have "s - 2 ^ mb < 2 ^ mb" by linarith
  then show ?thesis using False r by (simp add: fp_encode_round fp_fields_ok_def nat_less_iff of_nat_diff)
qed

lemma fp_encode_int_value:
  assumes mb: "0 < mb" and a: "0 < a" "a \<le> 2 ^ Suc mb"
    and ov: "1 + int mb + int (fp_bias eb) < 2 ^ eb - 1"
  shows "fp_valof mb eb (fp_encode mb eb neg a 0) = fp_dyadic neg a 0"
proof (cases "a < 2 ^ Suc mb")
  case True
  have "bit_len a \<le> Suc mb" using bit_len_less [OF True] .
  then have q: "fp_quantum mb eb a 0 \<le> 0" using mb by (simp add: fp_quantum_def)
  show ?thesis by (rule fp_encode_value) (use a q ov in simp_all)
next
  case False
  then have a2: "a = 1 * 2 ^ Suc mb" using a by simp
  have e: "fp_encode mb eb neg a 0 = fp_encode mb eb neg 1 (int (Suc mb))"
    using fp_encode_scale [of 1 mb eb neg "Suc mb" "int (Suc mb)"] a2 by simp
  have q: "fp_quantum mb eb 1 (int (Suc mb)) = 1" using mb by (simp add: fp_quantum_def bit_len.simps)
  have "fp_valof mb eb (fp_encode mb eb neg 1 (int (Suc mb))) = fp_dyadic neg 1 (int (Suc mb))"
    by (rule fp_encode_value) (use q ov in simp_all)
  then show ?thesis using e fp_dyadic_scale [of neg 1 "Suc mb" "int (Suc mb)"] a2 by simp
qed

lemma fp_encode_zero: "fp_encode mb eb neg 0 e = \<lparr>fp_sign = neg, fp_biased = 0, fp_fraction = 0\<rparr>"
  by (simp add: fp_encode_def)

lemma fp_widen_exact:
  assumes fin: "fp_is_finite mb eb f" and d: "fp_decode mb eb f = (neg, a, e)" and a: "0 < a"
    and fmt: "mb \<le> mb'" "fp_bias eb \<le> fp_bias eb'"
    and ov: "2 ^ eb - 1 - int (fp_bias eb) - int mb + int mb' + int (fp_bias eb') < 2 ^ eb' - 1"
  shows "\<exists>k. fp_decode mb' eb' (fp_encode mb' eb' neg a e) = (neg, a * 2 ^ k, e - int k) \<and>
             fp_is_finite mb' eb' (fp_encode mb' eb' neg a e)"
proof -
  have alt: "a < 2 ^ Suc mb" using d fin by (auto simp: fp_decode_def fp_is_finite_def split: if_splits)
  have ege: "1 - int (fp_bias eb) - int mb \<le> e" using d by (auto simp: fp_decode_def split: if_splits)
  have bl: "fp_biased f + 1 < 2 ^ eb" using fin by (simp add: fp_is_finite_def) arith
  have "int (fp_biased f + 1) < int (2 ^ eb)" using bl by (simp only: of_nat_less_iff)
  then have bl': "int (fp_biased f) + 1 < 2 ^ eb" by simp
  have ee: "e = (if fp_biased f = 0 then 1 - int (fp_bias eb) - int mb
                 else int (fp_biased f) - int (fp_bias eb) - int mb)"
    using d by (simp add: fp_decode_def split: if_splits)
  have ele: "e \<le> 2 ^ eb - 1 - int (fp_bias eb) - int mb"
  proof (cases "fp_biased f = 0")
    case True
    then have "e = 1 - int (fp_bias eb) - int mb" "1 < (2::int) ^ eb" using ee bl' by simp_all
    then show ?thesis by linarith
  next
    case False
    then have "e = int (fp_biased f) - int (fp_bias eb) - int mb" using ee by simp
    then show ?thesis using bl' by linarith
  qed
  have L: "bit_len a \<le> Suc mb" using bit_len_less [OF alt] .
  have q: "fp_quantum mb' eb' a e \<le> e" using L fmt ege by (simp add: fp_quantum_def)
  have qo: "fp_quantum mb' eb' a e + int mb' + int (fp_bias eb') < 2 ^ eb' - 1" using q ele ov by linarith
  note ex = fp_encode_exact [OF a q qo, of neg]
  define k where "k = nat (e - fp_quantum mb' eb' a e)"
  have qk: "fp_quantum mb' eb' a e = e - int k" using q by (simp add: k_def)
  have "fp_decode mb' eb' (fp_encode mb' eb' neg a e) = (neg, a * 2 ^ k, e - int k)"
    using ex(1) qk by (simp add: k_def [symmetric])
  then show ?thesis using ex(2) by blast
qed

lemma fp_convert_finite:
  "fp_fields_ok mb eb f \<Longrightarrow> fp_biased f \<noteq> 2 ^ eb - 1 \<Longrightarrow> fp_is_finite mb eb f"
  by (simp add: fp_is_finite_def fp_fields_ok_def) arith

lemma fp_convert_roundtrip:
  assumes ok: "fp_fields_ok mb eb f" and nn: "\<not> fp_is_nan mb eb f"
    and fmt: "mb \<le> mb'" "fp_bias eb \<le> fp_bias eb'" "0 < eb'"
    and ov: "2 ^ eb - 1 - int (fp_bias eb) - int mb + int mb' + int (fp_bias eb') < 2 ^ eb' - 1"
  shows "fp_convert mb' eb' mb eb (fp_convert mb eb mb' eb' f) = f"
proof (cases "fp_biased f = 2 ^ eb - 1")
  case True
  then have "fp_fraction f = 0" using nn by (simp add: fp_is_nan_def)
  then show ?thesis using True by (cases f) (simp add: fp_convert_def)
next
  case nf: False
  have fin: "fp_is_finite mb eb f" using fp_convert_finite [OF ok nf] .
  obtain neg a e where d: "fp_decode mb eb f = (neg, a, e)" by (cases "fp_decode mb eb f")
  have enc_f: "fp_encode mb eb neg a e = f" using fp_encode_decode [OF fin] d by simp
  have e1: "fp_convert mb eb mb' eb' f = fp_encode mb' eb' neg a e" using nf d by (simp add: fp_convert_def)
  have neb: "(0::nat) \<noteq> 2 ^ eb' - 1" using fmt(3) one_less_power [of "2::nat" eb'] by simp
  show ?thesis
  proof (cases "a = 0")
    case True
    have z: "fp_encode mb' eb' neg a e = \<lparr>fp_sign = neg, fp_biased = 0, fp_fraction = 0\<rparr>"
      using True by (simp add: fp_encode_zero)
    have c0: "fp_convert mb' eb' mb eb \<lparr>fp_sign = neg, fp_biased = 0, fp_fraction = 0\<rparr> =
              \<lparr>fp_sign = neg, fp_biased = 0, fp_fraction = 0\<rparr>"
      using neb by (simp add: fp_convert_def fp_decode_def fp_encode_zero)
    have f0: "\<lparr>fp_sign = neg, fp_biased = 0, fp_fraction = 0\<rparr> = f" using enc_f True by (simp add: fp_encode_zero)
    show ?thesis by (simp only: e1 z c0) (rule f0)
  next
    case False
    obtain k where k: "fp_decode mb' eb' (fp_encode mb' eb' neg a e) = (neg, a * 2 ^ k, e - int k)"
      "fp_is_finite mb' eb' (fp_encode mb' eb' neg a e)"
      using fp_widen_exact [OF fin d _ fmt(1,2) ov] False by blast
    have nb: "fp_biased (fp_encode mb' eb' neg a e) \<noteq> 2 ^ eb' - 1" using k(2) by (simp add: fp_is_finite_def)
    show ?thesis using e1 k(1) nb fp_encode_scale [of a mb eb neg k e] False enc_f
      by (simp add: fp_convert_def)
  qed
qed

lemma fp_convert_value:
  assumes fin: "fp_is_finite mb eb f"
    and fmt: "mb \<le> mb'" "fp_bias eb \<le> fp_bias eb'"
    and ov: "2 ^ eb - 1 - int (fp_bias eb) - int mb + int mb' + int (fp_bias eb') < 2 ^ eb' - 1"
  shows "fp_valof mb' eb' (fp_convert mb eb mb' eb' f) = fp_valof mb eb f"
proof -
  obtain neg a e where d: "fp_decode mb eb f = (neg, a, e)" by (cases "fp_decode mb eb f")
  have nf: "fp_biased f \<noteq> 2 ^ eb - 1" using fin by (simp add: fp_is_finite_def)
  have e1: "fp_convert mb eb mb' eb' f = fp_encode mb' eb' neg a e" using nf d by (simp add: fp_convert_def)
  show ?thesis
  proof (cases "a = 0")
    case True
    then show ?thesis using e1 d by (simp add: fp_valof_decode fp_encode_zero fp_decode_def fp_dyadic_def)
  next
    case False
    obtain k where k: "fp_decode mb' eb' (fp_encode mb' eb' neg a e) = (neg, a * 2 ^ k, e - int k)"
      using fp_widen_exact [OF fin d _ fmt ov] False by blast
    show ?thesis using e1 d k fp_dyadic_scale [of neg a k e] by (simp add: fp_valof_decode)
  qed
qed

lemma fp_convert_ok: "0 < mb' \<Longrightarrow> fp_fields_ok mb' eb' (fp_convert mb eb mb' eb' f)"
proof -
  assume m: "0 < mb'"
  have "2 ^ (mb' - 1) + x mod 2 ^ (mb' - 1) < (2::nat) ^ mb'" for x
  proof -
    have "x mod 2 ^ (mb' - 1) < 2 ^ (mb' - 1)" by simp
    moreover have "(2::nat) ^ mb' = 2 ^ (mb' - 1) + 2 ^ (mb' - 1)" using m by (cases mb') simp_all
    ultimately show ?thesis by linarith
  qed
  then show ?thesis by (simp add: fp_convert_def fp_fields_ok_def fp_encode_ok [unfolded fp_fields_ok_def] split: prod.split)
qed

subsection \<open>The error of rounding\<close>

lemma round_ne_err: "\<bar>real (round_ne a d) * 2 ^ d - real a\<bar> \<le> 2 ^ d / 2"
proof -
  define q where "q = a div 2 ^ d"
  define r where "r = a mod 2 ^ d"
  have "a = q * 2 ^ d + r" unfolding q_def r_def by (rule div_mult_mod_eq [symmetric])
  then have a: "real a = real q * 2 ^ d + real r" by (metis of_nat_add of_nat_mult of_nat_numeral of_nat_power)
  have "r < 2 ^ d" by (simp add: r_def)
  then have "real r < real (2 ^ d)" by (simp only: of_nat_less_iff)
  then have rl: "real r < 2 ^ d" by simp
  show ?thesis
  proof (cases "2 ^ d < 2 * r \<or> (2 * r = 2 ^ d \<and> odd q)")
    case True
    then have up: "round_ne a d = q + 1" by (simp add: round_ne_def Let_def q_def r_def)
    have "2 ^ d \<le> 2 * r" using True by auto
    then have "real (2 ^ d) \<le> real (2 * r)" by (simp only: of_nat_le_iff)
    then have "2 ^ d \<le> 2 * real r" by simp
    then show ?thesis using rl by (simp add: up a algebra_simps)
  next
    case False
    then have dn: "round_ne a d = q" by (simp add: round_ne_def Let_def q_def r_def)
    have "2 * r \<le> 2 ^ d" using False by auto
    then have "real (2 * r) \<le> real (2 ^ d)" by (simp only: of_nat_le_iff)
    then have "2 * real r \<le> 2 ^ d" by simp
    then show ?thesis by (simp add: dn a)
  qed
qed

lemma powr_int_add_nat: "(2::real) powr (real_of_int e + real d) = 2 powr real_of_int e * 2 ^ d"
  by (simp add: powr_add powr_realpow)

lemma fp_round_err:
  assumes a: "0 < a" and r: "fp_round mb eb a e = (s, q)"
  shows "\<bar>real s * 2 powr real_of_int q - real a * 2 powr real_of_int e\<bar> \<le>
           2 powr real_of_int (fp_quantum mb eb a e) / 2"
proof -
  define q0 where "q0 = fp_quantum mb eb a e"
  define s0 where "s0 = (if q0 \<le> e then a * 2 ^ nat (e - q0) else round_ne a (nat (q0 - e)))"
  have rr: "fp_round mb eb a e = (if s0 = 2 ^ Suc mb then (2 ^ mb, q0 + 1) else (s0, q0))"
    by (simp add: fp_round_def Let_def q0_def s0_def)
  have v: "real s * 2 powr real_of_int q = real s0 * 2 powr real_of_int q0"
  proof (cases "s0 = 2 ^ Suc mb")
    case True
    then have "s = 2 ^ mb" "q = q0 + 1" using r rr by simp_all
    then show ?thesis using True by (simp add: powr_add)
  next
    case False
    then show ?thesis using r rr by simp
  qed
  have "\<bar>real s0 * 2 powr real_of_int q0 - real a * 2 powr real_of_int e\<bar> \<le> 2 powr real_of_int q0 / 2"
  proof (cases "q0 \<le> e")
    case True
    define k where "k = nat (e - q0)"
    have e: "e = q0 + int k" using True by (simp add: k_def)
    have "real s0 * 2 powr real_of_int q0 = real a * 2 powr real_of_int e"
      using True by (simp add: s0_def k_def [symmetric] e powr_int_add_nat)
    then show ?thesis by simp
  next
    case False
    define d where "d = nat (q0 - e)"
    have q: "q0 = e + int d" using False by (simp add: d_def)
    have s0: "s0 = round_ne a d" using False by (simp add: s0_def d_def)
    have "real s0 * 2 powr real_of_int q0 - real a * 2 powr real_of_int e =
          (real (round_ne a d) * 2 ^ d - real a) * 2 powr real_of_int e"
      by (simp add: s0 q powr_int_add_nat algebra_simps)
    then have "\<bar>real s0 * 2 powr real_of_int q0 - real a * 2 powr real_of_int e\<bar> =
          \<bar>real (round_ne a d) * 2 ^ d - real a\<bar> * 2 powr real_of_int e"
      by (simp add: abs_mult)
    also have "\<dots> \<le> 2 ^ d / 2 * 2 powr real_of_int e"
      by (rule mult_right_mono [OF round_ne_err]) simp
    also have "\<dots> = 2 powr real_of_int q0 / 2" by (simp add: q powr_int_add_nat)
    finally show ?thesis .
  qed
  then show ?thesis using v by (simp add: q0_def)
qed

lemma round_ne_ge: "2 ^ m * 2 ^ d \<le> a \<Longrightarrow> 2 ^ m \<le> round_ne a d"
proof -
  assume "2 ^ m * 2 ^ d \<le> a"
  then have "2 ^ m * 2 ^ d div 2 ^ d \<le> a div 2 ^ d" by (rule div_le_mono)
  then have "2 ^ m \<le> a div 2 ^ d" by simp
  then show ?thesis by (simp add: round_ne_def Let_def)
qed

lemma fp_round_sub:
  assumes a: "0 < a" and r: "fp_round mb eb a e = (s, q)" and s: "s < 2 ^ mb"
  shows "q = 1 - int (fp_bias eb) - int mb \<and> fp_quantum mb eb a e = q"
proof -
  define q0 where "q0 = fp_quantum mb eb a e"
  define s0 where "s0 = (if q0 \<le> e then a * 2 ^ nat (e - q0) else round_ne a (nat (q0 - e)))"
  have rr: "fp_round mb eb a e = (if s0 = 2 ^ Suc mb then (2 ^ mb, q0 + 1) else (s0, q0))"
    by (simp add: fp_round_def Let_def q0_def s0_def)
  have nc: "s0 \<noteq> 2 ^ Suc mb" using rr r s by (auto split: if_splits)
  then have sq: "s = s0" "q = q0" using rr r by simp_all
  define L where "L = bit_len a"
  note b = bit_len_bounds [OF a, folded L_def]
  have L0: "0 < L" using b by (cases L) auto
  have "q0 = 1 - int (fp_bias eb) - int mb"
  proof (rule ccontr)
    assume ne: "q0 \<noteq> 1 - int (fp_bias eb) - int mb"
    then have q0: "q0 = int L - 1 + e - int mb" by (simp add: q0_def fp_quantum_def L_def max_def split: if_splits)
    have "2 ^ mb \<le> s0"
    proof (cases "q0 \<le> e")
      case True
      then have "s0 = a * 2 ^ nat (e - q0)" by (simp add: s0_def)
      moreover have "L - 1 + nat (e - q0) = mb" using True q0 L0 by simp
      then have "(2::nat) ^ mb = 2 ^ (L - 1) * 2 ^ nat (e - q0)" by (simp add: power_add [symmetric])
      ultimately show ?thesis using b by simp
    next
      case False
      then have s0: "s0 = round_ne a (nat (q0 - e))" by (simp add: s0_def)
      have "mb + nat (q0 - e) = L - 1" using False q0 L0 by simp
      then have "(2::nat) ^ mb * 2 ^ nat (q0 - e) = 2 ^ (L - 1)" by (simp add: power_add [symmetric])
      then show ?thesis using b s0 round_ne_ge [of mb "nat (q0 - e)" a] by simp
    qed
    then show False using s sq by simp
  qed
  then show ?thesis using sq by (simp add: q0_def)
qed

lemma fp_round_quantum: "0 < a \<Longrightarrow> fp_round mb eb a e = (s, q) \<Longrightarrow> fp_quantum mb eb a e \<le> q"
  by (auto simp: fp_round_def Let_def split: if_splits)

lemma fp_encode_round_value:
  assumes a: "0 < a" and r: "fp_round mb eb a e = (s, q)"
    and ov: "q + int mb + int (fp_bias eb) < 2 ^ eb - 1"
  shows "fp_valof mb eb (fp_encode mb eb neg a e) = fp_dyadic neg s q"
proof (cases "s < 2 ^ mb")
  case True
  note sub = fp_round_sub [OF a r True]
  then show ?thesis using fp_encode_round [OF a r, of neg] True
    by (simp add: fp_valof_decode fp_decode_def)
next
  case False
  have qge: "1 - int (fp_bias eb) - int mb \<le> q"
    using fp_round_quantum [OF a r] by (simp add: fp_quantum_def)
  then have pos: "0 < q + int mb + int (fp_bias eb)" by linarith
  have nb: "\<not> 2 ^ eb - 1 \<le> q + int mb + int (fp_bias eb)" using ov by linarith
  have "int (nat (q + int mb + int (fp_bias eb))) - int (fp_bias eb) - int mb = q" using pos by simp
  then show ?thesis using fp_encode_round [OF a r, of neg] False nb pos
    by (simp add: fp_valof_decode fp_decode_def)
qed

lemma fp_round_quantum_le: "fp_round mb eb a e = (s, q) \<Longrightarrow> q \<le> fp_quantum mb eb a e + 1"
  by (auto simp: fp_round_def Let_def split: if_splits)

lemma fp_dyadic_diff: "\<bar>fp_dyadic neg s q - fp_dyadic neg a e\<bar> = \<bar>real s * 2 powr real_of_int q - real a * 2 powr real_of_int e\<bar>"
proof (cases neg)
  case True
  then show ?thesis by (simp add: fp_dyadic_def abs_minus_commute)
next
  case False
  then show ?thesis by (simp add: fp_dyadic_def)
qed

lemma fp_encode_int_err:
  assumes b: "1 \<le> fp_bias eb" and a: "0 < a" and L: "int (bit_len a) + int (fp_bias eb) < 2 ^ eb - 1"
  shows "\<bar>fp_valof mb eb (fp_encode mb eb neg a 0) - fp_dyadic neg a 0\<bar> \<le> real a / 2 ^ Suc mb"
proof -
  obtain s q where r: "fp_round mb eb a 0 = (s, q)" by (cases "fp_round mb eb a 0")
  define L where "L = bit_len a"
  note bl = bit_len_bounds [OF a, folded L_def]
  have L0: "0 < L" using bl by (cases L) auto
  have q0: "fp_quantum mb eb a 0 = int L - 1 - int mb" using b L0 by (simp add: fp_quantum_def L_def)
  have "q \<le> int L - int mb" using fp_round_quantum_le [OF r] q0 by simp
  then have ov: "q + int mb + int (fp_bias eb) < 2 ^ eb - 1" using L by (simp add: L_def)
  have v: "fp_valof mb eb (fp_encode mb eb neg a 0) = fp_dyadic neg s q"
    by (rule fp_encode_round_value [OF a r ov])
  have e: "\<bar>real s * 2 powr real_of_int q - real a * 2 powr real_of_int 0\<bar> \<le> 2 powr real_of_int (int L - 1 - int mb) / 2"
    using fp_round_err [OF a r] q0 by simp
  have "(2::real) powr real_of_int (int L - 1 - int mb) / 2 = 2 ^ (L - 1) / 2 ^ Suc mb"
  proof -
    have "real_of_int (int L - 1 - int mb) = real (L - 1) - real (Suc mb) + 1" using L0 by simp
    then have "(2::real) powr real_of_int (int L - 1 - int mb) = 2 powr real (L - 1) / 2 powr real (Suc mb) * 2 powr 1"
      by (simp only: powr_add powr_diff)
    also have "\<dots> = 2 ^ (L - 1) / 2 ^ Suc mb * 2" by (simp only: powr_realpow zero_less_numeral powr_one_gt_zero_iff) simp
    finally show ?thesis by simp
  qed
  also have "\<dots> \<le> real a / 2 ^ Suc mb"
  proof -
    have "2 ^ (L - 1) \<le> a" using bl by simp
    then have "real (2 ^ (L - 1)) \<le> real a" by (simp only: of_nat_le_iff)
    then show ?thesis by (simp add: divide_right_mono)
  qed
  finally show ?thesis using v e fp_dyadic_diff [of neg s q a 0] by simp
qed

lemma fp_encode_int_rel:
  assumes b: "1 \<le> fp_bias eb" and n: "\<bar>n\<bar> \<le> 2 ^ 64" and L: "65 + int (fp_bias eb) < 2 ^ eb - 1"
  shows "\<bar>fp_valof mb eb (fp_encode mb eb (n < 0) (nat \<bar>n\<bar>) 0) - of_int n\<bar> \<le> \<bar>of_int n\<bar> / 2 ^ Suc mb"
proof (cases "n = 0")
  case True
  then show ?thesis by (simp add: fp_encode_zero fp_valof_def)
next
  case False
  have "nat \<bar>n\<bar> < 2 ^ 65" using n by (simp add: nat_less_iff)
  then have "bit_len (nat \<bar>n\<bar>) \<le> 65" by (rule bit_len_less)
  then have l: "int (bit_len (nat \<bar>n\<bar>)) + int (fp_bias eb) < 2 ^ eb - 1" using L by linarith
  have d: "fp_dyadic (n < 0) (nat \<bar>n\<bar>) 0 = of_int n" by (simp add: fp_dyadic_def)
  show ?thesis using fp_encode_int_err [OF b _ l, of mb "n < 0"] False d by simp
qed

subsection \<open>Exactness of the C conversions\<close>

lemma float_fields_pack: "fp_fields_ok 23 8 g \<Longrightarrow> float_fields (of_nat (fp_pack 23 8 g)) = g"
  using fp_pack_less [of 23 8 g] by (simp add: float_fields_def unat_of_nat fp_unpack_pack)

lemma double_fields_pack: "fp_fields_ok 52 11 g \<Longrightarrow> double_fields (of_nat (fp_pack 52 11 g)) = g"
  using fp_pack_less [of 52 11 g] by (simp add: double_fields_def unat_of_nat fp_unpack_pack)

lemma float_pack_fields: "of_nat (fp_pack 23 8 (float_fields x)) = x"
proof -
  have "unat x < 2 ^ Suc (23 + 8)" using unsigned_less [of x] by simp
  then show ?thesis by (simp add: float_fields_def fp_pack_unpack)
qed

lemma double_pack_fields: "of_nat (fp_pack 52 11 (double_fields x)) = x"
proof -
  have "unat x < 2 ^ Suc (52 + 11)" using unsigned_less [of x] by simp
  then show ?thesis by (simp add: double_fields_def fp_pack_unpack)
qed

lemma double_fields_of_float: "double_fields (double_of_float x) = fp_convert 23 8 52 11 (float_fields x)"
  by (simp add: double_of_float_def double_fields_pack fp_convert_ok)

lemma float_fields_of_double: "float_fields (float_of_double y) = fp_convert 52 11 23 8 (double_fields y)"
  by (simp add: float_of_double_def float_fields_pack fp_convert_ok)

lemma float_fields_ok: "fp_fields_ok 23 8 (float_fields x)"
  by (simp add: float_fields_def fp_unpack_ok)

lemma float_double_float: "\<not> fp_is_nan 23 8 (float_fields x) \<Longrightarrow> float_of_double (double_of_float x) = x"
proof -
  assume nn: "\<not> fp_is_nan 23 8 (float_fields x)"
  have "fp_convert 52 11 23 8 (fp_convert 23 8 52 11 (float_fields x)) = float_fields x"
    by (rule fp_convert_roundtrip [OF float_fields_ok nn]) (simp_all add: fp_bias_def)
  then show ?thesis by (simp add: float_of_double_def double_fields_of_float float_pack_fields)
qed

lemma double_of_float_value: "fp_is_finite 23 8 (float_fields x) \<Longrightarrow> double_value (double_of_float x) = float_value x"
  unfolding double_value_def float_value_def double_fields_of_float
  by (rule fp_convert_value) (simp_all add: fp_bias_def)

lemma fp_encode_int:
  assumes "0 < mb" "nat \<bar>n\<bar> \<le> 2 ^ Suc mb" "1 + int mb + int (fp_bias eb) < 2 ^ eb - 1"
  shows "fp_valof mb eb (fp_encode mb eb (n < 0) (nat \<bar>n\<bar>) 0) = of_int n"
proof (cases "n = 0")
  case True
  then show ?thesis by (simp add: fp_encode_zero fp_valof_def)
next
  case False
  then have "fp_valof mb eb (fp_encode mb eb (n < 0) (nat \<bar>n\<bar>) 0) = fp_dyadic (n < 0) (nat \<bar>n\<bar>) 0"
    using assms by (intro fp_encode_int_value) simp_all
  then show ?thesis by (simp add: fp_dyadic_def)
qed

lemma float_of_int_value: "\<bar>n\<bar> \<le> 2 ^ 24 \<Longrightarrow> float_value (float_of_int n) = of_int n"
proof -
  assume n: "\<bar>n\<bar> \<le> 2 ^ 24"
  have "nat \<bar>n\<bar> \<le> 2 ^ Suc 23" using n by (simp add: nat_le_iff)
  then show ?thesis using fp_encode_int [of 23 n 8]
    by (simp add: float_value_def float_of_int_def float_fields_pack fp_encode_ok fp_bias_def)
qed

lemma double_of_int_value: "\<bar>n\<bar> \<le> 2 ^ 53 \<Longrightarrow> double_value (double_of_int n) = of_int n"
proof -
  assume n: "\<bar>n\<bar> \<le> 2 ^ 53"
  have "nat \<bar>n\<bar> \<le> 2 ^ Suc 52" using n by (simp add: nat_le_iff)
  then show ?thesis using fp_encode_int [of 52 n 11]
    by (simp add: double_value_def double_of_int_def double_fields_pack fp_encode_ok fp_bias_def)
qed


text \<open>
  Every integer of at most 64 bits converts with a relative error of at most
  half an ulp: \<open>2\<^sup>-\<^sup>2\<^sup>4\<close> for \<open>float\<close>, \<open>2\<^sup>-\<^sup>5\<^sup>3\<close> for \<open>double\<close>.
\<close>

lemma float_of_int_err: "\<bar>n\<bar> \<le> 2 ^ 64 \<Longrightarrow> \<bar>float_value (float_of_int n) - of_int n\<bar> \<le> \<bar>of_int n\<bar> / 2 ^ 24"
  using fp_encode_int_rel [of 8 n 23]
  by (simp add: float_value_def float_of_int_def float_fields_pack fp_encode_ok fp_bias_def)

lemma double_of_int_err: "\<bar>n\<bar> \<le> 2 ^ 64 \<Longrightarrow> \<bar>double_value (double_of_int n) - of_int n\<bar> \<le> \<bar>of_int n\<bar> / 2 ^ 53"
  using fp_encode_int_rel [of 11 n 52]
  by (simp add: double_value_def double_of_int_def double_fields_pack fp_encode_ok fp_bias_def)

text \<open>
  Past \<open>2\<^sup>2\<^sup>4\<close> (for \<open>float\<close>) and \<open>2\<^sup>5\<^sup>3\<close> (for
  \<open>double\<close>) the conversion of an integer rounds: the next integer is not
  representable and converts to its even neighbour.
\<close>

lemma float_of_int_rounds:
  "float_of_int 16777217 = float_of_int 16777216 \<and> float_value (float_of_int 16777217) = 16777216 \<and>
   double_of_int 9007199254740993 = double_of_int 9007199254740992"
proof -
  have "float_value (float_of_int 16777216) = 16777216" using float_of_int_value [of 16777216] by simp
  moreover have "float_of_int 16777217 = float_of_int 16777216" by (simp add: fp_simps)
  moreover have "double_of_int 9007199254740993 = double_of_int 9007199254740992" by (simp add: fp_simps)
  ultimately show ?thesis by simp
qed

end
