(* ===== verification/Result.thy ===== *)
theory Result
  imports Exception Column Datetime Ieee754
begin

text \<open>
  The result engine \<open>mysqlpp::result\<close> (src/mysqlpp.hpp, lines 136-210).
  The header gives its state (lines 202-209) and the two \<open>get<T>\<close>
  templates (lines 146-174); the bodies of \<open>bind\<close>, \<open>fetch\<close>,
  \<open>num_rows\<close>, \<open>get_column\<close>, \<open>is_null\<close> and the \<open>fetch_column\<close>
  conversions are not part of the sources and follow the specification
  (section 4.3). The prepared statement handle of the client library is the
  record \<open>st_mysql_stmt\<close>: the field metadata of its result set, the rows
  the server has not yet delivered, the row count of the buffered set, and
  whether a stored procedure's trailing status result is still pending.
  The binds the library writes through point into the columns: bind \<open>i\<close>
  describes the buffer of column \<open>i\<close>, so a fetch updates the column list
  at the position of the bind.
\<close>

subsection \<open>The client library's view of a statement's result set\<close>

datatype cell = Cell_null | Cell_val "8 word list"

record field_meta =
  fm_type :: enum_field_types
  fm_name :: string
  fm_unsigned :: bool

record st_mysql_stmt =
  st_fields :: "field_meta list"
  st_rows :: "cell list list"
  st_row_count :: nat
  st_pending_status :: bool

record st_mysql_bind =
  bind_buffer_type :: enum_field_types
  bind_buffer_length :: "64 word"
  bind_is_unsigned :: "8 word"

subsection \<open>State\<close>

text \<open>Lines 202-209: the statement, its metadata and fields, the field count, the binds and the columns.\<close>

record result =
  res_stmt :: st_mysql_stmt
  res_fields :: "field_meta list"
  res_field_count :: uint32
  res_binds :: "st_mysql_bind list"
  res_columns :: "st_mysql_column list"

definition result_new :: "st_mysql_stmt \<Rightarrow> result" where
  "result_new stmt = \<lparr>res_stmt = stmt, res_fields = [], res_field_count = 0, res_binds = [], res_columns = []\<rparr>"

subsection \<open>\<open>bind()\<close>: metadata discovery\<close>

definition column_of :: "field_meta \<Rightarrow> st_mysql_column" where
  "column_of f =
     (st_mysql_column_new (fm_type f))\<lparr>col_name := fm_name f,
        col_buffer := replicate (initial_buffer_size (fm_type f)) 0,
        col_is_unsigned := (if fm_unsigned f then 1 else 0)\<rparr>"

definition bind_of :: "st_mysql_column \<Rightarrow> st_mysql_bind" where
  "bind_of c =
     \<lparr>bind_buffer_type = col_type c, bind_buffer_length = of_nat (length (col_buffer c)),
      bind_is_unsigned = col_is_unsigned c\<rparr>"

text \<open>Without result-set metadata (a statement that returns no rows) there is nothing to bind.\<close>

definition result_bind :: "result \<Rightarrow> bool \<times> result" where
  "result_bind r =
     (let fs = st_fields (res_stmt r)
      in if fs = [] then (False, r)
         else (let cols = map column_of fs
               in (True, r\<lparr>res_fields := fs, res_field_count := of_nat (length fs),
                            res_columns := cols, res_binds := map bind_of cols\<rparr>)))"

subsection \<open>\<open>fetch()\<close>: the two-phase fetch of a row\<close>

text \<open>
  \<open>mysql_stmt_fetch\<close> on one column: a null value sets the null flag; a
  value is copied into the buffer up to the bind's capacity, its true length
  reported, and the error flag set when it did not fit.
\<close>

definition fetch_cell :: "st_mysql_bind \<Rightarrow> cell \<Rightarrow> st_mysql_column \<Rightarrow> st_mysql_column" where
  "fetch_cell b v c =
     (case v of
        Cell_null \<Rightarrow> c\<lparr>col_is_null := 1\<rparr>
      | Cell_val bs \<Rightarrow>
          (let cap = unat (bind_buffer_length b)
           in c\<lparr>col_is_null := 0, col_length := of_nat (length bs),
                col_buffer := take cap bs @ drop (min cap (length bs)) (col_buffer c),
                col_error := (if cap < length bs then 1 else 0)\<rparr>))"

text \<open>
  The second phase for one column: when the value was truncated, the buffer is
  resized to the reported length (\<open>std::vector::resize\<close> keeps the prefix and
  zero-fills), the bind re-pointed at it, and the column fetched again with
  \<open>mysql_stmt_fetch_column\<close>.
\<close>

definition resize :: "nat \<Rightarrow> 8 word list \<Rightarrow> 8 word list" where
  "resize n xs = take n xs @ replicate (n - length xs) 0"

definition refetch_column :: "cell \<Rightarrow> st_mysql_column \<Rightarrow> st_mysql_bind \<Rightarrow> st_mysql_column \<times> st_mysql_bind" where
  "refetch_column v c b =
     (if col_error c = 0 then (c, b)
      else (let c1 = c\<lparr>col_buffer := resize (unat (col_length c)) (col_buffer c)\<rparr>;
                b1 = b\<lparr>bind_buffer_length := col_length c\<rparr>
            in (fetch_cell b1 v c1, b1)))"

definition fetch_row :: "cell list \<Rightarrow> result \<Rightarrow> result" where
  "fetch_row vs r =
     (let cols = map (\<lambda>((b, v), c). fetch_cell b v c) (zip (zip (res_binds r) vs) (res_columns r));
          fixed = map (\<lambda>((v, c), b). refetch_column v c b) (zip (zip vs cols) (res_binds r))
      in r\<lparr>res_columns := map fst fixed, res_binds := map snd fixed\<rparr>)"

text \<open>
  \<open>fetch_stmt_result\<close>: the next row, or \<open>false\<close> at the end.
  \<open>fetch_proc_result\<close>: the same, and at the end the trailing status result
  of a stored procedure is drained with \<open>mysql_stmt_next_result\<close>.
\<close>

definition fetch_stmt_result :: "result \<Rightarrow> bool \<times> result" where
  "fetch_stmt_result r =
     (case st_rows (res_stmt r) of
        [] \<Rightarrow> (False, r)
      | vs # rest \<Rightarrow> (True, fetch_row vs (r\<lparr>res_stmt := (res_stmt r)\<lparr>st_rows := rest\<rparr>\<rparr>)))"

definition fetch_proc_result :: "result \<Rightarrow> bool \<times> result" where
  "fetch_proc_result r =
     (case st_rows (res_stmt r) of
        [] \<Rightarrow> (False, r\<lparr>res_stmt := (res_stmt r)\<lparr>st_pending_status := False\<rparr>\<rparr>)
      | vs # rest \<Rightarrow> (True, fetch_row vs (r\<lparr>res_stmt := (res_stmt r)\<lparr>st_rows := rest\<rparr>\<rparr>)))"

definition result_fetch :: "bool \<Rightarrow> result \<Rightarrow> bool \<times> result" where
  "result_fetch is_proc r = (if is_proc then fetch_proc_result r else fetch_stmt_result r)"

text \<open>\<open>num_rows()\<close>: the row count of the buffered result set, as \<open>unsigned long long\<close>.\<close>

definition result_num_rows :: "result \<Rightarrow> 64 word" where
  "result_num_rows r = of_nat (st_row_count (res_stmt r))"

subsection \<open>Column lookup and the \<open>get<T>\<close> templates\<close>

text \<open>
  \<open>get_column(index)\<close>: the column at a 0-based ordinal. An ordinal past the
  last column is reported as \<open>NotFoundError\<close>, the specification's error
  for an absent column.
\<close>

definition get_column_index :: "result \<Rightarrow> uint32 \<Rightarrow> error + st_mysql_column" where
  "get_column_index r index =
     (if unat index < length (res_columns r) then Inr (res_columns r ! unat index) else Inl (Failed NotFoundError))"

text \<open>Lookup by name (\<open>get_column(const std::string&)\<close>, line 200). The result
  declares no name index (lines 202-209), so the columns are searched in order on each
  call; the first column of that name wins, as the specification asks of its index.\<close>

fun column_index :: "string \<Rightarrow> st_mysql_column list \<Rightarrow> nat option" where
  "column_index n [] = None"
| "column_index n (c # cs) = (if col_name c = n then Some 0 else map_option Suc (column_index n cs))"

definition get_column_name :: "result \<Rightarrow> string \<Rightarrow> error + st_mysql_column" where
  "get_column_name r name =
     (case column_index name (res_columns r) of
        None \<Rightarrow> Inl (Failed NotFoundError)
      | Some i \<Rightarrow> Inr (res_columns r ! i))"

text \<open>
  \<open>get<T>(index)\<close> (lines 146-159) and \<open>get<T>(name)\<close> (lines 161-174),
  for the \<open>fetch_column\<close> overload of \<open>T\<close> and the value \<open>T()\<close>.
\<close>

definition get_index :: "(st_mysql_column \<Rightarrow> 'a \<Rightarrow> 'a) \<Rightarrow> 'a \<Rightarrow> result \<Rightarrow> uint32 \<Rightarrow> error + 'a" where
  "get_index fetch_column dflt r index =
     (case get_column_index r index of
        Inl e \<Rightarrow> Inl e
      | Inr column \<Rightarrow>
          if col_is_null column \<noteq> 0 then Inl (Raised (exception_new mysqlpp_hpp 152 ''null value field''))
          else Inr (fetch_column column dflt))"

definition get_name :: "(st_mysql_column \<Rightarrow> 'a \<Rightarrow> 'a) \<Rightarrow> 'a \<Rightarrow> result \<Rightarrow> string \<Rightarrow> error + 'a" where
  "get_name fetch_column dflt r name =
     (case get_column_name r name of
        Inl e \<Rightarrow> Inl e
      | Inr column \<Rightarrow>
          if col_is_null column \<noteq> 0 then Inl (Raised (exception_new mysqlpp_hpp 167 ''null value field''))
          else Inr (fetch_column column dflt))"

definition result_is_null_index :: "result \<Rightarrow> uint32 \<Rightarrow> error + bool" where
  "result_is_null_index r index = map_sum id (\<lambda>c. col_is_null c \<noteq> 0) (get_column_index r index)"

definition result_is_null_name :: "result \<Rightarrow> string \<Rightarrow> error + bool" where
  "result_is_null_name r name = map_sum id (\<lambda>c. col_is_null c \<noteq> 0) (get_column_name r name)"

subsection \<open>The \<open>fetch_column\<close> conversions\<close>

text \<open>A little-endian integer of the wire, unsigned.\<close>

fun le_value :: "8 word list \<Rightarrow> nat" where
  "le_value [] = 0"
| "le_value (b # bs) = unat b + 256 * le_value bs"

text \<open>The integer an integer column holds: its bytes read at its width, signed unless flagged unsigned.\<close>

definition column_int :: "nat \<Rightarrow> st_mysql_column \<Rightarrow> int" where
  "column_int w c =
     (let n = int (le_value (take w (col_buffer c)))
      in if col_is_unsigned c \<noteq> 0 \<or> n < 2 ^ (8 * w - 1) then n else n - 2 ^ (8 * w))"

text \<open>
  The integer overloads (\<open>unsigned char\<close> to \<open>unsigned long long\<close>): the
  column's integer truncated or extended to the width of \<open>T\<close>, with no
  overflow check. Other wire kinds leave the value as it was.
\<close>

definition fetch_column_word :: "st_mysql_column \<Rightarrow> 'a::len word \<Rightarrow> 'a word" where
  "fetch_column_word c v =
     (case wire_kind_of (col_type c) of Wire_int w \<Rightarrow> word_of_int (column_int w c) | _ \<Rightarrow> v)"

text \<open>The six \<open>unsigned int\<close> fields at the head of a \<open>MYSQL_TIME\<close>.\<close>

definition mysql_time_datetime :: "8 word list \<Rightarrow> datetime" where
  "mysql_time_datetime bs =
     (let f = (\<lambda>i. of_nat (le_value (take 4 (drop (4 * i) bs))) :: uint32)
      in \<lparr>year = f 0, month = f 1, day = f 2, hour = f 3, minute = f 4, second = f 5\<rparr>)"

text \<open>
  The \<open>std::string\<close> overload: text and blob bytes as they are, integers in
  decimal, date/time values in the timestamp text format (rendered through
  \<open>str()\<close> of the \<open>datetime\<close> of the same fields). The decimal text of
  a float column is not modelled: the specification names no precision or
  notation for it, and the model leaves the value.
\<close>

definition fetch_column_string :: "st_mysql_column \<Rightarrow> string \<Rightarrow> string" where
  "fetch_column_string c v =
     (case wire_kind_of (col_type c) of
        Wire_text \<Rightarrow> map (\<lambda>b. char_of (unat b)) (take (unat (col_length c)) (col_buffer c))
      | Wire_blob \<Rightarrow> map (\<lambda>b. char_of (unat b)) (take (unat (col_length c)) (col_buffer c))
      | Wire_int w \<Rightarrow> dec_int (column_int w c)
      | Wire_time \<Rightarrow> (case datetime_str (breakdown 0) (mysql_time_datetime (col_buffer c)) of Some s \<Rightarrow> s | None \<Rightarrow> v)
      | Wire_float w \<Rightarrow> v)"

text \<open>
  The \<open>float\<close> and \<open>double\<close> overloads (lines 187-188): a numeric cast of
  the column's value. An integer column's integer is converted, rounded to
  nearest; a \<open>FLOAT\<close> column holds the four bytes of a binary32 and a
  \<open>DOUBLE\<close> column holds the eight bytes of a binary64, read as they are and
  widened or narrowed to the requested type. Other wire kinds leave the value.
\<close>

definition fetch_column_float :: "st_mysql_column \<Rightarrow> c_float \<Rightarrow> c_float" where
  "fetch_column_float c v =
     (case wire_kind_of (col_type c) of
        Wire_int w \<Rightarrow> float_of_int (column_int w c)
      | Wire_float w \<Rightarrow>
          if w = 4 then of_nat (le_value (take 4 (col_buffer c)))
          else float_of_double (of_nat (le_value (take 8 (col_buffer c))))
      | _ \<Rightarrow> v)"

definition fetch_column_double :: "st_mysql_column \<Rightarrow> c_double \<Rightarrow> c_double" where
  "fetch_column_double c v =
     (case wire_kind_of (col_type c) of
        Wire_int w \<Rightarrow> double_of_int (column_int w c)
      | Wire_float w \<Rightarrow>
          if w = 4 then double_of_float (of_nat (le_value (take 4 (col_buffer c))))
          else of_nat (le_value (take 8 (col_buffer c)))
      | _ \<Rightarrow> v)"

subsection \<open>Invariant and abstraction of the result state\<close>

text \<open>
  A bind agrees with its column when it describes the column's buffer; the
  state is well formed when every bind agrees with its column, every column
  satisfies the invariant of the specification and none is left truncated.
  \<open>cell_read\<close> is the value a column holds for the current row.
\<close>

definition bind_agrees :: "st_mysql_bind \<Rightarrow> st_mysql_column \<Rightarrow> bool" where
  "bind_agrees b c \<longleftrightarrow>
     unat (bind_buffer_length b) = length (col_buffer c) \<and> bind_buffer_type b = col_type c \<and>
     bind_is_unsigned b = col_is_unsigned c"

definition result_wf :: "result \<Rightarrow> bool" where
  "result_wf r \<longleftrightarrow>
     list_all2 bind_agrees (res_binds r) (res_columns r) \<and> list_all column_ok (res_columns r) \<and>
     list_all (\<lambda>c. col_error c = 0) (res_columns r)"

definition cell_fits :: "cell \<Rightarrow> bool" where
  "cell_fits v \<longleftrightarrow> (case v of Cell_null \<Rightarrow> True | Cell_val bs \<Rightarrow> length bs < 2 ^ 64)"

definition cell_read :: "st_mysql_column \<Rightarrow> cell" where
  "cell_read c = (if col_is_null c \<noteq> 0 then Cell_null else Cell_val (take (unat (col_length c)) (col_buffer c)))"

definition rows_fit :: "result \<Rightarrow> bool" where
  "rows_fit r \<longleftrightarrow>
     list_all (\<lambda>vs. length vs = length (res_columns r) \<and> list_all cell_fits vs) (st_rows (res_stmt r))"

text \<open>A caller's loop of \<open>k\<close> calls of \<open>fetch(is_proc)\<close>: what each call returned, and the rows read after the successful ones.\<close>

fun fetch_loop :: "bool \<Rightarrow> nat \<Rightarrow> result \<Rightarrow> bool list \<times> cell list list" where
  "fetch_loop p 0 r = ([], [])"
| "fetch_loop p (Suc k) r =
     (case result_fetch p r of
        (b, r') \<Rightarrow> (case fetch_loop p k r' of
                      (bs, rows) \<Rightarrow> (b # bs, if b then map cell_read (res_columns r') # rows else rows)))"

text \<open>
  The caller's loop \<open>while (res->fetch()) { ... }\<close> of the
  specification (section 8): it calls \<open>fetch(is_proc)\<close> until it returns
  false and collects the row read after each successful call. Nothing in its
  shape bounds the number of iterations, so it is a partial function in the
  option monad: a loop that never ends is the value \<open>None\<close>.
\<close>

partial_function (option) fetch_until_end :: "bool \<Rightarrow> result \<Rightarrow> (cell list list \<times> result) option" where
  "fetch_until_end p r =
     (case result_fetch p r of
        (b, r') \<Rightarrow>
          if b then Option.bind (fetch_until_end p r')
                      (\<lambda>(rows, r''). Some (map cell_read (res_columns r') # rows, r''))
          else Some ([], r'))"

text \<open>
  The abstract row cursor the specification describes: the rows still to
  come and the current row. \<open>result_abs\<close> reads it off the concrete state.
\<close>

type_synonym cursor = "cell list list \<times> cell list"

definition result_abs :: "result \<Rightarrow> cursor" where
  "result_abs r = (st_rows (res_stmt r), map cell_read (res_columns r))"

definition cursor_fetch :: "cursor \<Rightarrow> bool \<times> cursor" where
  "cursor_fetch c = (case fst c of [] \<Rightarrow> (False, c) | v # rest \<Rightarrow> (True, (rest, v)))"

text \<open>The wire encoding of an unsigned number in \<open>w\<close> little-endian bytes.\<close>

fun le_bytes :: "nat \<Rightarrow> nat \<Rightarrow> 8 word list" where
  "le_bytes 0 n = []"
| "le_bytes (Suc w) n = of_nat (n mod 256) # le_bytes w (n div 256)"

text \<open>The wire layout of a \<open>MYSQL_TIME\<close> holding the fields of a datetime.\<close>

definition mysql_time_bytes :: "datetime \<Rightarrow> 8 word list" where
  "mysql_time_bytes dt =
     le_bytes 4 (unat (year dt)) @ le_bytes 4 (unat (month dt)) @ le_bytes 4 (unat (day dt)) @
     le_bytes 4 (unat (hour dt)) @ le_bytes 4 (unat (minute dt)) @ le_bytes 4 (unat (second dt)) @
     replicate 16 0"

lemma length_resize [simp]: "length (resize n xs) = n"
  by (simp add: resize_def)

lemma unat_of_nat_64: "n < 2 ^ 64 \<Longrightarrow> unat (of_nat n :: 64 word) = n"
  by (simp add: unat_of_nat)

lemma fetch_cell_fits:
  assumes "length bs \<le> unat (bind_buffer_length b)" "unat (bind_buffer_length b) = length (col_buffer c)" "length bs < 2 ^ 64"
  shows "cell_read (fetch_cell b (Cell_val bs) c) = Cell_val bs \<and> col_error (fetch_cell b (Cell_val bs) c) = 0 \<and>
    length (col_buffer (fetch_cell b (Cell_val bs) c)) = length (col_buffer c) \<and>
    column_ok (fetch_cell b (Cell_val bs) c)"
  using assms by (simp add: fetch_cell_def cell_read_def column_ok_def unat_of_nat_64 Let_def)

lemma fetch_refetch:
  assumes "bind_agrees b c" "col_error c = 0" "cell_fits v"
  shows "cell_read (fst (refetch_column v (fetch_cell b v c) b)) = v \<and>
    bind_agrees (snd (refetch_column v (fetch_cell b v c) b)) (fst (refetch_column v (fetch_cell b v c) b)) \<and>
    column_ok (fst (refetch_column v (fetch_cell b v c) b)) \<and>
    col_error (fst (refetch_column v (fetch_cell b v c) b)) = 0 \<and>
    col_name (fst (refetch_column v (fetch_cell b v c) b)) = col_name c \<and>
    col_type (fst (refetch_column v (fetch_cell b v c) b)) = col_type c"
proof (cases v)
  case Cell_null
  then show ?thesis using assms
    by (simp add: fetch_cell_def refetch_column_def cell_read_def column_ok_def bind_agrees_def)
next
  case (Cell_val bs)
  have bl: "length bs < 2 ^ 64" using assms(3) Cell_val by (simp add: cell_fits_def)
  show ?thesis
  proof (cases "length bs \<le> unat (bind_buffer_length b)")
    case True
    then show ?thesis using assms(1) bl Cell_val fetch_cell_fits [OF True _ bl, of c]
      by (simp add: refetch_column_def bind_agrees_def) (simp add: fetch_cell_def Let_def)
  next
    case False
    define c1 where "c1 = fetch_cell b v c\<lparr>col_buffer := resize (length bs) (col_buffer (fetch_cell b v c))\<rparr>"
    define b1 where "b1 = b\<lparr>bind_buffer_length := of_nat (length bs)\<rparr>"
    have e: "col_error (fetch_cell b v c) \<noteq> 0" "col_length (fetch_cell b v c) = of_nat (length bs)"
      using False Cell_val by (simp_all add: fetch_cell_def Let_def)
    have r: "refetch_column v (fetch_cell b v c) b = (fetch_cell b1 v c1, b1)"
      using e bl by (simp add: refetch_column_def c1_def b1_def unat_of_nat_64 Let_def)
    have ub: "unat (bind_buffer_length b1) = length bs" by (simp add: b1_def unat_of_nat_64 [OF bl])
    have lc: "unat (bind_buffer_length b1) = length (col_buffer c1)" by (simp add: ub c1_def)
    show ?thesis
      using fetch_cell_fits [of bs b1 c1] ub lc bl assms(1) Cell_val r
      by (simp add: bind_agrees_def b1_def c1_def) (simp add: fetch_cell_def Let_def)
  qed
qed

lemma fetch_row_nth:
  assumes "length (res_binds r) = length (res_columns r)" "length vs = length (res_columns r)"
  shows "length (res_columns (fetch_row vs r)) = length (res_columns r)"
    "length (res_binds (fetch_row vs r)) = length (res_columns r)"
    "i < length (res_columns r) \<Longrightarrow> res_columns (fetch_row vs r) ! i =
       fst (refetch_column (vs ! i) (fetch_cell (res_binds r ! i) (vs ! i) (res_columns r ! i)) (res_binds r ! i))"
    "i < length (res_columns r) \<Longrightarrow> res_binds (fetch_row vs r) ! i =
       snd (refetch_column (vs ! i) (fetch_cell (res_binds r ! i) (vs ! i) (res_columns r ! i)) (res_binds r ! i))"
  using assms by (simp_all add: fetch_row_def Let_def)

lemma fetch_row_other [simp]:
  "res_stmt (fetch_row vs r) = res_stmt r" "res_fields (fetch_row vs r) = res_fields r"
  "res_field_count (fetch_row vs r) = res_field_count r"
  by (simp_all add: fetch_row_def Let_def)

lemma fetch_row_correct:
  assumes "result_wf r" "length vs = length (res_columns r)" "list_all cell_fits vs"
  shows "result_wf (fetch_row vs r) \<and> map cell_read (res_columns (fetch_row vs r)) = vs \<and>
    map col_name (res_columns (fetch_row vs r)) = map col_name (res_columns r) \<and>
    map col_type (res_columns (fetch_row vs r)) = map col_type (res_columns r)"
proof -
  have lb: "length (res_binds r) = length (res_columns r)"
    using assms(1) unfolding result_wf_def by (blast dest: list_all2_lengthD)
  note n = fetch_row_nth [OF lb assms(2)]
  have each: "\<And>i. i < length (res_columns r) \<Longrightarrow>
      cell_read (res_columns (fetch_row vs r) ! i) = vs ! i \<and>
      bind_agrees (res_binds (fetch_row vs r) ! i) (res_columns (fetch_row vs r) ! i) \<and>
      column_ok (res_columns (fetch_row vs r) ! i) \<and> col_error (res_columns (fetch_row vs r) ! i) = 0 \<and>
      col_name (res_columns (fetch_row vs r) ! i) = col_name (res_columns r ! i) \<and>
      col_type (res_columns (fetch_row vs r) ! i) = col_type (res_columns r ! i)"
  proof -
    fix i assume i: "i < length (res_columns r)"
    have "bind_agrees (res_binds r ! i) (res_columns r ! i)" "col_error (res_columns r ! i) = 0" "cell_fits (vs ! i)"
      using assms i by (simp_all add: result_wf_def list_all2_conv_all_nth list_all_length)
    then show "?thesis i" using fetch_refetch n(3,4) [OF i] by simp
  qed
  show ?thesis
    using each n(1,2) assms(2)
    by (simp add: result_wf_def list_all2_conv_all_nth list_all_length list_eq_iff_nth_eq)
qed

lemma initial_buffer_size_le: "initial_buffer_size t \<le> 40"
  by (cases t) (simp_all add: initial_buffer_size_def mysql_time_size_def)

lemma result_bind_ok:
  assumes "st_fields (res_stmt r) \<noteq> []"
  shows "fst (result_bind r) \<and> result_wf (snd (result_bind r)) \<and>
    map col_name (res_columns (snd (result_bind r))) = map fm_name (st_fields (res_stmt r)) \<and>
    map col_type (res_columns (snd (result_bind r))) = map fm_type (st_fields (res_stmt r)) \<and>
    map (\<lambda>c. length (col_buffer c)) (res_columns (snd (result_bind r))) =
      map (\<lambda>f. initial_buffer_size (fm_type f)) (st_fields (res_stmt r)) \<and>
    res_stmt (snd (result_bind r)) = res_stmt r"
proof -
  have u: "\<And>f. unat (of_nat (initial_buffer_size (fm_type f)) :: 64 word) = initial_buffer_size (fm_type f)"
  proof (rule unat_of_nat_64)
    fix f show "initial_buffer_size (fm_type f) < 2 ^ 64"
      using initial_buffer_size_le [of "fm_type f"] by simp
  qed
  show ?thesis using assms
    by (simp add: result_bind_def Let_def result_wf_def list_all2_map1 list_all2_map2 list_all2_refl
        bind_agrees_def bind_of_def column_of_def st_mysql_column_new_def column_ok_def u comp_def list_all_iff)
qed

lemma result_fetch_row:
  assumes "result_wf r" "rows_fit r" "st_rows (res_stmt r) = vs # rest"
  shows "fst (result_fetch p r) \<and> result_wf (snd (result_fetch p r)) \<and> rows_fit (snd (result_fetch p r)) \<and>
    map cell_read (res_columns (snd (result_fetch p r))) = vs \<and>
    st_rows (res_stmt (snd (result_fetch p r))) = rest \<and>
    map col_name (res_columns (snd (result_fetch p r))) = map col_name (res_columns r)"
proof -
  define r0 where "r0 = r\<lparr>res_stmt := (res_stmt r)\<lparr>st_rows := rest\<rparr>\<rparr>"
  have f: "result_fetch p r = (True, fetch_row vs r0)"
    using assms(3) by (simp add: result_fetch_def fetch_stmt_result_def fetch_proc_result_def r0_def)
  have w0: "result_wf r0" using assms(1) by (simp add: r0_def result_wf_def)
  have v: "length vs = length (res_columns r0)" "list_all cell_fits vs"
    and rf: "rows_fit r0"
    using assms(2,3) by (simp_all add: rows_fit_def r0_def)
  note c = fetch_row_correct [OF w0 v]
  have "length (res_columns (fetch_row vs r0)) = length (res_columns r0)"
    using arg_cong [OF conjunct1 [OF conjunct2 [OF c]], of length] v(1) by simp
  then have "rows_fit (fetch_row vs r0)" using rf v(1) by (simp add: rows_fit_def)
  then show ?thesis using c f by (simp add: r0_def)
qed

lemma result_fetch_end:
  assumes "st_rows (res_stmt r) = []"
  shows "\<not> fst (result_fetch p r) \<and> st_rows (res_stmt (snd (result_fetch p r))) = [] \<and>
    res_columns (snd (result_fetch p r)) = res_columns r \<and> res_binds (snd (result_fetch p r)) = res_binds r"
  using assms by (simp add: result_fetch_def fetch_stmt_result_def fetch_proc_result_def)

lemma result_fetch_rows: "st_rows (res_stmt (snd (result_fetch p r))) = tl (st_rows (res_stmt r))"
  by (simp add: result_fetch_def fetch_stmt_result_def fetch_proc_result_def Let_def fetch_row_def split: list.split)

lemma result_fetch_true: "fst (result_fetch p r) \<longleftrightarrow> st_rows (res_stmt r) \<noteq> []"
  by (simp add: result_fetch_def fetch_stmt_result_def fetch_proc_result_def split: list.split)

lemma fetch_loop_empty: "st_rows (res_stmt r) = [] \<Longrightarrow> snd (fetch_loop p k r) = []"
proof (induction k arbitrary: r)
  case 0
  then show ?case by simp
next
  case (Suc k)
  obtain b r' where f: "result_fetch p r = (b, r')" by (cases "result_fetch p r")
  obtain bs rows where l: "fetch_loop p k r' = (bs, rows)" by (cases "fetch_loop p k r'")
  have "\<not> b" "st_rows (res_stmt r') = []" using result_fetch_end [OF Suc.prems, of p] f by simp_all
  then show ?case using Suc.IH [of r'] f l by simp
qed

lemma le_value_le_bytes: "le_value (le_bytes w n) = n mod 2 ^ (8 * w)"
proof (induction w arbitrary: n)
  case 0
  then show ?case by simp
next
  case (Suc w)
  have "unat (of_nat (n mod 256) :: 8 word) = n mod 256" by (simp add: unat_of_nat)
  moreover have "n mod 256 + 256 * (n div 256 mod 2 ^ (8 * w)) = n mod (256 * 2 ^ (8 * w))"
    by (simp add: mod_mult2_eq)
  ultimately show ?case using Suc.IH by (simp add: power_add mult.commute)
qed

lemma length_le_bytes [simp]: "length (le_bytes w n) = w"
  by (induction w arbitrary: n) simp_all

lemma column_int_le_bytes:
  fixes x :: "'b::len word"
  assumes "LENGTH('b) = 8 * w" "take w (col_buffer c) = le_bytes w (unat x)"
  shows "column_int w c = (if col_is_unsigned c \<noteq> 0 then uint x else sint x)"
proof -
  have "unat x < 2 ^ (8 * w)" using assms(1) unsigned_less [of x] by simp
  then have n: "int (le_value (take w (col_buffer c))) = uint x"
    using assms(2) by (simp add: le_value_le_bytes)
  have e: "(2 :: int) ^ (8 * w - 1) = 2 ^ (LENGTH('b) - 1)" "(2 :: int) ^ (8 * w) = 2 ^ LENGTH('b)"
    using assms(1) by simp_all
  show ?thesis unfolding column_int_def Let_def n e using sint_uint_if [of x] by presburger
qed

lemma unat_of_char_byte: "unat (of_nat (of_char ch) :: 8 word) = of_char ch"
  using nat_of_char_less_256 [of ch] by (simp add: unat_of_nat)

lemma le_bytes_4: "(of_nat (le_value (le_bytes 4 (unat (f :: uint32)))) :: uint32) = f"
proof -
  have "unat f < 2 ^ 32" using unsigned_less [of f] by simp
  then show ?thesis by (simp add: le_value_le_bytes)
qed

lemma mysql_time_datetime_bytes: "mysql_time_datetime (mysql_time_bytes dt) = dt"
  by (simp add: mysql_time_datetime_def mysql_time_bytes_def le_bytes_4)

lemma column_index_Some:
  "column_index n cs = Some i \<Longrightarrow> i < length cs \<and> col_name (cs ! i) = n \<and> (\<forall>j < i. col_name (cs ! j) \<noteq> n)"
proof (induction cs arbitrary: i)
  case Nil
  then show ?case by simp
next
  case (Cons c cs)
  then show ?case by (cases i) (auto simp: less_Suc_eq_0_disj split: if_splits)
qed

lemma column_index_None: "column_index n cs = None \<longleftrightarrow> n \<notin> col_name ` set cs"
  by (induction cs) auto

lemma get_column_name_index:
  assumes "column_index n (res_columns r) = Some i" "length (res_columns r) < 2 ^ 32"
  shows "get_column_name r n = get_column_index r (of_nat i)"
proof -
  have "i < length (res_columns r)" using column_index_Some [OF assms(1)] by simp
  then have "unat (of_nat i :: uint32) = i" using assms(2) by (simp add: unat_of_nat)
  then show ?thesis using assms(1) \<open>i < length (res_columns r)\<close>
    by (simp add: get_column_name_def get_column_index_def)
qed

lemma cell_read_null: "cell_read c = Cell_null \<longleftrightarrow> col_is_null c \<noteq> 0"
  by (simp add: cell_read_def)

lemma result_bind_new:
  assumes "st_fields st \<noteq> []"
    "list_all (\<lambda>vs. length vs = length (st_fields st) \<and> list_all cell_fits vs) (st_rows st)"
  shows "result_wf (snd (result_bind (result_new st))) \<and> rows_fit (snd (result_bind (result_new st))) \<and>
    res_stmt (snd (result_bind (result_new st))) = st \<and>
    map col_name (res_columns (snd (result_bind (result_new st)))) = map fm_name (st_fields st)"
proof -
  note b = result_bind_ok [of "result_new st"]
  have "length (res_columns (snd (result_bind (result_new st)))) = length (st_fields st)"
    using arg_cong [OF conjunct1 [OF conjunct2 [OF conjunct2 [OF b]]], of length] assms(1)
    by (simp add: result_new_def)
  then show ?thesis using b assms by (simp add: result_new_def rows_fit_def)
qed

lemma le_value_less: "le_value bs < 2 ^ (8 * length bs)"
proof (induction bs)
  case Nil
  then show ?case by simp
next
  case (Cons b bs)
  have "unat b < 256" using unsigned_less [of b] by simp
  then have "unat b + 256 * le_value bs < 256 + 256 * le_value bs" by simp
  also have "\<dots> = 256 * (le_value bs + 1)" by simp
  also have "\<dots> \<le> 256 * 2 ^ (8 * length bs)" using Cons.IH by simp
  finally show ?case by (simp add: power_add power_mult)
qed

lemma column_int_bound: "\<bar>column_int w c\<bar> \<le> 2 ^ (8 * w)"
proof -
  have "(2::nat) ^ (8 * length (take w (col_buffer c))) \<le> 2 ^ (8 * w)" by (intro power_increasing) auto
  then have l: "le_value (take w (col_buffer c)) < 2 ^ (8 * w)"
    using le_value_less [of "take w (col_buffer c)"] by linarith
  then have l': "int (le_value (take w (col_buffer c))) < 2 ^ (8 * w)"
    by (metis of_nat_less_iff of_nat_numeral of_nat_power)
  show ?thesis using l' by (simp add: column_int_def Let_def)
qed

lemma of_nat_le_value_bytes4: "(of_nat (le_value (le_bytes 4 (unat x))) :: c_float) = x"
proof -
  have "unat x < 2 ^ (8 * 4)" using unsigned_less [of x] by simp
  then show ?thesis by (simp only: le_value_le_bytes mod_less) simp
qed

lemma of_nat_le_value_bytes8: "(of_nat (le_value (le_bytes 8 (unat x))) :: c_double) = x"
proof -
  have "unat x < 2 ^ (8 * 8)" using unsigned_less [of x] by simp
  then show ?thesis by (simp only: le_value_le_bytes mod_less) simp
qed

lemma wire_int_width: "wire_kind_of t = Wire_int w \<Longrightarrow> w \<le> 8"
  by (cases t) simp_all

lemma column_index_first:
  "i < length cs \<Longrightarrow> col_name (cs ! i) = n \<Longrightarrow> (\<forall>j < i. col_name (cs ! j) \<noteq> n) \<Longrightarrow> column_index n cs = Some i"
proof (induction cs arbitrary: i)
  case Nil
  then show ?case by simp
next
  case (Cons c cs)
  show ?case
  proof (cases i)
    case 0
    then show ?thesis using Cons.prems by simp
  next
    case (Suc k)
    have "col_name c \<noteq> n" using Cons.prems(3) Suc by auto
    moreover have "column_index n cs = Some k"
      using Cons.prems Suc by (intro Cons.IH) auto
    ultimately show ?thesis using Suc by simp
  qed
qed

section \<open>Properties of the result engine\<close>

text \<open>
  C18. Refinement of the row cursor. On a well-formed result whose pending rows
  fit the columns, \<open>fetch\<close> implements the abstract cursor of the
  specification: what it returns and the state it leaves, read through
  \<open>result_abs\<close>, are those of \<open>cursor_fetch\<close> on the abstract state, and
  the state stays well formed. In particular every column holds its value of
  the new row in full, a variable-length value longer than its buffer
  included (the resize-and-refetch step).
\<close>

theorem result_fetch_refines:
  assumes "result_wf r" "rows_fit r"
  shows "map_prod id result_abs (result_fetch p r) = cursor_fetch (result_abs r) \<and>
    result_wf (snd (result_fetch p r)) \<and> rows_fit (snd (result_fetch p r))"
proof (cases "st_rows (res_stmt r)")
  case Nil
  then show ?thesis using result_fetch_end [OF Nil, of p] assms
    by (cases "result_fetch p r") (simp add: result_abs_def cursor_fetch_def result_wf_def rows_fit_def)
next
  case (Cons vs rest)
  then show ?thesis using result_fetch_row [OF assms Cons, of p]
    by (cases "result_fetch p r") (simp add: result_abs_def cursor_fetch_def)
qed

theorem result_fetch_refines_witness:
  "result_wf (snd (result_bind (result_new
      \<lparr>st_fields = [\<lparr>fm_type = MYSQL_TYPE_VAR_STRING, fm_name = ''b'', fm_unsigned = False\<rparr>],
       st_rows = [[Cell_val [120, 121, 122]]], st_row_count = 1, st_pending_status = False\<rparr>))) \<and>
   map_prod id result_abs (result_fetch False (snd (result_bind (result_new
      \<lparr>st_fields = [\<lparr>fm_type = MYSQL_TYPE_VAR_STRING, fm_name = ''b'', fm_unsigned = False\<rparr>],
       st_rows = [[Cell_val [120, 121, 122]]], st_row_count = 1, st_pending_status = False\<rparr>)))) =
   (True, ([], [Cell_val [120, 121, 122]]))"
proof -
  define st where "st = \<lparr>st_fields = [\<lparr>fm_type = MYSQL_TYPE_VAR_STRING, fm_name = ''b'', fm_unsigned = False\<rparr>],
       st_rows = [[Cell_val [120, 121, 122]]], st_row_count = 1, st_pending_status = False\<rparr>"
  note b = result_bind_new [of st]
  have h: "result_wf (snd (result_bind (result_new st)))" "rows_fit (snd (result_bind (result_new st)))"
    "res_stmt (snd (result_bind (result_new st))) = st"
    using b by (simp_all add: st_def cell_fits_def)
  show ?thesis using result_fetch_refines [OF h(1,2), of False] h
    by (simp add: st_def [symmetric] result_abs_def [of "snd (result_bind (result_new st))"] cursor_fetch_def)
       (simp add: st_def)
qed

text \<open>
  \<open>fetch\<close> returns true once per row and false from then on: a loop
  of \<open>k\<close> calls on a result with \<open>m\<close> pending rows sees \<open>min k m\<close> times
  true followed by only false.
\<close>

theorem fetch_loop_returns:
  "fst (fetch_loop p k r) = replicate (min k (length (st_rows (res_stmt r)))) True @
     replicate (k - length (st_rows (res_stmt r))) False"
proof (induction k arbitrary: r)
  case 0
  then show ?case by simp
next
  case (Suc k)
  obtain b r' where f: "result_fetch p r = (b, r')" by (cases "result_fetch p r")
  have b: "b \<longleftrightarrow> st_rows (res_stmt r) \<noteq> []" and t: "st_rows (res_stmt r') = tl (st_rows (res_stmt r))"
    using result_fetch_true [of p r] result_fetch_rows [of p r] f by simp_all
  obtain bs rows where l: "fetch_loop p k r' = (bs, rows)" by (cases "fetch_loop p k r'")
  show ?case
    using Suc.IH [of r'] b t l by (cases "st_rows (res_stmt r)") (simp_all add: f)
qed

text \<open>
  C20. A loop of \<open>fetch\<close> calls on a well-formed result reads the rows of
  the result set back exactly and in order.
\<close>

theorem fetch_loop_rows:
  "result_wf r \<Longrightarrow> rows_fit r \<Longrightarrow> snd (fetch_loop p k r) = take k (st_rows (res_stmt r))"
proof (induction k arbitrary: r)
  case 0
  then show ?case by simp
next
  case (Suc k)
  show ?case
  proof (cases "st_rows (res_stmt r)")
    case Nil
    then show ?thesis using fetch_loop_empty [OF Nil, of p "Suc k"] by simp
  next
    case (Cons vs rest)
    obtain b r' where f: "result_fetch p r = (b, r')" by (cases "result_fetch p r")
    obtain bs rows where l: "fetch_loop p k r' = (bs, rows)" by (cases "fetch_loop p k r'")
    have s: "b" "result_wf r'" "rows_fit r'" "map cell_read (res_columns r') = vs" "st_rows (res_stmt r') = rest"
      using result_fetch_row [OF Suc.prems Cons, of p] f by simp_all
    then show ?thesis using Suc.IH [OF s(2,3)] Cons f l by simp
  qed
qed

theorem fetch_loop_rows_witness:
  "snd (fetch_loop False 3 (snd (result_bind (result_new
      \<lparr>st_fields = [\<lparr>fm_type = MYSQL_TYPE_VAR_STRING, fm_name = ''b'', fm_unsigned = False\<rparr>],
       st_rows = [[Cell_val [120, 121]], [Cell_null]], st_row_count = 2, st_pending_status = False\<rparr>)))) =
   [[Cell_val [120, 121]], [Cell_null]]"
proof -
  define st where "st = \<lparr>st_fields = [\<lparr>fm_type = MYSQL_TYPE_VAR_STRING, fm_name = ''b'', fm_unsigned = False\<rparr>],
       st_rows = [[Cell_val [120, 121]], [Cell_null]], st_row_count = 2, st_pending_status = False\<rparr>"
  note b = result_bind_new [of st]
  have h: "result_wf (snd (result_bind (result_new st)))" "rows_fit (snd (result_bind (result_new st)))"
    "res_stmt (snd (result_bind (result_new st))) = st"
    using b by (simp_all add: st_def cell_fits_def)
  show ?thesis using fetch_loop_rows [OF h(1,2), of False 3] h(3) by (simp add: st_def [symmetric]) (simp add: st_def)
qed

text \<open>
  C26. Reading an integer column as \<open>double\<close> or \<open>float\<close> rounds to
  nearest: the value of the converted number is within a relative
  \<open>2\<^sup>-\<^sup>5\<^sup>3\<close> (\<open>double\<close>) or \<open>2\<^sup>-\<^sup>2\<^sup>4\<close> (\<open>float\<close>) of the column's
  integer, and equal to it for every integer type of at most four bytes
  (\<open>double\<close>) or two bytes (\<open>float\<close>).
\<close>

theorem fetch_column_int_exact:
  assumes k: "wire_kind_of (col_type c) = Wire_int w"
  shows "\<bar>double_value (fetch_column_double c v) - of_int (column_int w c)\<bar> \<le> \<bar>of_int (column_int w c)\<bar> / 2 ^ 53 \<and>
         \<bar>float_value (fetch_column_float c u) - of_int (column_int w c)\<bar> \<le> \<bar>of_int (column_int w c)\<bar> / 2 ^ 24 \<and>
         (w \<le> 4 \<longrightarrow> double_value (fetch_column_double c v) = of_int (column_int w c)) \<and>
         (w \<le> 2 \<longrightarrow> float_value (fetch_column_float c u) = of_int (column_int w c))"
proof -
  have b: "\<bar>column_int w c\<bar> \<le> 2 ^ (8 * w)" by (rule column_int_bound)
  have w8: "w \<le> 8" using k wire_int_width [of "col_type c" w] by simp
  have "(2::int) ^ (8 * w) \<le> 2 ^ 64" using w8 by (intro power_increasing) auto
  then have b64: "\<bar>column_int w c\<bar> \<le> 2 ^ 64" using b by linarith
  have d: "double_value (double_of_int (column_int w c)) = of_int (column_int w c)" if "w \<le> 4"
  proof -
    have "(2::int) ^ (8 * w) \<le> 2 ^ 53" using that by (intro power_increasing) auto
    then show ?thesis using b by (intro double_of_int_value) linarith
  qed
  have f: "float_value (float_of_int (column_int w c)) = of_int (column_int w c)" if "w \<le> 2"
  proof -
    have "(2::int) ^ (8 * w) \<le> 2 ^ 24" using that by (intro power_increasing) auto
    then show ?thesis using b by (intro float_of_int_value) linarith
  qed
  show ?thesis using d f k double_of_int_err [OF b64] float_of_int_err [OF b64]
    by (simp add: fetch_column_double_def fetch_column_float_def)
qed

theorem fetch_column_int_exact_witness:
  "double_value (fetch_column_double ((st_mysql_column_new MYSQL_TYPE_LONG)\<lparr>col_buffer := [249, 255, 255, 255]\<rparr>) 0) = -7 \<and>
   float_value (fetch_column_float ((st_mysql_column_new MYSQL_TYPE_SHORT)\<lparr>col_buffer := [44, 1]\<rparr>) 0) = 300"
proof -
  define c where "c = (st_mysql_column_new MYSQL_TYPE_LONG)\<lparr>col_buffer := [249, 255, 255, 255]\<rparr>"
  define d where "d = (st_mysql_column_new MYSQL_TYPE_SHORT)\<lparr>col_buffer := [44, 1]\<rparr>"
  have k: "wire_kind_of (col_type c) = Wire_int 4" "wire_kind_of (col_type d) = Wire_int 2"
    by (simp_all add: c_def d_def st_mysql_column_new_def)
  have v: "column_int 4 c = -7" "column_int 2 d = 300"
    by (simp_all add: c_def d_def st_mysql_column_new_def column_int_def)
  have "double_value (fetch_column_double c 0) = -7"
    using fetch_column_int_exact [OF k(1), of 0 0] v by simp
  moreover have "float_value (fetch_column_float d 0) = 300"
    using fetch_column_int_exact [OF k(2), of 0 0] v by simp
  ultimately show ?thesis by (simp add: c_def d_def)
qed

text \<open>
  C37. The caller's \<open>while (res->fetch())\<close> loop terminates on every
  result: it returns one row per pending row of the result set and leaves the
  result exhausted; on a well-formed result the rows it returns are the rows
  of the result set, in order.
\<close>

theorem fetch_until_end_returns:
  "\<exists>rows r'. fetch_until_end p r = Some (rows, r') \<and> length rows = length (st_rows (res_stmt r)) \<and>
     st_rows (res_stmt r') = [] \<and> (result_wf r \<and> rows_fit r \<longrightarrow> rows = st_rows (res_stmt r))"
proof (induction "st_rows (res_stmt r)" arbitrary: r)
  case Nil
  then show ?case using result_fetch_true [of p r] result_fetch_rows [of p r]
    by (cases "result_fetch p r") (simp add: fetch_until_end.simps)
next
  case (Cons vs rest)
  obtain b r1 where f: "result_fetch p r = (b, r1)" by (cases "result_fetch p r")
  have b: "b" "st_rows (res_stmt r1) = rest"
    using result_fetch_true [of p r] result_fetch_rows [of p r] f Cons.hyps(2) [symmetric] by simp_all
  obtain rows r' where ih: "fetch_until_end p r1 = Some (rows, r')" "length rows = length rest"
    "st_rows (res_stmt r') = []" "result_wf r1 \<and> rows_fit r1 \<longrightarrow> rows = rest"
    using Cons.hyps(1) [OF b(2) [symmetric]] b(2) by auto
  have "result_wf r \<and> rows_fit r \<longrightarrow> result_wf r1 \<and> rows_fit r1 \<and> map cell_read (res_columns r1) = vs"
    using result_fetch_row [of r "vs" rest p] Cons.hyps(2) [symmetric] f by auto
  then show ?case using ih f b Cons.hyps(2) [symmetric] by (auto simp: fetch_until_end.simps)
qed

theorem fetch_until_end_returns_witness:
  "fetch_until_end False (snd (result_bind (result_new
      \<lparr>st_fields = [\<lparr>fm_type = MYSQL_TYPE_VAR_STRING, fm_name = ''b'', fm_unsigned = False\<rparr>],
       st_rows = [[Cell_val [120, 121]], [Cell_null]], st_row_count = 2, st_pending_status = False\<rparr>))) \<noteq> None \<and>
   map_option fst (fetch_until_end False (snd (result_bind (result_new
      \<lparr>st_fields = [\<lparr>fm_type = MYSQL_TYPE_VAR_STRING, fm_name = ''b'', fm_unsigned = False\<rparr>],
       st_rows = [[Cell_val [120, 121]], [Cell_null]], st_row_count = 2, st_pending_status = False\<rparr>)))) =
   Some [[Cell_val [120, 121]], [Cell_null]]"
proof -
  define st where "st = \<lparr>st_fields = [\<lparr>fm_type = MYSQL_TYPE_VAR_STRING, fm_name = ''b'', fm_unsigned = False\<rparr>],
       st_rows = [[Cell_val [120, 121]], [Cell_null]], st_row_count = 2, st_pending_status = False\<rparr>"
  note b = result_bind_new [of st]
  have h: "result_wf (snd (result_bind (result_new st)))" "rows_fit (snd (result_bind (result_new st)))"
    "res_stmt (snd (result_bind (result_new st))) = st"
    using b by (simp_all add: st_def cell_fits_def)
  obtain rows r' where e: "fetch_until_end False (snd (result_bind (result_new st))) = Some (rows, r')"
    "result_wf (snd (result_bind (result_new st))) \<and> rows_fit (snd (result_bind (result_new st))) \<longrightarrow>
       rows = st_rows (res_stmt (snd (result_bind (result_new st))))"
    using fetch_until_end_returns [of False "snd (result_bind (result_new st))"] by blast
  show ?thesis using e h by (simp add: st_def [symmetric]) (simp add: st_def)
qed

text \<open>
  C21. After a fetch, a column that is null in the row makes \<open>get<T>(index)\<close>
  throw the \<open>null value field\<close> exception of line 152 and \<open>is_null\<close>
  return true; a non-null column is converted and \<open>is_null\<close> returns false.
\<close>

theorem get_index_after_fetch:
  assumes "result_wf r" "rows_fit r" "st_rows (res_stmt r) = vs # rest" "unat i < length vs"
  shows "(vs ! unat i = Cell_null \<longrightarrow>
       get_index f d (snd (result_fetch p r)) i = Inl (Raised (exception_new mysqlpp_hpp 152 ''null value field'')) \<and>
       result_is_null_index (snd (result_fetch p r)) i = Inr True) \<and>
    (vs ! unat i \<noteq> Cell_null \<longrightarrow>
       get_index f d (snd (result_fetch p r)) i = Inr (f (res_columns (snd (result_fetch p r)) ! unat i) d) \<and>
       result_is_null_index (snd (result_fetch p r)) i = Inr False)"
proof -
  define r' where "r' = snd (result_fetch p r)"
  have m: "map cell_read (res_columns r') = vs" using result_fetch_row [OF assms(1-3), of p] by (simp add: r'_def)
  then have l: "unat i < length (res_columns r')" using assms(4) by (metis length_map)
  have "cell_read (res_columns r' ! unat i) = vs ! unat i" using m l by (metis nth_map)
  then have n: "vs ! unat i = Cell_null \<longleftrightarrow> col_is_null (res_columns r' ! unat i) \<noteq> 0"
    using cell_read_null by metis
  show ?thesis using l n
    by (simp add: r'_def [symmetric] get_index_def get_column_index_def result_is_null_index_def)
qed

theorem get_index_after_fetch_witness:
  "get_index (\<lambda>c v. fetch_column_word c v) (0 :: 32 word)
     (snd (result_fetch False (snd (result_bind (result_new
        \<lparr>st_fields = [\<lparr>fm_type = MYSQL_TYPE_LONG, fm_name = ''a'', fm_unsigned = False\<rparr>],
         st_rows = [[Cell_null]], st_row_count = 1, st_pending_status = False\<rparr>))))) 0 =
   Inl (Raised (exception_new mysqlpp_hpp 152 ''null value field''))"
proof -
  define st where "st = \<lparr>st_fields = [\<lparr>fm_type = MYSQL_TYPE_LONG, fm_name = ''a'', fm_unsigned = False\<rparr>],
         st_rows = [[Cell_null]], st_row_count = 1, st_pending_status = False\<rparr>"
  define r where "r = snd (result_bind (result_new st))"
  have b: "result_wf r \<and> res_stmt r = st \<and> map col_name (res_columns r) = [''a'']"
    using result_bind_ok [of "result_new st"] by (simp add: r_def st_def result_new_def)
  have lc: "length (res_columns r) = 1"
    using arg_cong [OF conjunct2 [OF conjunct2 [OF b]], of length] by simp
  have w: "result_wf r" "rows_fit r" "st_rows (res_stmt r) = [Cell_null] # []" "unat (0 :: uint32) < length [Cell_null]"
    using b lc by (simp_all add: rows_fit_def st_def cell_fits_def)
  show ?thesis using get_index_after_fetch [OF w, of "\<lambda>c v. fetch_column_word c v" "0 :: 32 word" False]
    by (simp add: r_def st_def)
qed

text \<open>
  C22. Lookup by name is lookup by the ordinal of the first column of that
  name (the rule for duplicate names the specification documents):
  \<open>get<T>(name)\<close> returns what \<open>get<T>\<close> of that ordinal returns, and
  \<open>is_null\<close> agrees on them; a name no column has fails with
  \<open>NotFoundError\<close>, for \<open>get<T>\<close> and for \<open>is_null\<close>.
\<close>

theorem get_name_equals_index:
  assumes "length (res_columns r) < 2 ^ 32"
  shows "(i < length (res_columns r) \<and> col_name (res_columns r ! i) = n \<and>
          (\<forall>j < i. col_name (res_columns r ! j) \<noteq> n) \<longrightarrow>
            (get_name f d r n = Inr v \<longleftrightarrow> get_index f d r (of_nat i) = Inr v) \<and>
            result_is_null_name r n = result_is_null_index r (of_nat i)) \<and>
         (n \<notin> col_name ` set (res_columns r) \<longrightarrow>
            get_name f d r n = Inl (Failed NotFoundError) \<and> result_is_null_name r n = Inl (Failed NotFoundError))"
proof (intro conjI impI)
  assume h: "i < length (res_columns r) \<and> col_name (res_columns r ! i) = n \<and> (\<forall>j < i. col_name (res_columns r ! j) \<noteq> n)"
  then have ci: "column_index n (res_columns r) = Some i" by (intro column_index_first) auto
  note g = get_column_name_index [OF ci assms]
  show "get_name f d r n = Inr v \<longleftrightarrow> get_index f d r (of_nat i) = Inr v"
    using g by (auto simp: get_name_def get_index_def split: sum.splits)
  show "result_is_null_name r n = result_is_null_index r (of_nat i)"
    using g by (simp add: result_is_null_name_def result_is_null_index_def)
next
  assume "n \<notin> col_name ` set (res_columns r)"
  then have "column_index n (res_columns r) = None" by (simp add: column_index_None)
  then show "get_name f d r n = Inl (Failed NotFoundError)" "result_is_null_name r n = Inl (Failed NotFoundError)"
    by (simp_all add: get_name_def get_column_name_def result_is_null_name_def)
qed

theorem get_name_equals_index_witness:
  "result_is_null_name (snd (result_bind (result_new
      \<lparr>st_fields = [\<lparr>fm_type = MYSQL_TYPE_LONG, fm_name = ''a'', fm_unsigned = False\<rparr>,
                    \<lparr>fm_type = MYSQL_TYPE_VAR_STRING, fm_name = ''b'', fm_unsigned = False\<rparr>,
                    \<lparr>fm_type = MYSQL_TYPE_LONG, fm_name = ''a'', fm_unsigned = False\<rparr>],
       st_rows = [], st_row_count = 0, st_pending_status = False\<rparr>))) ''a'' =
   result_is_null_index (snd (result_bind (result_new
      \<lparr>st_fields = [\<lparr>fm_type = MYSQL_TYPE_LONG, fm_name = ''a'', fm_unsigned = False\<rparr>,
                    \<lparr>fm_type = MYSQL_TYPE_VAR_STRING, fm_name = ''b'', fm_unsigned = False\<rparr>,
                    \<lparr>fm_type = MYSQL_TYPE_LONG, fm_name = ''a'', fm_unsigned = False\<rparr>],
       st_rows = [], st_row_count = 0, st_pending_status = False\<rparr>))) 0 \<and>
   get_name (\<lambda>c v. v) (0 :: nat) (snd (result_bind (result_new
      \<lparr>st_fields = [\<lparr>fm_type = MYSQL_TYPE_LONG, fm_name = ''a'', fm_unsigned = False\<rparr>,
                    \<lparr>fm_type = MYSQL_TYPE_VAR_STRING, fm_name = ''b'', fm_unsigned = False\<rparr>,
                    \<lparr>fm_type = MYSQL_TYPE_LONG, fm_name = ''a'', fm_unsigned = False\<rparr>],
       st_rows = [], st_row_count = 0, st_pending_status = False\<rparr>))) ''c'' = Inl (Failed NotFoundError)"
proof -
  define r where "r = snd (result_bind (result_new
      \<lparr>st_fields = [\<lparr>fm_type = MYSQL_TYPE_LONG, fm_name = ''a'', fm_unsigned = False\<rparr>,
                    \<lparr>fm_type = MYSQL_TYPE_VAR_STRING, fm_name = ''b'', fm_unsigned = False\<rparr>,
                    \<lparr>fm_type = MYSQL_TYPE_LONG, fm_name = ''a'', fm_unsigned = False\<rparr>],
       st_rows = [], st_row_count = 0, st_pending_status = False\<rparr>))"
  have m: "map col_name (res_columns r) = [''a'', ''b'', ''a'']"
    by (simp add: r_def result_bind_def result_new_def Let_def column_of_def st_mysql_column_new_def)
  have n: "length (res_columns r) = 3" using arg_cong [OF m, of length] by simp
  have a0: "col_name (res_columns r ! 0) = ''a''" using arg_cong [OF m, of "\<lambda>xs. xs ! 0"] n by simp
  have nc: "''c'' \<notin> col_name ` set (res_columns r)" using arg_cong [OF m, of set] by auto
  have l: "length (res_columns r) < 2 ^ 32" using n by simp
  note e = get_name_equals_index [OF l, where i = 0 and n = "''a''" and f = "\<lambda>c v. v" and d = "0 :: nat"]
  note e' = get_name_equals_index [OF l, where n = "''c''" and f = "\<lambda>c v. v" and d = "0 :: nat"]
  show ?thesis using e e' n a0 nc by (simp add: r_def [symmetric])
qed
text \<open>
  C24. \<open>bind()\<close> on a statement with result metadata succeeds, leaves a
  well-formed state with one column per field, in order and with its name,
  and gives fixed-width columns their native buffer size and
  variable-length columns an empty buffer.
\<close>

theorem result_bind_allocates:
  assumes "st_fields (res_stmt r) \<noteq> []"
  shows "fst (result_bind r) \<and> result_wf (snd (result_bind r)) \<and>
    map col_name (res_columns (snd (result_bind r))) = map fm_name (st_fields (res_stmt r)) \<and>
    (\<forall>c \<in> set (res_columns (snd (result_bind r))).
       length (col_buffer c) = (case fixed_size (wire_kind_of (col_type c)) of Some k \<Rightarrow> k | None \<Rightarrow> 0))"
proof -
  note b = result_bind_ok [OF assms]
  have "\<forall>c \<in> set (res_columns (snd (result_bind r))). length (col_buffer c) = initial_buffer_size (col_type c)"
    using assms by (auto simp: result_bind_def Let_def column_of_def st_mysql_column_new_def)
  then show ?thesis using b by (simp add: initial_buffer_size_def)
qed

theorem result_bind_allocates_witness:
  "fst (result_bind (result_new
      \<lparr>st_fields = [\<lparr>fm_type = MYSQL_TYPE_LONG, fm_name = ''a'', fm_unsigned = False\<rparr>],
       st_rows = [], st_row_count = 0, st_pending_status = False\<rparr>)) \<and>
   map (\<lambda>c. length (col_buffer c)) (res_columns (snd (result_bind (result_new
      \<lparr>st_fields = [\<lparr>fm_type = MYSQL_TYPE_LONG, fm_name = ''a'', fm_unsigned = False\<rparr>],
       st_rows = [], st_row_count = 0, st_pending_status = False\<rparr>)))) = [4]"
proof -
  have "st_fields (res_stmt (result_new
      \<lparr>st_fields = [\<lparr>fm_type = MYSQL_TYPE_LONG, fm_name = ''a'', fm_unsigned = False\<rparr>],
       st_rows = [], st_row_count = 0, st_pending_status = False\<rparr>)) \<noteq> []" by (simp add: result_new_def)
  note a = result_bind_allocates [OF this]
  then show ?thesis
    by (simp add: result_bind_def result_new_def Let_def column_of_def st_mysql_column_new_def)
qed

text \<open>
  C25. Integer conversion: a column holding the wire encoding of a
  \<open>w\<close>-byte integer \<open>x\<close> converts to any integer type as the unsigned or
  signed cast of \<open>x\<close>, by the column's unsigned flag.
\<close>

theorem fetch_column_word_int:
  fixes x :: "'b::len word" and v :: "'a::len word"
  assumes "wire_kind_of (col_type c) = Wire_int w" "LENGTH('b) = 8 * w"
    "take w (col_buffer c) = le_bytes w (unat x)"
  shows "fetch_column_word c v = (if col_is_unsigned c \<noteq> 0 then ucast x else scast x)"
proof -
  have "fetch_column_word c v = word_of_int (if col_is_unsigned c \<noteq> 0 then uint x else sint x)"
    using column_int_le_bytes [OF assms(2,3)] assms(1) by (simp add: fetch_column_word_def)
  also have "\<dots> = (if col_is_unsigned c \<noteq> 0 then ucast x else scast x)"
    by (cases "col_is_unsigned c \<noteq> 0") (simp_all only: ucast_eq scast_eq if_True if_False not_False_eq_True not_True_eq_False)
  finally show ?thesis .
qed

theorem fetch_column_word_int_witness:
  "fetch_column_word
     \<lparr>col_type = MYSQL_TYPE_LONG, col_name = ''a'', col_buffer = le_bytes 4 (unat (-5 :: 32 word)),
      col_length = 4, col_is_unsigned = 0, col_is_null = 0, col_error = 0\<rparr> (0 :: 64 word) = scast (-5 :: 32 word) \<and>
   fetch_column_word
     \<lparr>col_type = MYSQL_TYPE_LONG, col_name = ''a'', col_buffer = le_bytes 4 (unat (-5 :: 32 word)),
      col_length = 4, col_is_unsigned = 0, col_is_null = 0, col_error = 0\<rparr> (0 :: 8 word) = scast (-5 :: 32 word)"
proof -
  have h: "wire_kind_of MYSQL_TYPE_LONG = Wire_int 4" "LENGTH(32) = 8 * 4"
    "take 4 (le_bytes 4 (unat (-5 :: 32 word))) = le_bytes 4 (unat (-5 :: 32 word))" by simp_all
  define c where "c = \<lparr>col_type = MYSQL_TYPE_LONG, col_name = ''a'', col_buffer = le_bytes 4 (unat (-5 :: 32 word)),
      col_length = 4, col_is_unsigned = (0 :: 8 word), col_is_null = 0, col_error = 0\<rparr>"
  have a: "fetch_column_word c (0 :: 64 word) = scast (-5 :: 32 word)"
    using fetch_column_word_int [of c 4 "-5 :: 32 word" "0 :: 64 word"] h by (simp add: c_def)
  have b: "fetch_column_word c (0 :: 8 word) = scast (-5 :: 32 word)"
    using fetch_column_word_int [of c 4 "-5 :: 32 word" "0 :: 8 word"] h by (simp add: c_def)
  show ?thesis using a b by (simp add: c_def)
qed

text \<open>
  String conversion of text and blob columns copies the bytes of the
  value: a column holding the bytes of a string converts back to it.
\<close>

theorem fetch_column_string_text:
  assumes "wire_kind_of (col_type c) = Wire_text \<or> wire_kind_of (col_type c) = Wire_blob"
    "cell_read c = Cell_val (map (\<lambda>ch. of_nat (of_char ch)) s)"
  shows "fetch_column_string c v = s"
proof -
  have "take (unat (col_length c)) (col_buffer c) = map (\<lambda>ch. of_nat (of_char ch)) s"
    using assms(2) by (simp add: cell_read_def split: if_splits)
  then show ?thesis using assms(1)
    by (auto simp: fetch_column_string_def comp_def unat_of_char_byte)
qed

theorem fetch_column_string_text_witness:
  "fetch_column_string
     \<lparr>col_type = MYSQL_TYPE_VAR_STRING, col_name = ''b'', col_buffer = [120, 0, 0],
      col_length = 1, col_is_unsigned = 0, col_is_null = 0, col_error = 0\<rparr> '''' = ''x''"
proof -
  have r: "cell_read \<lparr>col_type = MYSQL_TYPE_VAR_STRING, col_name = ''b'', col_buffer = [120, 0, 0],
      col_length = 1, col_is_unsigned = 0, col_is_null = 0, col_error = 0\<rparr> =
      Cell_val (map (\<lambda>ch. of_nat (of_char ch)) ''x'')" by (simp add: cell_read_def)
  show ?thesis using fetch_column_string_text [OF _ r] by simp
qed

text \<open>
  C27. String conversion of a date/time column renders the timestamp text
  format: a \<open>MYSQL_TIME\<close> of valid fields with a four-digit year converts to
  their \<open>YYYY-MM-DD HH:MM:SS\<close> text.
\<close>

theorem fetch_column_string_time:
  assumes "wire_kind_of (col_type c) = Wire_time" "col_buffer c = mysql_time_bytes (mk_datetime y mo d h mi s)"
    "civil_valid y mo d h mi s" "1000 \<le> y" "y \<le> 9999"
  shows "fetch_column_string c v = strftime_fields y mo d h mi s"
  using assms datetime_str_mk_datetime [OF assms(3-5), of "breakdown 0"]
  by (simp add: fetch_column_string_def mysql_time_datetime_bytes)

theorem fetch_column_string_time_witness:
  "fetch_column_string
     \<lparr>col_type = MYSQL_TYPE_DATETIME, col_name = ''t'', col_buffer = mysql_time_bytes (mk_datetime 2015 3 2 10 0 0),
      col_length = 40, col_is_unsigned = 0, col_is_null = 0, col_error = 0\<rparr> '''' = ''2015-03-02 10:00:00''"
proof -
  have v: "civil_valid 2015 3 2 10 0 0" by (simp add: civil_valid_def month_length_def mon_yday_def)
  have t: "strftime_fields 2015 3 2 10 0 0 = ''2015-03-02 10:00:00''" by code_simp
  show ?thesis using fetch_column_string_time [OF _ _ v, of "\<lparr>col_type = MYSQL_TYPE_DATETIME, col_name = ''t'',
      col_buffer = mysql_time_bytes (mk_datetime 2015 3 2 10 0 0),
      col_length = 40, col_is_unsigned = 0, col_is_null = 0, col_error = 0\<rparr>" "''''"] t by simp
qed

end
