(* ===== verification/Statement.thy ===== *)
theory Statement
  imports Result
begin

text \<open>
  The statement engine \<open>mysqlpp::statement\<close> (src/mysqlpp.hpp, lines
  212-249). The header gives its state (lines 242-248): the prepared handle,
  the declared parameter count, the position cursor \<open>bind_index\<close>, the
  parameter binds and the lengths of the variable-length ones. The bodies of
  the constructor, \<open>param\<close>, \<open>get_bind\<close>, \<open>execute\<close> and \<open>query\<close> are not
  part of the sources and follow the specification (section 4.2). The server
  is an interface: a record of the two functions the client library reaches it
  by, preparation (the placeholder count, or a rejection) and execution of a
  prepared query on the values bound (a rejection, an affected-row count, or a
  result set with its metadata, its rows and whether a stored procedure's
  status result follows).
\<close>

subsection \<open>The server interface\<close>

datatype exec_outcome =
    Exec_rejected
  | Exec_affected nat
  | Exec_rows "field_meta list" "cell list list" bool

text \<open>A parameter as the server receives it: SQL \<open>NULL\<close>, or a typed value in its wire bytes.\<close>

datatype param_value = Param_null | Param_val enum_field_types bool "8 word list"

record server =
  srv_prepare :: "string \<Rightarrow> nat option"
  srv_execute :: "string \<Rightarrow> param_value list \<Rightarrow> exec_outcome"

subsection \<open>State\<close>

text \<open>A parameter bind (\<open>MYSQL_BIND\<close>) extends the bind of a result column with its data and null flag.\<close>

record param_bind = st_mysql_bind +
  bind_data :: "8 word list"
  bind_is_null :: "8 word"

definition empty_bind :: param_bind where
  "empty_bind = \<lparr>bind_buffer_type = MYSQL_TYPE_NULL, bind_buffer_length = 0, bind_is_unsigned = 0,
     bind_data = [], bind_is_null = 0\<rparr>"

record stmt_handle =
  sh_query :: string

text \<open>Lines 242-248.\<close>

record statement =
  stm_stmt :: stmt_handle
  stm_param_count :: int
  stm_bind_index :: int
  stm_binds :: "param_bind list"
  stm_lengths :: "64 word list"

text \<open>The constructor: prepare the query and size the binds by the placeholder count.\<close>

definition statement_new :: "server \<Rightarrow> string \<Rightarrow> error + statement" where
  "statement_new srv query =
     (case srv_prepare srv query of
        None \<Rightarrow> Inl (Failed PrepareError)
      | Some n \<Rightarrow> Inr \<lparr>stm_stmt = \<lparr>sh_query = query\<rparr>, stm_param_count = int n, stm_bind_index = 0,
                       stm_binds = replicate n empty_bind, stm_lengths = replicate n 0\<rparr>)"

subsection \<open>Binding parameters\<close>

text \<open>\<open>get_bind()\<close>: the slot at the cursor, the cursor advanced; past the declared count, \<open>BindError\<close>.\<close>

definition get_bind :: "statement \<Rightarrow> error + (nat \<times> statement)" where
  "get_bind st =
     (if stm_param_count st \<le> stm_bind_index st then Inl (Failed BindError)
      else Inr (nat (stm_bind_index st), st\<lparr>stm_bind_index := stm_bind_index st + 1\<rparr>))"

definition param_with :: "param_bind \<Rightarrow> statement \<Rightarrow> error + statement" where
  "param_with b st =
     (case get_bind st of
        Inl e \<Rightarrow> Inl e
      | Inr (i, st') \<Rightarrow>
          Inr (st'\<lparr>stm_binds := (stm_binds st')[i := b],
                   stm_lengths := (stm_lengths st')[i := of_nat (length (bind_data b))]\<rparr>))"

text \<open>The bind of an integer of type \<open>'a word\<close>: its wire type, its width, its little-endian bytes.\<close>

definition int_bind :: "enum_field_types \<Rightarrow> bool \<Rightarrow> 'a::len word \<Rightarrow> param_bind" where
  "int_bind t u v =
     \<lparr>bind_buffer_type = t, bind_buffer_length = of_nat (LENGTH('a) div 8),
      bind_is_unsigned = (if u then 1 else 0), bind_data = le_bytes (LENGTH('a) div 8) (unat v),
      bind_is_null = 0\<rparr>"

definition param_uchar :: "8 word \<Rightarrow> statement \<Rightarrow> error + statement" where
  "param_uchar v = param_with (int_bind MYSQL_TYPE_TINY True v)"

definition param_short :: "16 word \<Rightarrow> statement \<Rightarrow> error + statement" where
  "param_short v = param_with (int_bind MYSQL_TYPE_SHORT False v)"

definition param_ushort :: "16 word \<Rightarrow> statement \<Rightarrow> error + statement" where
  "param_ushort v = param_with (int_bind MYSQL_TYPE_SHORT True v)"

definition param_int :: "32 word \<Rightarrow> statement \<Rightarrow> error + statement" where
  "param_int v = param_with (int_bind MYSQL_TYPE_LONG False v)"

definition param_uint :: "32 word \<Rightarrow> statement \<Rightarrow> error + statement" where
  "param_uint v = param_with (int_bind MYSQL_TYPE_LONG True v)"

definition param_longlong :: "64 word \<Rightarrow> statement \<Rightarrow> error + statement" where
  "param_longlong v = param_with (int_bind MYSQL_TYPE_LONGLONG False v)"

definition param_ulonglong :: "64 word \<Rightarrow> statement \<Rightarrow> error + statement" where
  "param_ulonglong v = param_with (int_bind MYSQL_TYPE_LONGLONG True v)"

text \<open>
  The \<open>float\<close> and \<open>double\<close> overloads: the object representation of the
  value, four or eight bytes little-endian, bound as \<open>FLOAT\<close> or
  \<open>DOUBLE\<close>; \<open>int_bind\<close> builds the bind of any scalar held in a word.
\<close>

definition param_float :: "c_float \<Rightarrow> statement \<Rightarrow> error + statement" where
  "param_float v = param_with (int_bind MYSQL_TYPE_FLOAT False v)"

definition param_double :: "c_double \<Rightarrow> statement \<Rightarrow> error + statement" where
  "param_double v = param_with (int_bind MYSQL_TYPE_DOUBLE False v)"

text \<open>Text and blob binds carry the bytes of the string; the length holder records their count.\<close>

definition string_bytes :: "string \<Rightarrow> 8 word list" where
  "string_bytes s = map (\<lambda>ch. of_nat (of_char ch)) s"

definition text_bind :: "enum_field_types \<Rightarrow> string \<Rightarrow> param_bind" where
  "text_bind t s =
     \<lparr>bind_buffer_type = t, bind_buffer_length = of_nat (length s), bind_is_unsigned = 0,
      bind_data = string_bytes s, bind_is_null = 0\<rparr>"

definition param_string :: "string \<Rightarrow> statement \<Rightarrow> error + statement" where
  "param_string s = param_with (text_bind MYSQL_TYPE_STRING s)"

definition param_blob :: "string \<Rightarrow> statement \<Rightarrow> error + statement" where
  "param_blob s = param_with (text_bind MYSQL_TYPE_BLOB s)"

text \<open>\<open>param_null(char is_null = 1)\<close>: the slot at the cursor marked \<open>NULL\<close> by the flag, the cursor advanced.\<close>

definition param_null :: "8 word \<Rightarrow> statement \<Rightarrow> error + statement" where
  "param_null is_null = param_with (empty_bind\<lparr>bind_is_null := is_null\<rparr>)"

subsection \<open>Execution\<close>

definition param_of_bind :: "param_bind \<Rightarrow> param_value" where
  "param_of_bind b =
     (if bind_is_null b \<noteq> 0 then Param_null
      else Param_val (bind_buffer_type b) (bind_is_unsigned b \<noteq> 0) (bind_data b))"

text \<open>
  Every \<open>execute\<close> and \<open>query\<close> consumes the bind set: the cursor returns
  to zero whatever the outcome. A bind count other than the declared one is
  reported as \<open>BindError\<close> before the server is reached.
\<close>

definition run_statement :: "server \<Rightarrow> statement \<Rightarrow> (error + exec_outcome) \<times> statement" where
  "run_statement srv st =
     (let st' = st\<lparr>stm_bind_index := 0\<rparr>
      in if stm_bind_index st \<noteq> stm_param_count st then (Inl (Failed BindError), st')
         else (case srv_execute srv (sh_query (stm_stmt st)) (map param_of_bind (stm_binds st)) of
                 Exec_rejected \<Rightarrow> (Inl (Failed ExecuteError), st')
               | out \<Rightarrow> (Inr out, st')))"

text \<open>\<open>execute()\<close>: the affected-row count (for a result set, its row count).\<close>

definition statement_execute :: "server \<Rightarrow> statement \<Rightarrow> (error + 64 word) \<times> statement" where
  "statement_execute srv st =
     (case run_statement srv st of
        (Inl e, st') \<Rightarrow> (Inl e, st')
      | (Inr (Exec_affected n), st') \<Rightarrow> (Inr (of_nat n), st')
      | (Inr (Exec_rows fs rows p), st') \<Rightarrow> (Inr (of_nat (length rows)), st')
      | (Inr Exec_rejected, st') \<Rightarrow> (Inl (Failed ExecuteError), st'))"

text \<open>\<open>query()\<close>: a new result over the result set, with its metadata bound; no result set is \<open>ExecuteError\<close>.\<close>

definition statement_query :: "server \<Rightarrow> statement \<Rightarrow> (error + result) \<times> statement" where
  "statement_query srv st =
     (case run_statement srv st of
        (Inl e, st') \<Rightarrow> (Inl e, st')
      | (Inr (Exec_rows fs rows p), st') \<Rightarrow>
          (if fs = [] then (Inl (Failed ExecuteError), st')
           else (Inr (snd (result_bind (result_new
                   \<lparr>st_fields = fs, st_rows = rows, st_row_count = length rows, st_pending_status = p\<rparr>))), st'))
      | (Inr _, st') \<Rightarrow> (Inl (Failed ExecuteError), st'))"

subsection \<open>Invariant and the caller's bind loop\<close>

text \<open>
  The invariant of the specification (section 3): the cursor lies within the
  declared count, and there is one bind slot and one length holder per
  placeholder. \<open>bind_all\<close> is a caller binding a list of values in order.
\<close>

definition stmt_wf :: "statement \<Rightarrow> bool" where
  "stmt_wf st \<longleftrightarrow>
     0 \<le> stm_bind_index st \<and> stm_bind_index st \<le> stm_param_count st \<and>
     length (stm_binds st) = nat (stm_param_count st) \<and> length (stm_lengths st) = nat (stm_param_count st)"

fun bind_all :: "param_bind list \<Rightarrow> statement \<Rightarrow> error + statement" where
  "bind_all [] st = Inr st"
| "bind_all (b # bs) st = (case param_with b st of Inl e \<Rightarrow> Inl e | Inr st' \<Rightarrow> bind_all bs st')"

lemma statement_new_wf:
  "statement_new srv q = Inr st \<Longrightarrow> stmt_wf st \<and> stm_bind_index st = 0 \<and> sh_query (stm_stmt st) = q"
  by (auto simp: statement_new_def stmt_wf_def split: option.splits)

lemma param_with_full:
  "stm_param_count st \<le> stm_bind_index st \<Longrightarrow> param_with b st = Inl (Failed BindError)"
  by (simp add: param_with_def get_bind_def)

lemma param_with_slot:
  assumes "stmt_wf st" "stm_bind_index st < stm_param_count st"
  shows "param_with b st = Inr (st\<lparr>stm_bind_index := stm_bind_index st + 1,
      stm_binds := (stm_binds st)[nat (stm_bind_index st) := b],
      stm_lengths := (stm_lengths st)[nat (stm_bind_index st) := of_nat (length (bind_data b))]\<rparr>)"
  using assms by (simp add: param_with_def get_bind_def)

lemma param_with_wf: "stmt_wf st \<Longrightarrow> param_with b st = Inr st' \<Longrightarrow> stmt_wf st'"
  by (auto simp: param_with_def get_bind_def stmt_wf_def split: if_splits)

lemma bind_all_prefix:
  assumes "stmt_wf st" "stm_bind_index st + int (length bs) \<le> stm_param_count st"
  shows "\<exists>st'. bind_all bs st = Inr st' \<and> stmt_wf st' \<and>
    stm_bind_index st' = stm_bind_index st + int (length bs) \<and>
    stm_binds st' = take (nat (stm_bind_index st)) (stm_binds st) @ bs @
      drop (nat (stm_bind_index st) + length bs) (stm_binds st) \<and>
    stm_stmt st' = stm_stmt st \<and> stm_param_count st' = stm_param_count st"
  using assms
proof (induction bs arbitrary: st)
  case Nil
  then show ?case by (simp add: stmt_wf_def)
next
  case (Cons b bs)
  define i where "i = nat (stm_bind_index st)"
  have lt: "stm_bind_index st < stm_param_count st" using Cons.prems by simp
  note s = param_with_slot [OF Cons.prems(1) lt, of b]
  define st1 where "st1 = st\<lparr>stm_bind_index := stm_bind_index st + 1,
      stm_binds := (stm_binds st)[nat (stm_bind_index st) := b],
      stm_lengths := (stm_lengths st)[nat (stm_bind_index st) := of_nat (length (bind_data b))]\<rparr>"
  have w1: "stmt_wf st1" using param_with_wf [OF Cons.prems(1) s] by (simp add: st1_def)
  have p1: "stm_bind_index st1 + int (length bs) \<le> stm_param_count st1" using Cons.prems(2) by (simp add: st1_def)
  obtain st' where ih: "bind_all bs st1 = Inr st'" "stmt_wf st'"
    "stm_bind_index st' = stm_bind_index st1 + int (length bs)"
    "stm_binds st' = take (nat (stm_bind_index st1)) (stm_binds st1) @ bs @
      drop (nat (stm_bind_index st1) + length bs) (stm_binds st1)"
    "stm_stmt st' = stm_stmt st1" "stm_param_count st' = stm_param_count st1"
    using Cons.IH [OF w1 p1] by blast
  have i1: "nat (stm_bind_index st1) = Suc i" using Cons.prems(1) by (simp add: st1_def i_def stmt_wf_def nat_add_distrib)
  have il: "i < length (stm_binds st)" using Cons.prems(1) lt by (simp add: i_def stmt_wf_def)
  have "take (Suc i) ((stm_binds st)[i := b]) @ bs @ drop (Suc i + length bs) ((stm_binds st)[i := b]) =
      take i (stm_binds st) @ (b # bs) @ drop (i + length (b # bs)) (stm_binds st)"
    using il by (simp add: take_Suc_conv_app_nth upd_conv_take_nth_drop add.commute)
  then show ?case using ih s i1 by (simp add: st1_def i_def)
qed

lemma run_statement_state: "snd (run_statement srv st) = st\<lparr>stm_bind_index := 0\<rparr>"
  by (simp add: run_statement_def Let_def split: exec_outcome.split)

lemma statement_ops_state:
  "snd (statement_execute srv st) = st\<lparr>stm_bind_index := 0\<rparr>"
  "snd (statement_query srv st) = st\<lparr>stm_bind_index := 0\<rparr>"
  using run_statement_state [of srv st]
  by (auto simp: statement_execute_def statement_query_def split: prod.split sum.split exec_outcome.split)

lemma stmt_wf_reset: "stmt_wf st \<Longrightarrow> stmt_wf (st\<lparr>stm_bind_index := 0\<rparr>)"
  by (simp add: stmt_wf_def)

lemma run_statement_mismatch:
  "stm_bind_index st \<noteq> stm_param_count st \<Longrightarrow> run_statement srv st = (Inl (Failed BindError), st\<lparr>stm_bind_index := 0\<rparr>)"
  by (simp add: run_statement_def)

lemma bind_all_overflow:
  assumes "stmt_wf st" "stm_param_count st < stm_bind_index st + int (length bs)"
  shows "bind_all bs st = Inl (Failed BindError)"
  using assms
proof (induction bs arbitrary: st)
  case Nil
  then show ?case by (simp add: stmt_wf_def)
next
  case (Cons b bs)
  show ?case
  proof (cases "stm_bind_index st < stm_param_count st")
    case True
    note s = param_with_slot [OF Cons.prems(1) True, of b]
    have "stmt_wf (st\<lparr>stm_bind_index := stm_bind_index st + 1,
      stm_binds := (stm_binds st)[nat (stm_bind_index st) := b],
      stm_lengths := (stm_lengths st)[nat (stm_bind_index st) := of_nat (length (bind_data b))]\<rparr>)"
      using param_with_wf [OF Cons.prems(1) s] .
    then show ?thesis using Cons.IH Cons.prems(2) s by simp
  next
    case False
    then show ?thesis using param_with_full [of st b] by simp
  qed
qed

lemma statement_ops_mismatch:
  assumes "stm_bind_index st \<noteq> stm_param_count st"
  shows "statement_execute srv st = (Inl (Failed BindError), st\<lparr>stm_bind_index := 0\<rparr>) \<and>
    statement_query srv st = (Inl (Failed BindError), st\<lparr>stm_bind_index := 0\<rparr>)"
  using run_statement_mismatch [OF assms, of srv] by (simp add: statement_execute_def statement_query_def)

section \<open>Properties of the statement engine\<close>

text \<open>
  C28. A bind cycle on a freshly prepared statement: binding exactly as many
  values as the query has placeholders fills the slots in order, and the
  execution that follows sends exactly those values, in that order, to the
  server and reports its outcome.
\<close>

theorem statement_bind_cycle:
  assumes "statement_new srv q = Inr st" "srv_prepare srv q = Some n" "length bs = n"
  shows "\<exists>st'. bind_all bs st = Inr st' \<and> stm_binds st' = bs \<and>
    fst (run_statement srv st') =
      (case srv_execute srv q (map param_of_bind bs) of
         Exec_rejected \<Rightarrow> Inl (Failed ExecuteError)
       | out \<Rightarrow> Inr out)"
proof -
  have st: "stmt_wf st" "stm_bind_index st = 0" "sh_query (stm_stmt st) = q" "stm_param_count st = int n"
    "length (stm_binds st) = n"
    using statement_new_wf [OF assms(1)] assms(1,2) by (auto simp: statement_new_def)
  obtain st' where b: "bind_all bs st = Inr st'" "stm_bind_index st' = int n" "stm_binds st' = bs"
    "stm_stmt st' = stm_stmt st" "stm_param_count st' = int n"
    using bind_all_prefix [OF st(1), of bs] st assms(3) by auto
  then show ?thesis using st
    by (auto simp: run_statement_def Let_def split: exec_outcome.split)
qed

theorem statement_bind_cycle_witness:
  "\<exists>st'. bind_all [int_bind MYSQL_TYPE_LONG False (5 :: 32 word)]
      (projr (statement_new \<lparr>srv_prepare = \<lambda>q. Some 1, srv_execute = \<lambda>q ps. Exec_affected (length ps)\<rparr> ''DELETE FROM t WHERE a=?'')) = Inr st' \<and>
    fst (run_statement \<lparr>srv_prepare = \<lambda>q. Some 1, srv_execute = \<lambda>q ps. Exec_affected (length ps)\<rparr> st') = Inr (Exec_affected 1)"
proof -
  define srv :: server where "srv = \<lparr>srv_prepare = \<lambda>q. Some 1, srv_execute = \<lambda>q ps. Exec_affected (length ps)\<rparr>"
  have n: "statement_new srv ''DELETE FROM t WHERE a=?'' = Inr (projr (statement_new srv ''DELETE FROM t WHERE a=?''))"
    "srv_prepare srv ''DELETE FROM t WHERE a=?'' = Some 1" by (simp_all add: srv_def statement_new_def)
  show ?thesis using statement_bind_cycle [OF n, of "[int_bind MYSQL_TYPE_LONG False (5 :: 32 word)]"]
    by (simp add: srv_def [symmetric]) (auto simp: srv_def)
qed

text \<open>
  C29. Binding more values than the declared placeholder count fails with
  \<open>BindError\<close>: extra binds are never silently ignored.
\<close>

theorem statement_too_many_params:
  assumes "stmt_wf st" "stm_param_count st < stm_bind_index st + int (length bs)"
  shows "bind_all bs st = Inl (Failed BindError)"
  using bind_all_overflow [OF assms] .

theorem statement_too_many_params_witness:
  "bind_all [empty_bind, empty_bind]
     \<lparr>stm_stmt = \<lparr>sh_query = ''DELETE FROM t WHERE a=?''\<rparr>, stm_param_count = 1, stm_bind_index = 0,
      stm_binds = [empty_bind], stm_lengths = [0]\<rparr> = Inl (Failed BindError)"
  by (rule statement_too_many_params) (simp_all add: stmt_wf_def)

text \<open>
  C30. Executing with fewer values bound than declared fails with
  \<open>BindError\<close>, for \<open>execute\<close> and for \<open>query\<close>, without reaching the
  server, and resets the position cursor.
\<close>

theorem statement_too_few_params:
  assumes "stmt_wf st" "stm_bind_index st < stm_param_count st"
  shows "statement_execute srv st = (Inl (Failed BindError), st\<lparr>stm_bind_index := 0\<rparr>) \<and>
    statement_query srv st = (Inl (Failed BindError), st\<lparr>stm_bind_index := 0\<rparr>)"
  using statement_ops_mismatch [of st srv] assms(2) by simp

theorem statement_too_few_params_witness:
  "fst (statement_execute \<lparr>srv_prepare = \<lambda>q. Some 2, srv_execute = \<lambda>q ps. Exec_affected 1\<rparr>
     \<lparr>stm_stmt = \<lparr>sh_query = ''INSERT INTO t(a,b) VALUES (?,?)''\<rparr>, stm_param_count = 2, stm_bind_index = 1,
      stm_binds = [empty_bind, empty_bind], stm_lengths = [0, 0]\<rparr>) = Inl (Failed BindError)"
proof -
  have "stmt_wf \<lparr>stm_stmt = \<lparr>sh_query = ''INSERT INTO t(a,b) VALUES (?,?)''\<rparr>, stm_param_count = 2, stm_bind_index = 1,
      stm_binds = [empty_bind, empty_bind], stm_lengths = [0, 0]\<rparr>" by (simp add: stmt_wf_def)
  from statement_too_few_params [OF this] show ?thesis by simp
qed

text \<open>
  C31. The binds of a cycle are consumed by its \<open>execute\<close> or \<open>query\<close>,
  whatever the outcome: on a statement with placeholders, a second execution
  without rebinding fails with \<open>BindError\<close> instead of reusing stale values.
\<close>

theorem statement_no_stale_binds:
  assumes "0 < stm_param_count st"
  shows "fst (statement_execute srv' (snd (statement_execute srv st))) = Inl (Failed BindError) \<and>
    fst (statement_execute srv' (snd (statement_query srv st))) = Inl (Failed BindError) \<and>
    fst (statement_query srv' (snd (statement_execute srv st))) = Inl (Failed BindError) \<and>
    fst (statement_query srv' (snd (statement_query srv st))) = Inl (Failed BindError)"
  using assms statement_ops_mismatch [of "st\<lparr>stm_bind_index := 0\<rparr>" srv'] by (simp add: statement_ops_state)

theorem statement_no_stale_binds_witness:
  "fst (statement_execute \<lparr>srv_prepare = \<lambda>q. Some 1, srv_execute = \<lambda>q ps. Exec_affected 1\<rparr>
     (snd (statement_execute \<lparr>srv_prepare = \<lambda>q. Some 1, srv_execute = \<lambda>q ps. Exec_affected 1\<rparr>
       \<lparr>stm_stmt = \<lparr>sh_query = ''DELETE FROM t WHERE a=?''\<rparr>, stm_param_count = 1, stm_bind_index = 1,
        stm_binds = [int_bind MYSQL_TYPE_LONG False (5 :: 32 word)], stm_lengths = [4]\<rparr>))) = Inl (Failed BindError)"
  using statement_no_stale_binds [of "\<lparr>stm_stmt = \<lparr>sh_query = ''DELETE FROM t WHERE a=?''\<rparr>, stm_param_count = 1,
      stm_bind_index = 1, stm_binds = [int_bind MYSQL_TYPE_LONG False (5 :: 32 word)], stm_lengths = [4]\<rparr>"]
  by simp

text \<open>
  C32. The statement invariant (cursor within the declared count, one slot and
  one length holder per placeholder) is preserved by binding, \<open>execute\<close>
  and \<open>query\<close>.
\<close>

theorem statement_wf_preserved:
  assumes "stmt_wf st"
  shows "(param_with b st = Inr st' \<longrightarrow> stmt_wf st') \<and> stmt_wf (snd (statement_execute srv st)) \<and>
    stmt_wf (snd (statement_query srv st))"
  using assms param_with_wf [OF assms] by (simp add: statement_ops_state stmt_wf_reset)

theorem statement_wf_preserved_witness:
  "stmt_wf (snd (statement_execute \<lparr>srv_prepare = \<lambda>q. Some 1, srv_execute = \<lambda>q ps. Exec_rejected\<rparr>
     \<lparr>stm_stmt = \<lparr>sh_query = ''DELETE FROM t WHERE a=?''\<rparr>, stm_param_count = 1, stm_bind_index = 1,
      stm_binds = [empty_bind], stm_lengths = [0]\<rparr>))"
proof -
  have "stmt_wf \<lparr>stm_stmt = \<lparr>sh_query = ''DELETE FROM t WHERE a=?''\<rparr>, stm_param_count = 1, stm_bind_index = 1,
      stm_binds = [empty_bind], stm_lengths = [0]\<rparr>" by (simp add: stmt_wf_def)
  from statement_wf_preserved [OF this] show ?thesis by simp
qed


text \<open>
  C33. Floating-point values survive the wire: a \<open>float\<close> bound by
  \<open>param(float)\<close> and held by a \<open>FLOAT\<close> column reads back unchanged through
  \<open>get<float>\<close> and, when finite, with the same value through
  \<open>get<double>\<close>; one widened to \<open>double\<close> and held by a \<open>DOUBLE\<close> column
  reads back through \<open>get<float>\<close> as the original, unless it is a NaN.
\<close>

theorem param_float_fetch_roundtrip:
  "(col_type c = MYSQL_TYPE_FLOAT \<and> take 4 (col_buffer c) = bind_data (int_bind MYSQL_TYPE_FLOAT False x) \<longrightarrow>
      fetch_column_float c v = x \<and>
      (fp_is_finite 23 8 (float_fields x) \<longrightarrow> double_value (fetch_column_double c u) = float_value x)) \<and>
   (col_type c = MYSQL_TYPE_DOUBLE \<and>
    take 8 (col_buffer c) = bind_data (int_bind MYSQL_TYPE_DOUBLE False (double_of_float x)) \<and>
    \<not> fp_is_nan 23 8 (float_fields x) \<longrightarrow> fetch_column_float c v = x)"
  by (auto simp: fetch_column_float_def fetch_column_double_def int_bind_def of_nat_le_value_bytes4
      of_nat_le_value_bytes8 double_of_float_value float_double_float)

theorem param_float_fetch_roundtrip_witness:
  "fetch_column_float ((st_mysql_column_new MYSQL_TYPE_FLOAT)\<lparr>col_buffer := bind_data (int_bind MYSQL_TYPE_FLOAT False (0x3FC00000 :: c_float))\<rparr>) 0 = 0x3FC00000 \<and>
   double_value (fetch_column_double ((st_mysql_column_new MYSQL_TYPE_FLOAT)\<lparr>col_buffer := bind_data (int_bind MYSQL_TYPE_FLOAT False (0x3FC00000 :: c_float))\<rparr>) 0) = 3 / 2 \<and>
   fetch_column_float ((st_mysql_column_new MYSQL_TYPE_DOUBLE)\<lparr>col_buffer := bind_data (int_bind MYSQL_TYPE_DOUBLE False (double_of_float 0x3FC00000))\<rparr>) 0 = 0x3FC00000"
proof -
  define x where "x = (0x3FC00000 :: c_float)"
  define c where "c = (st_mysql_column_new MYSQL_TYPE_FLOAT)\<lparr>col_buffer := bind_data (int_bind MYSQL_TYPE_FLOAT False x)\<rparr>"
  define d where "d = (st_mysql_column_new MYSQL_TYPE_DOUBLE)\<lparr>col_buffer := bind_data (int_bind MYSQL_TYPE_DOUBLE False (double_of_float x))\<rparr>"
  have fin: "fp_is_finite 23 8 (float_fields x)" "\<not> fp_is_nan 23 8 (float_fields x)"
    by (simp_all add: x_def fp_simps)
  have val: "float_value x = 3 / 2" by (simp add: x_def fp_simps)
  have hc: "col_type c = MYSQL_TYPE_FLOAT" "take 4 (col_buffer c) = bind_data (int_bind MYSQL_TYPE_FLOAT False x)"
    by (simp_all add: c_def st_mysql_column_new_def int_bind_def)
  have hd: "col_type d = MYSQL_TYPE_DOUBLE"
    "take 8 (col_buffer d) = bind_data (int_bind MYSQL_TYPE_DOUBLE False (double_of_float x))"
    by (simp_all add: d_def st_mysql_column_new_def int_bind_def)
  have "fetch_column_float c 0 = x" "double_value (fetch_column_double c 0) = float_value x"
    using param_float_fetch_roundtrip [of c x 0 0] hc fin by simp_all
  moreover have "fetch_column_float d 0 = x" using param_float_fetch_roundtrip [of d x 0 0] hd fin by simp
  ultimately show ?thesis using val by (simp add: c_def d_def x_def)
qed

end
