(* ===== verification/Connection.thy ===== *)
theory Connection
  imports Statement
begin

text \<open>
  The session wrapper \<open>mysqlpp::connection\<close> (src/mysqlpp.hpp, lines
  251-286). The header gives its state (lines 281-284), the defaults of the
  constructor's parameters (line 254) and the bodies of the four accessors of
  the pool bookkeeping (lines 260-278); the constructor, \<open>ping\<close> and
  \<open>prepare\<close> are not part of the sources and follow the specification
  (section 4.4). The client library's session handle \<open>st_mysql\<close> is the
  server it reaches and whether the session is still alive; opening a session
  is an interface \<open>connect\<close> from the connection parameters to a server, or
  none when authentication or the network fails.
\<close>

record conn_params =
  cp_host :: string
  cp_userid :: string
  cp_passwd :: string
  cp_database :: string
  cp_port :: uint32
  cp_charset :: string
  cp_pooled :: bool

text \<open>The defaults of line 254: port 3306, charset \<open>"utf8"\<close>, not pooled.\<close>

definition default_params :: "string \<Rightarrow> string \<Rightarrow> string \<Rightarrow> string \<Rightarrow> conn_params" where
  "default_params host userid passwd database =
     \<lparr>cp_host = host, cp_userid = userid, cp_passwd = passwd, cp_database = database, cp_port = 3306,
      cp_charset = ''utf8'', cp_pooled = False\<rparr>"

record st_mysql =
  my_server :: server
  my_alive :: bool

text \<open>Lines 281-284: the session handle, the last-released time, the pooled flag.\<close>

record connection =
  conn_mysql :: st_mysql
  conn_released :: tm
  conn_pooled :: bool

text \<open>
  The constructor opens the session; \<open>released\<close> is a member of type
  \<open>std::tm\<close> the constructor is not specified to set, the parameter \<open>junk\<close>.
\<close>

definition connection_new :: "(conn_params \<Rightarrow> server option) \<Rightarrow> tm \<Rightarrow> conn_params \<Rightarrow> error + connection" where
  "connection_new connect junk p =
     (case connect p of
        None \<Rightarrow> Inl (Failed ConnectError)
      | Some srv \<Rightarrow> Inr \<lparr>conn_mysql = \<lparr>my_server = srv, my_alive = True\<rparr>, conn_released = junk,
                         conn_pooled = cp_pooled p\<rparr>)"

text \<open>\<open>ping()\<close>: liveness as a value, never an error.\<close>

definition connection_ping :: "connection \<Rightarrow> bool" where
  "connection_ping c = my_alive (conn_mysql c)"

text \<open>The session failing underneath the connection (the network or the server going away).\<close>

definition connection_drop :: "connection \<Rightarrow> connection" where
  "connection_drop c = c\<lparr>conn_mysql := (conn_mysql c)\<lparr>my_alive := False\<rparr>\<rparr>"

text \<open>\<open>prepare(query)\<close>: a statement on this session; a failed session is \<open>PrepareError\<close>.\<close>

definition connection_prepare :: "connection \<Rightarrow> string \<Rightarrow> error + statement" where
  "connection_prepare c query =
     (if my_alive (conn_mysql c) then statement_new (my_server (conn_mysql c)) query
      else Inl (Failed PrepareError))"

text \<open>Lines 260-278. \<open>last_released()\<close> returns a pointer to the member; the model returns its value.\<close>

definition last_released :: "connection \<Rightarrow> tm" where
  "last_released c = conn_released c"

definition set_released :: "tm \<Rightarrow> connection \<Rightarrow> connection" where
  "set_released released' c = c\<lparr>conn_released := released'\<rparr>"

definition is_pooled :: "connection \<Rightarrow> bool" where
  "is_pooled c = conn_pooled c"

definition set_pooled :: "bool \<Rightarrow> connection \<Rightarrow> connection" where
  "set_pooled pooled' c = c\<lparr>conn_pooled := pooled'\<rparr>"

section \<open>Properties of the connection\<close>

text \<open>
  The pool bookkeeping is independent storage: \<open>set_released\<close> and
  \<open>set_pooled\<close> are read back by \<open>last_released\<close> and \<open>is_pooled\<close>, neither
  disturbs the other, and neither touches the session, so \<open>ping\<close> and
  \<open>prepare\<close> behave as before.
\<close>

theorem pool_bookkeeping:
  "last_released (set_released t c) = t \<and> is_pooled (set_pooled b c) = b \<and>
   is_pooled (set_released t c) = is_pooled c \<and> last_released (set_pooled b c) = last_released c \<and>
   connection_ping (set_released t c) = connection_ping c \<and> connection_ping (set_pooled b c) = connection_ping c \<and>
   connection_prepare (set_released t c) = connection_prepare c \<and> connection_prepare (set_pooled b c) = connection_prepare c"
  by (simp add: last_released_def set_released_def is_pooled_def set_pooled_def connection_ping_def
      connection_prepare_def fun_eq_iff)

text \<open>
  Opening a session: with the defaults of line 254 the connection is
  not pooled and its session is alive; a failed open is \<open>ConnectError\<close>; a
  session that has failed answers \<open>ping\<close> with false and refuses
  \<open>prepare\<close> with \<open>PrepareError\<close>, without an exception.
\<close>

theorem connection_open_ping:
  "(connect (default_params h u pw db) = Some srv \<longrightarrow>
      (\<exists>c. connection_new connect junk (default_params h u pw db) = Inr c \<and> \<not> is_pooled c \<and> connection_ping c \<and>
         connection_prepare c q = statement_new srv q)) \<and>
   (connect p = None \<longrightarrow> connection_new connect junk p = Inl (Failed ConnectError)) \<and>
   \<not> connection_ping (connection_drop c) \<and> connection_prepare (connection_drop c) q = Inl (Failed PrepareError)"
  by (auto simp: connection_new_def default_params_def is_pooled_def connection_ping_def connection_prepare_def
      connection_drop_def)

theorem connection_open_ping_witness:
  "connection_ping (projr (connection_new (\<lambda>p. Some \<lparr>srv_prepare = \<lambda>q. Some 0, srv_execute = \<lambda>q ps. Exec_affected 0\<rparr>)
      (breakdown 0) (default_params ''localhost'' ''root'' '''' ''test''))) \<and>
   connection_new (\<lambda>p. None) (breakdown 0) (default_params ''localhost'' ''root'' '''' ''test'') = Inl (Failed ConnectError)"
proof -
  define srv where "srv = \<lparr>srv_prepare = \<lambda>q. Some 0, srv_execute = \<lambda>q ps. Exec_affected (0 :: nat)\<rparr>"
  define prm where "prm = default_params ''localhost'' ''root'' '''' ''test''"
  obtain c where c: "connection_new (\<lambda>p. Some srv) (breakdown 0) prm = Inr c" "connection_ping c"
    using connection_open_ping [of "\<lambda>p. Some srv" "''localhost''" "''root''" "''''" "''test''" srv "breakdown 0" "''SELECT 1''"]
    by (auto simp: prm_def)
  have n: "connection_new (\<lambda>p. None) (breakdown 0) prm = Inl (Failed ConnectError)"
    using connection_open_ping [of "\<lambda>p. None" _ _ _ _ _ "breakdown 0" _ prm] by simp
  show ?thesis using c n by (simp add: srv_def [symmetric] prm_def [symmetric])
qed

end
