(* ===== verification/Session.thy ===== *)
theory Session
  imports Connection
begin

text \<open>
  The lifecycle of the specification (section 4.4) as a step function on the
  state one caller drives: a connection, a statement prepared on it, the
  result of its last \<open>query\<close> if any, and whether the handles have been
  closed. Each operation of the caller is a constructor of \<open>op\<close>;
  \<open>Op_drop\<close> is the environment, the session failing underneath. A
  statement or result on a failed session reports \<open>ExecuteError\<close> and
  \<open>FetchError\<close> (section 7). \<open>Op_close\<close> and \<open>UseAfterCloseError\<close>
  follow the specification's state machine (section 4.4): the header
  declares no \<open>close()\<close> (its objects are closed by their destructors,
  after which use is undefined), so nothing about them is claimed of the
  code. \<open>session_reach\<close> is the set of states a caller
  can reach from a freshly prepared statement, and the invariants are proved
  by rule induction on it.
\<close>

record session =
  ses_conn :: connection
  ses_stmt :: statement
  ses_result :: "result option"
  ses_closed :: bool

datatype op = Op_param param_bind | Op_execute | Op_query | Op_fetch bool | Op_drop | Op_close

datatype outcome = Out_done | Out_affected "64 word" | Out_fetched bool

definition session_step :: "op \<Rightarrow> session \<Rightarrow> (error + outcome) \<times> session" where
  "session_step cmd s =
     (if ses_closed s then (Inl (Failed UseAfterCloseError), s)
      else (let srv = my_server (conn_mysql (ses_conn s)); alive = my_alive (conn_mysql (ses_conn s))
            in case cmd of
                 Op_param b \<Rightarrow>
                   (case param_with b (ses_stmt s) of
                      Inl e \<Rightarrow> (Inl e, s)
                    | Inr st \<Rightarrow> (Inr Out_done, s\<lparr>ses_stmt := st\<rparr>))
               | Op_execute \<Rightarrow>
                   (if \<not> alive then (Inl (Failed ExecuteError), s)
                    else (case statement_execute srv (ses_stmt s) of
                            (r, st) \<Rightarrow> (map_sum id Out_affected r, s\<lparr>ses_stmt := st\<rparr>)))
               | Op_query \<Rightarrow>
                   (if \<not> alive then (Inl (Failed ExecuteError), s)
                    else (case statement_query srv (ses_stmt s) of
                            (Inl e, st) \<Rightarrow> (Inl e, s\<lparr>ses_stmt := st\<rparr>)
                          | (Inr r, st) \<Rightarrow> (Inr Out_done, s\<lparr>ses_stmt := st, ses_result := Some r\<rparr>)))
               | Op_fetch p \<Rightarrow>
                   (case ses_result s of
                      None \<Rightarrow> (Inl (Failed FetchError), s)
                    | Some r \<Rightarrow>
                        (if \<not> alive then (Inl (Failed FetchError), s)
                         else (case result_fetch p r of
                                 (b, r') \<Rightarrow> (Inr (Out_fetched b), s\<lparr>ses_result := Some r'\<rparr>))))
               | Op_drop \<Rightarrow> (Inr Out_done, s\<lparr>ses_conn := connection_drop (ses_conn s)\<rparr>)
               | Op_close \<Rightarrow> (Inr Out_done, s\<lparr>ses_closed := True\<rparr>)))"

text \<open>A caller's sequence of operations: the outcome of each, and the final state.\<close>

fun session_run :: "op list \<Rightarrow> session \<Rightarrow> (error + outcome) list \<times> session" where
  "session_run [] s = ([], s)"
| "session_run (cmd # cmds) s =
     (case session_step cmd s of (r, s') \<Rightarrow> (case session_run cmds s' of (rs, s'') \<Rightarrow> (r # rs, s'')))"

datatype phase = Prepared | Params_bound | Row_streaming | Exhausted | Closed

definition session_phase :: "session \<Rightarrow> phase" where
  "session_phase s =
     (if ses_closed s then Closed
      else case ses_result s of
             Some r \<Rightarrow> (if st_rows (res_stmt r) = [] then Exhausted else Row_streaming)
           | None \<Rightarrow> (if stm_bind_index (ses_stmt s) = 0 then Prepared else Params_bound))"

inductive session_reach :: "session \<Rightarrow> bool" where
  start: "connection_prepare c q = Inr st \<Longrightarrow>
            session_reach \<lparr>ses_conn = c, ses_stmt = st, ses_result = None, ses_closed = False\<rparr>"
| step: "session_reach s \<Longrightarrow> session_reach (snd (session_step cmd s))"

text \<open>The server keeps its promise that every row of a result set has one cell per field, each of a size the protocol can report.\<close>

definition server_ok :: "server \<Rightarrow> bool" where
  "server_ok srv \<longleftrightarrow>
     (\<forall>q ps fs rows p. srv_execute srv q ps = Exec_rows fs rows p \<longrightarrow>
        list_all (\<lambda>vs. length vs = length fs \<and> list_all cell_fits vs) rows)"

definition session_inv :: "session \<Rightarrow> bool" where
  "session_inv s \<longleftrightarrow>
     stmt_wf (ses_stmt s) \<and> (case ses_result s of None \<Rightarrow> True | Some r \<Rightarrow> result_wf r \<and> rows_fit r)"

lemma result_fetch_wf:
  assumes "result_wf r" "rows_fit r"
  shows "result_wf (snd (result_fetch p r)) \<and> rows_fit (snd (result_fetch p r))"
proof (cases "st_rows (res_stmt r)")
  case Nil
  then show ?thesis using result_fetch_end [OF Nil, of p] assms
    by (simp add: result_wf_def rows_fit_def)
next
  case (Cons vs rest)
  then show ?thesis using result_fetch_row [OF assms Cons, of p] by simp
qed

lemma run_statement_out:
  "fst (run_statement srv st) = Inr out \<Longrightarrow>
     srv_execute srv (sh_query (stm_stmt st)) (map param_of_bind (stm_binds st)) = out"
  by (auto simp: run_statement_def Let_def split: if_splits exec_outcome.splits)

lemma statement_query_wf:
  assumes "server_ok srv" "fst (statement_query srv st) = Inr r"
  shows "result_wf r \<and> rows_fit r"
proof -
  obtain x st' where rs: "run_statement srv st = (x, st')" by (cases "run_statement srv st")
  obtain fs rows p where x: "x = Inr (Exec_rows fs rows p)" and fs: "fs \<noteq> []"
    and r: "r = snd (result_bind (result_new \<lparr>st_fields = fs, st_rows = rows, st_row_count = length rows,
      st_pending_status = p\<rparr>))"
    using assms(2) rs
    by (auto simp: statement_query_def split: sum.splits exec_outcome.splits if_splits)
  have "srv_execute srv (sh_query (stm_stmt st)) (map param_of_bind (stm_binds st)) = Exec_rows fs rows p"
    using run_statement_out [of srv st] rs x by simp
  then have "list_all (\<lambda>vs. length vs = length fs \<and> list_all cell_fits vs) rows"
    using assms(1) unfolding server_ok_def by blast
  then show ?thesis using result_bind_new [of "\<lparr>st_fields = fs, st_rows = rows, st_row_count = length rows,
      st_pending_status = p\<rparr>"] fs r by simp
qed

lemma session_step_server:
  "my_server (conn_mysql (ses_conn (snd (session_step cmd s)))) = my_server (conn_mysql (ses_conn s))"
  by (auto simp: session_step_def Let_def connection_drop_def
      split: op.split sum.split prod.split option.split if_split)

lemma session_step_inv:
  assumes "session_inv s" "server_ok (my_server (conn_mysql (ses_conn s)))"
  shows "session_inv (snd (session_step cmd s))"
proof -
  have w: "stmt_wf (ses_stmt s)" using assms(1) by (simp add: session_inv_def)
  show ?thesis
  proof (cases cmd)
    case (Op_param b)
    then show ?thesis using assms(1) param_with_wf [OF w, of b]
      by (auto simp: session_step_def session_inv_def split: sum.split)
  next
    case Op_execute
    obtain a b where ab: "statement_execute (my_server (conn_mysql (ses_conn s))) (ses_stmt s) = (a, b)"
      by (cases "statement_execute (my_server (conn_mysql (ses_conn s))) (ses_stmt s)")
    have "b = (ses_stmt s)\<lparr>stm_bind_index := 0\<rparr>"
      using statement_ops_state(1) [of "my_server (conn_mysql (ses_conn s))" "ses_stmt s"] ab by simp
    then show ?thesis using Op_execute ab assms(1) stmt_wf_reset [OF w]
      by (auto simp: session_step_def session_inv_def Let_def)
  next
    case Op_query
    have q: "\<And>r st'. statement_query (my_server (conn_mysql (ses_conn s))) (ses_stmt s) = (Inr r, st') \<Longrightarrow>
        result_wf r \<and> rows_fit r"
      using statement_query_wf [OF assms(2)] by (metis fst_conv)
    obtain a b where ab: "statement_query (my_server (conn_mysql (ses_conn s))) (ses_stmt s) = (a, b)"
      by (cases "statement_query (my_server (conn_mysql (ses_conn s))) (ses_stmt s)")
    have "b = (ses_stmt s)\<lparr>stm_bind_index := 0\<rparr>"
      using statement_ops_state(2) [of "my_server (conn_mysql (ses_conn s))" "ses_stmt s"] ab by simp
    then show ?thesis using Op_query ab assms(1) stmt_wf_reset [OF w] q
      by (cases a) (auto simp: session_step_def session_inv_def Let_def)
  next
    case (Op_fetch p)
    then show ?thesis using assms(1)
      by (auto simp: session_step_def session_inv_def Let_def split: prod.split option.split)
        (metis result_fetch_wf snd_conv)+
  next
    case Op_drop
    then show ?thesis using assms(1) by (simp add: session_step_def session_inv_def)
  next
    case Op_close
    then show ?thesis using assms(1) by (simp add: session_step_def session_inv_def)
  qed
qed

section \<open>Properties of the lifecycle\<close>

text \<open>
  C35. Every state a caller can reach from a freshly prepared statement, by
  any sequence of binds, executions, queries, fetches, session failures and
  closes, satisfies the invariants of the statement and of its result, as
  long as the server's result sets have one cell per field.
\<close>

theorem session_invariant:
  "session_reach s \<Longrightarrow> server_ok (my_server (conn_mysql (ses_conn s))) \<Longrightarrow> session_inv s"
proof (induction rule: session_reach.induct)
  case (start c q st)
  have "statement_new (my_server (conn_mysql c)) q = Inr st"
    using start.hyps by (simp add: connection_prepare_def split: if_splits)
  then show ?case using statement_new_wf by (simp add: session_inv_def)
next
  case (step s cmd)
  then show ?case using session_step_inv session_step_server by metis
qed

theorem session_invariant_witness:
  "session_inv (snd (session_step (Op_param (int_bind MYSQL_TYPE_LONG False (5 :: 32 word)))
     \<lparr>ses_conn = \<lparr>conn_mysql = \<lparr>my_server = \<lparr>srv_prepare = \<lambda>q. Some 1, srv_execute = \<lambda>q ps. Exec_affected 1\<rparr>,
                    my_alive = True\<rparr>, conn_released = breakdown 0, conn_pooled = False\<rparr>,
      ses_stmt = projr (statement_new \<lparr>srv_prepare = \<lambda>q. Some 1, srv_execute = \<lambda>q ps. Exec_affected 1\<rparr>
                   ''DELETE FROM t WHERE a=?''),
      ses_result = None, ses_closed = False\<rparr>))"
proof -
  define srv :: server where "srv = \<lparr>srv_prepare = \<lambda>q. Some 1, srv_execute = \<lambda>q ps. Exec_affected 1\<rparr>"
  define c where "c = \<lparr>conn_mysql = \<lparr>my_server = srv, my_alive = True\<rparr>, conn_released = breakdown 0, conn_pooled = False\<rparr>"
  have p: "connection_prepare c ''DELETE FROM t WHERE a=?'' = Inr (projr (statement_new srv ''DELETE FROM t WHERE a=?''))"
    by (simp add: c_def srv_def connection_prepare_def statement_new_def)
  have r: "session_reach (snd (session_step (Op_param (int_bind MYSQL_TYPE_LONG False (5 :: 32 word)))
     \<lparr>ses_conn = c, ses_stmt = projr (statement_new srv ''DELETE FROM t WHERE a=?''), ses_result = None, ses_closed = False\<rparr>))"
    by (rule session_reach.step, rule session_reach.start, rule p)
  have o: "server_ok (my_server (conn_mysql (ses_conn (snd (session_step (Op_param (int_bind MYSQL_TYPE_LONG False (5 :: 32 word)))
     \<lparr>ses_conn = c, ses_stmt = projr (statement_new srv ''DELETE FROM t WHERE a=?''), ses_result = None, ses_closed = False\<rparr>)))))"
    by (simp add: session_step_server c_def srv_def server_ok_def)
  show ?thesis using session_invariant [OF r o] by (simp add: c_def srv_def)
qed

text \<open>
  \<open>Exhausted\<close> is stable: on a live session whose result has no rows
  left, \<open>fetch\<close> returns false without an error and the result stays
  exhausted.
\<close>

theorem session_exhausted_fetch:
  assumes "session_phase s = Exhausted" "my_alive (conn_mysql (ses_conn s))"
  shows "fst (session_step (Op_fetch p) s) = Inr (Out_fetched False) \<and>
    session_phase (snd (session_step (Op_fetch p) s)) = Exhausted"
proof -
  obtain r where r: "\<not> ses_closed s" "ses_result s = Some r" "st_rows (res_stmt r) = []"
    using assms(1) by (auto simp: session_phase_def split: if_splits option.splits)
  then show ?thesis using result_fetch_end [OF r(3), of p] assms(2)
    by (cases "result_fetch p r") (simp add: session_step_def session_phase_def Let_def)
qed

theorem session_exhausted_fetch_witness:
  "fst (session_step (Op_fetch True)
     \<lparr>ses_conn = \<lparr>conn_mysql = \<lparr>my_server = \<lparr>srv_prepare = \<lambda>q. Some 0, srv_execute = \<lambda>q ps. Exec_affected 0\<rparr>,
                    my_alive = True\<rparr>, conn_released = breakdown 0, conn_pooled = False\<rparr>,
      ses_stmt = \<lparr>stm_stmt = \<lparr>sh_query = ''CALL p()''\<rparr>, stm_param_count = 0, stm_bind_index = 0, stm_binds = [],
                  stm_lengths = []\<rparr>,
      ses_result = Some (result_new \<lparr>st_fields = [], st_rows = [], st_row_count = 0, st_pending_status = True\<rparr>),
      ses_closed = False\<rparr>) = Inr (Out_fetched False)"
proof -
  define s where "s = \<lparr>ses_conn = \<lparr>conn_mysql = \<lparr>my_server = \<lparr>srv_prepare = \<lambda>q. Some 0, srv_execute = \<lambda>q ps. Exec_affected 0\<rparr>,
                    my_alive = True\<rparr>, conn_released = breakdown 0, conn_pooled = False\<rparr>,
      ses_stmt = \<lparr>stm_stmt = \<lparr>sh_query = ''CALL p()''\<rparr>, stm_param_count = 0, stm_bind_index = 0, stm_binds = [],
                  stm_lengths = []\<rparr>,
      ses_result = Some (result_new \<lparr>st_fields = [], st_rows = [], st_row_count = 0, st_pending_status = True\<rparr>),
      ses_closed = False\<rparr>"
  have "session_phase s = Exhausted" "my_alive (conn_mysql (ses_conn s))"
    by (simp_all add: s_def session_phase_def result_new_def)
  from session_exhausted_fetch [OF this, of True] show ?thesis by (simp add: s_def)
qed

end
