(* ===== verification/Spec2Isabelle.thy ===== *)
theory Spec2Isabelle
  imports Session
begin

text \<open>
  A verification development for \<open>mysqlpp\<close> (src/mysqlpp.hpp), a typed C++
  binding over MySQL's binary prepared-statement API. The header is the whole
  repository: it holds the \<open>exception\<close> class, the \<open>datetime\<close> value type
  with all its member bodies, the column descriptor, the \<open>result::get\<close>
  templates, the state of \<open>result\<close>, \<open>statement\<close> and \<open>connection\<close>, and
  the connection's pool-bookkeeping accessors. The bodies of the other
  methods of \<open>result\<close>, \<open>statement\<close> and \<open>connection\<close> live in a source
  file that is not in the repository; they are modelled from the
  specification and marked so in the manifest.

  \<^bold>\<open>Parts and how they interact.\<close> A \<open>connection\<close> opens a session and
  prepares \<open>statement\<close>s on it; a statement binds parameters by position,
  executes, or queries and yields a \<open>result\<close>; the result discovers the
  column metadata, fetches rows in two phases into \<open>st_mysql_column\<close>
  buffers and converts them on demand. \<open>datetime\<close> is parsed and printed
  through the C library (\<open>sscanf\<close>, \<open>mktime\<close>, \<open>localtime\<close>,
  \<open>strftime\<close>), and is the text form of date/time columns.

  \<^bold>\<open>Theories, leaves first.\<close>
  \<^item> \<open>Prelude\<close>: the C integer types (\<open>int\<close> and \<open>long\<close> of LP64 with
    \<open>wrap_int\<close> and \<open>sat_long\<close>, \<open>unsigned int\<close> as \<open>32 word\<close>), the C
    locale's character classes, decimal rendering and reading, and the
    two's complement reading of a word.
  \<^item> \<open>Exception\<close>: \<open>mysqlpp::exception\<close> (lines 25-45) and the error type
    of the model: \<open>Raised\<close> for an exception the header throws, \<open>Failed\<close>
    for an error kind of the specification (section 7).
  \<^item> \<open>Scanf\<close>: the \<open>sscanf\<close> call of line 65 with its format, after the C
    standard and glibc (directives, \<open>%d\<close> with \<open>strtol\<close> saturation, the
    count and \<open>EOF\<close>).
  \<^item> \<open>Calendar\<close>: \<open>struct tm\<close>, \<open>mktime\<close> (line 75) and \<open>localtime\<close>
    (line 52) after glibc in a zone with a fixed offset and no daylight
    saving; the year and month searches of \<open>__offtime\<close> are \<open>function\<close>s
    with termination proofs.
  \<^item> \<open>Datetime\<close>: \<open>mysqlpp::datetime\<close> (lines 47-117): \<open>set_time\<close>,
    \<open>c_tm\<close>, \<open>str\<close> (\<open>strftime\<close> into a 32-byte buffer), the constructor
    from text (\<open>datetime_of_string\<close>) and from the clock
    (\<open>datetime_now\<close>). The uninitialised \<open>std::tm\<close> on the stack is an
    explicit parameter \<open>junk\<close>.
  \<^item> \<open>Ieee754\<close>: the C types \<open>float\<close> and \<open>double\<close> as IEEE 754
    binary32 and binary64 held in their object representation (a
    \<open>32 word\<close>, a \<open>64 word\<close>), their real value after the AFP's
    \<open>valof\<close>, and the casts C performs (integer to floating point,
    \<open>float\<close> to \<open>double\<close> and back) as executable rounding to nearest,
    ties to even, with the NaN handling of the x86-64 SSE conversions. This is
    the semantics of the language the bodies are written in, not code of
    the repository.
  \<^item> \<open>Column\<close>: \<open>st_mysql_column\<close> (lines 119-134) and its constructor, the
    wire types \<open>enum_field_types\<close> and their kinds (section 6).
  \<^item> \<open>Result\<close>: \<open>mysqlpp::result\<close> (lines 136-210): state, \<open>bind\<close>, the
    two-phase \<open>fetch\<close> (\<open>fetch_cell\<close>, \<open>refetch_column\<close>, \<open>fetch_row\<close>)
    with its stored-procedure variant, \<open>num_rows\<close>, lookup by ordinal and
    by name, the \<open>get<T>\<close> templates and the \<open>fetch_column\<close> conversions
    for integers, floating point, text, blobs and date/time values. The binds point into the
    columns: bind \<open>i\<close> is the buffer of column \<open>i\<close>. \<open>result_abs\<close> maps
    the state to the abstract cursor \<open>cursor_fetch\<close> refines;
    \<open>fetch_loop\<close> and \<open>fetch_until_end\<close> are a caller's loops over
    \<open>fetch\<close>, bounded and unbounded.
  \<^item> \<open>Statement\<close>: \<open>mysqlpp::statement\<close> (lines 212-249): state, prepare,
    \<open>get_bind\<close>, every integer, floating-point, string, blob and null overload of
    \<open>param\<close>, \<open>execute\<close> and \<open>query\<close>. The server is an interface, a
    record of its prepare and execute functions.
  \<^item> \<open>Connection\<close>: \<open>mysqlpp::connection\<close> (lines 251-286): state, the
    constructor's defaults, \<open>ping\<close>, \<open>prepare\<close> and the accessors of lines
    260-278.
  \<^item> \<open>Session\<close>: the lifecycle of section 4.4 as a step function over one
    caller's connection, statement and result, its reachable states as an
    inductive set, and its phases.
  \<^item> This theory: the properties that span the components.

  \<^bold>\<open>What the lemmas show.\<close> The claims C1-C37 are stated in the theories
  where their definitions live, each after a text naming it. In
  \<open>Datetime\<close>: the text round trip and the shapes the constructor accepts
  or rejects (C1-C10), the round trip of the clock constructor through its
  text (C19), the rejection of five-digit years (C23) and the idempotence
  of the constructor's normalisation (C34). The calendar conversions (C3,
  C11-C13), the return value of \<open>sscanf\<close> and its conversions (C14-C16),
  the exception text (C17). The result engine: refinement of the row cursor
  by the two-phase fetch, the fetch loop, null handling, lookup by name with
  the first column of a name winning, and the conversions (C18, C20-C22,
  C24-C27), with the rounding of integer-to-floating-point reads (C26), and
  the termination of the caller's \<open>while (res->fetch())\<close> loop (C37).
  The statement's bind protocol (C28-C32) and the round trip of
  floating-point values through the wire (C33). The lifecycle invariant by
  rule induction (C35). Here, the round trip of a date/time column through
  its text (C36), and, as an executable example rather than a property, the
  scenario of the specification run through every component.
  \<open>Ieee754\<close> proves, for any two formats, that encoding is exact on
  representable values, that widening is exact and narrowing inverts it,
  that integers of at most \<open>mb + 1\<close> bits convert exactly, and that every
  conversion of a 64-bit integer errs by at most half an ulp.

  \<^bold>\<open>Bounds.\<close> The time zone is a fixed offset of less than a day; the
  text round trips hold for four-digit years, the \<open>mktime\<close>/\<open>localtime\<close>
  inverse for instants within \<open>2\<^sup>4\<^sup>0\<close> seconds of the epoch (about
  35000 years), which keeps every year within an \<open>int\<close>. Fetched values are
  shorter than \<open>2\<^sup>6\<^sup>4\<close> bytes, which the \<open>unsigned long\<close> length of the
  protocol can report. No loop of the model needs fuel: the year and month
  searches terminate by measure, the bounded fetch loop \<open>fetch_loop\<close>
  and the operation sequences are structural recursion. The caller's loop
  that fetches until \<open>fetch\<close> returns false has no bound in its shape; it
  is \<open>fetch_until_end\<close>, a \<open>partial_function\<close> in the option monad, and
  C37 proves that it returns \<open>Some\<close> on every result, after as many
  iterations as there are pending rows.

  \<^bold>\<open>Not modelled.\<close> The decimal text of a floating-point column
  (\<open>get<std::string>\<close> on a \<open>FLOAT\<close> or \<open>DOUBLE\<close> column: the
  specification names no precision or notation), rounding modes other than
  the default, daylight saving time, the fields of
  \<open>st_mysql_time\<close> the code never writes, the network transport and
  authentication of libmysqlclient (an interface here), the destructors
  (memory release has no observable effect in the model besides
  \<open>close\<close>), and concurrency, which the specification excludes.
\<close>

section \<open>Properties across the components\<close>

text \<open>
  An example: the scenario of the specification, run through the connection, the
  statement, the result and the conversions: prepare
  \<open>INSERT INTO t(a,b) VALUES (?,?)\<close>, bind the integer 5 and the text
  \<open>"x"\<close>, execute: one row affected; prepare
  \<open>SELECT a,b FROM t WHERE a=?\<close>, bind 5, query, fetch once:
  \<open>get<int>("a")\<close> is 5 and \<open>get<std::string>("b")\<close> is \<open>"x"\<close>; the second
  fetch returns false.
\<close>

theorem insert_select_scenario:
  "let srv = \<lparr>srv_prepare = \<lambda>q. if q = ''INSERT INTO t(a,b) VALUES (?,?)'' then Some 2
                                 else if q = ''SELECT a,b FROM t WHERE a=?'' then Some 1 else None,
             srv_execute = \<lambda>q ps.
               if q = ''INSERT INTO t(a,b) VALUES (?,?)'' \<and>
                  ps = [Param_val MYSQL_TYPE_LONG False (le_bytes 4 5), Param_val MYSQL_TYPE_STRING False [120]]
               then Exec_affected 1
               else if q = ''SELECT a,b FROM t WHERE a=?'' \<and> ps = [Param_val MYSQL_TYPE_LONG False (le_bytes 4 5)]
               then Exec_rows [\<lparr>fm_type = MYSQL_TYPE_LONG, fm_name = ''a'', fm_unsigned = False\<rparr>,
                               \<lparr>fm_type = MYSQL_TYPE_VAR_STRING, fm_name = ''b'', fm_unsigned = False\<rparr>]
                              [[Cell_val (le_bytes 4 5), Cell_val [120]]] False
               else Exec_rejected\<rparr>;
       c = projr (connection_new (\<lambda>p. Some srv) (breakdown 0) (default_params ''localhost'' ''root'' '''' ''test''));
       start = (\<lambda>q. \<lparr>ses_conn = c, ses_stmt = projr (connection_prepare c q), ses_result = None, ses_closed = False\<rparr>);
       ins = session_run [Op_param (int_bind MYSQL_TYPE_LONG False (5 :: 32 word)), Op_param (text_bind MYSQL_TYPE_STRING ''x''),
               Op_execute] (start ''INSERT INTO t(a,b) VALUES (?,?)'');
       sel = session_run [Op_param (int_bind MYSQL_TYPE_LONG False (5 :: 32 word)), Op_query, Op_fetch False]
               (start ''SELECT a,b FROM t WHERE a=?'');
       r = the (ses_result (snd sel))
   in fst ins = [Inr Out_done, Inr Out_done, Inr (Out_affected 1)] \<and>
      fst sel = [Inr Out_done, Inr Out_done, Inr (Out_fetched True)] \<and>
      get_name fetch_column_word (0 :: 32 word) r ''a'' = Inr 5 \<and>
      get_name fetch_column_string '''' r ''b'' = Inr ''x'' \<and>
      fst (session_step (Op_fetch False) (snd sel)) = Inr (Out_fetched False)"
  by code_simp

text \<open>
  C36. A date/time column read as a string and parsed back by
  \<open>datetime(const std::string&)\<close> gives the datetime of the column's
  fields, for valid fields with a four-digit year (the second before the
  epoch in the zone excepted, see C6).
\<close>

theorem time_column_text_roundtrip:
  assumes "wire_kind_of (col_type c) = Wire_time" "col_buffer c = mysql_time_bytes (mk_datetime y mo d h mi s)"
    "civil_valid y mo d h mi s" "1000 \<le> y" "y \<le> 9999" "\<bar>tz\<bar> < 86400"
    "tm_seconds (civil_tm y mo d h mi s) \<noteq> tz - 1"
  shows "datetime_of_string tz junk (fetch_column_string c v) = Inr (mk_datetime y mo d h mi s)"
proof -
  have "fetch_column_string c v = strftime_fields y mo d h mi s"
    using assms(1,2) datetime_str_mk_datetime [OF assms(3-5), of "breakdown 0"]
    by (simp add: fetch_column_string_def mysql_time_datetime_bytes)
  then show ?thesis using datetime_of_string_fields [OF assms(3-6), of junk] assms(7) by simp
qed

theorem time_column_text_roundtrip_witness:
  "datetime_of_string 0 (breakdown 0)
     (fetch_column_string
       \<lparr>col_type = MYSQL_TYPE_DATETIME, col_name = ''t'', col_buffer = mysql_time_bytes (mk_datetime 2016 2 29 12 30 45),
        col_length = 40, col_is_unsigned = 0, col_is_null = 0, col_error = 0\<rparr> '''') = Inr (mk_datetime 2016 2 29 12 30 45)"
proof -
  have v: "civil_valid 2016 2 29 12 30 45"
    by (simp add: civil_valid_def month_length_def mon_yday_def is_leap_def)
  have t: "tm_seconds (civil_tm 2016 2 29 12 30 45) \<noteq> 0 - 1"
    by (simp add: tm_seconds_def civil_tm_def epoch_days_val days_upto_def leaps_def mon_yday_def is_leap_def)
  show ?thesis using time_column_text_roundtrip [OF _ _ v _ _ _ t, of "\<lparr>col_type = MYSQL_TYPE_DATETIME, col_name = ''t'',
      col_buffer = mysql_time_bytes (mk_datetime 2016 2 29 12 30 45), col_length = 40, col_is_unsigned = 0,
      col_is_null = 0, col_error = 0\<rparr>" "breakdown 0" "''''"] by simp
qed

end
